theory Spec2Isabelle
  imports Complex_Main "HOL-Library.Word"
begin

section \<open>Data model of the procedural mesh library (namespace nvh::geometry)\<close>

text \<open>
  Indices are \<open>glm::uvec2\<close> / \<open>glm::uvec3\<close>: tuples of 32-bit unsigned integers whose
  arithmetic wraps around.  Vectors of floats are tuples over an abstract float type \<open>'f\<close>.
  Segment counts and loop counters are C++ \<open>int\<close>; they are modelled as mathematical
  integers (signed overflow is undefined in C++, so the model describes the runs in which
  \<open>w + 1\<close>, \<open>(w + 1) * (h + 1)\<close> and the like are representable).
\<close>

type_synonym u32 = "32 word"
type_synonym uvec2 = "u32 \<times> u32"
type_synonym uvec3 = "u32 \<times> u32 \<times> u32"
type_synonym 'f vec2 = "'f \<times> 'f"
type_synonym 'f vec3 = "'f \<times> 'f \<times> 'f"
type_synonym 'f vec4 = "'f \<times> 'f \<times> 'f \<times> 'f"

record 'f Vertex =
  position :: "'f vec4"
  normal :: "'f vec4"
  texcoord :: "'f vec4"

text \<open>
  The source computes vertex attributes with single-precision floats and the glm library
  (\<open>glm::mat4\<close>, \<open>glm::rotate\<close>, \<open>glm::translate\<close>, \<open>glm::scale\<close>, \<open>sinf\<close>, \<open>cosf\<close>), and
  the mesh is a template over \<open>TVertex\<close>, any type constructible from \<open>Vertex\<close>.  None of
  these is defined in the repository, so they are parameters of the model: \<open>'f\<close> is the float
  type, \<open>'m\<close> is \<open>glm::mat4\<close>, \<open>'v\<close> is \<open>TVertex\<close>, and a record carries the operations.
  Every theorem below holds for every choice of these operations.
\<close>

record ('f, 'm, 'v) glm =
  f_lit :: "rat \<Rightarrow> 'f"                      \<comment> \<open>a float literal such as \<open>0.5f\<close>\<close>
  f_pi :: "'f"                                \<comment> \<open>\<open>glm::pi<float>()\<close>\<close>
  f_of_int :: "int \<Rightarrow> 'f"                     \<comment> \<open>the cast \<open>(float)i\<close>\<close>
  f_add :: "'f \<Rightarrow> 'f \<Rightarrow> 'f"
  f_sub :: "'f \<Rightarrow> 'f \<Rightarrow> 'f"
  f_mul :: "'f \<Rightarrow> 'f \<Rightarrow> 'f"
  f_div :: "'f \<Rightarrow> 'f \<Rightarrow> 'f"
  f_neg :: "'f \<Rightarrow> 'f"
  f_less :: "'f \<Rightarrow> 'f \<Rightarrow> bool"
  f_sin :: "'f \<Rightarrow> 'f"
  f_cos :: "'f \<Rightarrow> 'f"
  mat_ident :: "'m"                           \<comment> \<open>\<open>glm::mat4(1)\<close>\<close>
  mat_mul :: "'m \<Rightarrow> 'm \<Rightarrow> 'm"                 \<comment> \<open>\<open>mat4 * mat4\<close>\<close>
  mat_vec :: "'m \<Rightarrow> 'f vec4 \<Rightarrow> 'f vec4"        \<comment> \<open>\<open>mat4 * vec4\<close>\<close>
  rotate :: "'m \<Rightarrow> 'f \<Rightarrow> 'f vec3 \<Rightarrow> 'm"        \<comment> \<open>\<open>glm::rotate\<close>\<close>
  translate :: "'m \<Rightarrow> 'f vec3 \<Rightarrow> 'm"          \<comment> \<open>\<open>glm::translate\<close>\<close>
  scale :: "'m \<Rightarrow> 'f vec3 \<Rightarrow> 'm"              \<comment> \<open>\<open>glm::scale\<close>\<close>
  RAND_MAX :: int                             \<comment> \<open>the constant of \<open>cstdlib\<close>\<close>
  to_TVertex :: "'f Vertex \<Rightarrow> 'v"              \<comment> \<open>the constructor \<open>TVertex(Vertex)\<close>\<close>

text \<open>The constructor \<open>Vertex(position, normal, texcoord)\<close>.\<close>

definition Vertex_ctor :: "('f, 'm, 'v) glm \<Rightarrow> 'f vec3 \<Rightarrow> 'f vec3 \<Rightarrow> 'f vec2 \<Rightarrow> 'f Vertex" where
  "Vertex_ctor G pos nrm uv =
     (case pos of (px, py, pz) \<Rightarrow> case nrm of (nx, ny, nz) \<Rightarrow> case uv of (u, v) \<Rightarrow>
        \<lparr>position = (px, py, pz, f_lit G 1),
         normal = (nx, ny, nz, f_lit G 0),
         texcoord = (u, v, f_lit G 0, f_lit G 0)\<rparr>)"

record 'v Mesh =
  m_vertices :: "'v list"
  m_indicesTriangles :: "uvec3 list"
  m_indicesOutline :: "uvec2 list"

definition empty_Mesh :: "'v Mesh" where
  "empty_Mesh = \<lparr>m_vertices = [], m_indicesTriangles = [], m_indicesOutline = []\<rparr>"

text \<open>\<open>i + vertOffset\<close> with \<open>i\<close> an \<open>int\<close> expression and \<open>vertOffset\<close> a \<open>uint32_t\<close>: the
  \<open>int\<close> is converted to unsigned and the sum wraps modulo \<open>2^32\<close>.\<close>

definition idx :: "int \<Rightarrow> u32 \<Rightarrow> u32" where
  "idx i vertOffset = word_of_int i + vertOffset"

text \<open>\<open>(uint32_t) v.size()\<close>.\<close>

definition size_u32 :: "'a list \<Rightarrow> u32" where
  "size_u32 xs = word_of_nat (length xs)"

subsection \<open>Mesh::flipWinding\<close>

definition swap_xz :: "uvec3 \<Rightarrow> uvec3" where
  "swap_xz t = (case t of (x, y, z) \<Rightarrow> (z, y, x))"

text \<open>The loop \<open>for (i = 0; i < m_indicesTriangles.size(); i++) swap(tri[i].x, tri[i].z)\<close>.\<close>

definition flipWinding :: "'v Mesh \<Rightarrow> 'v Mesh" where
  "flipWinding m =
     m\<lparr>m_indicesTriangles :=
          fold (\<lambda>i ts. ts[i := swap_xz (ts ! i)])
               [0..<length (m_indicesTriangles m)] (m_indicesTriangles m)\<rparr>"

text \<open>
  The same loop with its counter and its exit test written out: \<open>flipWinding_loop i ts\<close> is
  the run of the loop from the counter value \<open>i\<close> on the triangle vector \<open>ts\<close>.  The counter
  is a \<open>size_t\<close>, which no vector size exceeds; a run that does not end has the value
  \<open>None\<close>.
\<close>

partial_function (option) flipWinding_loop :: "nat \<Rightarrow> uvec3 list \<Rightarrow> uvec3 list option" where
  "flipWinding_loop i ts =
     (if i < length ts then flipWinding_loop (i + 1) (ts[i := swap_xz (ts ! i)]) else Some ts)"

definition flipWinding_loops :: "'v Mesh \<Rightarrow> 'v Mesh option" where
  "flipWinding_loops m =
     (case flipWinding_loop 0 (m_indicesTriangles m) of
        None \<Rightarrow> None
      | Some ts \<Rightarrow> Some (m\<lparr>m_indicesTriangles := ts\<rparr>))"

subsection \<open>Plane::add\<close>

text \<open>One iteration of the vertex loop of \<open>Plane::add\<close>, at grid position \<open>(x, y)\<close>:
  first the line \<open>Vertex vert = Vertex(pos, normal, uv)\<close>, then the two products with
  \<open>mat\<close> and the \<open>push_back\<close> argument.\<close>

definition Plane_local :: "('f, 'm, 'v) glm \<Rightarrow> 'f \<Rightarrow> 'f \<Rightarrow> int \<Rightarrow> int \<Rightarrow> 'f Vertex" where
  "Plane_local G xmove ymove x y =
     (let xpos = f_mul G (f_of_int G x) xmove;
          ypos = f_mul G (f_of_int G y) ymove;
          pos = (f_mul G (f_sub G xpos (f_lit G (1/2))) (f_lit G 2),
                 f_mul G (f_sub G ypos (f_lit G (1/2))) (f_lit G 2),
                 f_of_int G 0);
          uv = (xpos, ypos);
          nrm = (f_lit G 0, f_lit G 0, f_lit G 1)
      in Vertex_ctor G pos nrm uv)"

definition Plane_vertex :: "('f, 'm, 'v) glm \<Rightarrow> 'm \<Rightarrow> 'f \<Rightarrow> 'f \<Rightarrow> int \<Rightarrow> int \<Rightarrow> 'v" where
  "Plane_vertex G mat xmove ymove x y =
     (let vert = Plane_local G xmove ymove x y;
          vert = vert\<lparr>position := mat_vec G mat (position vert)\<rparr>;
          vert = vert\<lparr>normal := mat_vec G mat (normal vert)\<rparr>
      in to_TVertex G vert)"

text \<open>The two triangles pushed for the grid cell \<open>(x, y)\<close>: "upper tris", then "lower tris".\<close>

definition Plane_cell :: "int \<Rightarrow> u32 \<Rightarrow> int \<Rightarrow> int \<Rightarrow> uvec3 list" where
  "Plane_cell width vertOffset x y =
     [(idx (x + (y + 1) * width) vertOffset, idx (x + y * width) vertOffset,
       idx ((x + 1) + (y + 1) * width) vertOffset),
      (idx ((x + 1) + (y + 1) * width) vertOffset, idx (x + y * width) vertOffset,
       idx ((x + 1) + y * width) vertOffset)]"

text \<open>The four outline loops of \<open>Plane::add\<close>, in the order of the source.\<close>

definition Plane_outline :: "int \<Rightarrow> int \<Rightarrow> int \<Rightarrow> u32 \<Rightarrow> uvec2 list" where
  "Plane_outline xdim ydim width vertOffset =
     map (\<lambda>y. (idx (y * width) vertOffset, idx ((y + 1) * width) vertOffset)) [0..ydim - 1]
     @ map (\<lambda>y. (idx (y * width + xdim) vertOffset, idx ((y + 1) * width + xdim) vertOffset))
         [0..ydim - 1]
     @ map (\<lambda>x. (idx x vertOffset, idx (x + 1) vertOffset)) [0..xdim - 1]
     @ map (\<lambda>x. (idx (x + ydim * width) vertOffset, idx ((x + 1) + ydim * width) vertOffset))
         [0..xdim - 1]"

text \<open>
  \<open>Plane::add(geo, mat, w, h)\<close>.  A loop \<open>for (y = 0; y < ydim + 1; y++)\<close> runs over
  \<open>[0..ydim]\<close>, a loop \<open>for (y = 0; y < ydim; y++)\<close> over \<open>[0..ydim - 1]\<close>; every
  \<open>push_back\<close> appends at the end of the vector.
\<close>

definition Plane_add :: "('f, 'm, 'v) glm \<Rightarrow> 'v Mesh \<Rightarrow> 'm \<Rightarrow> int \<Rightarrow> int \<Rightarrow> 'v Mesh" where
  "Plane_add G geo mat w h =
     (let xdim = w;
          ydim = h;
          xmove = f_div G (f_lit G 1) (f_of_int G xdim);
          ymove = f_div G (f_lit G 1) (f_of_int G ydim);
          width = xdim + 1;
          vertOffset = size_u32 (m_vertices geo)
      in geo\<lparr>m_vertices := m_vertices geo
                  @ concat (map (\<lambda>y. map (\<lambda>x. Plane_vertex G mat xmove ymove x y) [0..xdim])
                                [0..ydim]),
              m_indicesTriangles := m_indicesTriangles geo
                  @ concat (map (\<lambda>y. concat (map (\<lambda>x. Plane_cell width vertOffset x y)
                                                   [0..xdim - 1]))
                                [0..ydim - 1]),
              m_indicesOutline := m_indicesOutline geo
                  @ Plane_outline xdim ydim width vertOffset\<rparr>)"

subsection \<open>Box::add\<close>

definition Box_configs :: "int \<Rightarrow> int \<Rightarrow> int \<Rightarrow> (int \<times> int) list" where
  "Box_configs w h d = [(w, h), (w, h), (d, h), (d, h), (w, d), (w, d)]"

text \<open>The \<open>switch (side)\<close> of \<open>Box::add\<close>.\<close>

definition Box_matrixRot :: "('f, 'm, 'v) glm \<Rightarrow> int \<Rightarrow> 'm" where
  "Box_matrixRot G side =
     (let yaxis = (f_of_int G 0, f_of_int G 1, f_of_int G 0);
          xaxis = (f_of_int G 1, f_of_int G 0, f_of_int G 0)
      in if side = 0 then mat_ident G
         else if side = 1 then rotate G (mat_ident G) (f_pi G) yaxis
         else if side = 2 then rotate G (mat_ident G) (f_mul G (f_pi G) (f_lit G (1/2))) yaxis
         else if side = 3 then rotate G (mat_ident G) (f_mul G (f_pi G) (f_lit G (3/2))) yaxis
         else if side = 4 then rotate G (mat_ident G) (f_mul G (f_pi G) (f_lit G (1/2))) xaxis
         else if side = 5 then rotate G (mat_ident G) (f_mul G (f_pi G) (f_lit G (3/2))) xaxis
         else mat_ident G)"

definition Box_side :: "('f, 'm, 'v) glm \<Rightarrow> 'm \<Rightarrow> int \<Rightarrow> int \<Rightarrow> int \<Rightarrow> int \<Rightarrow> 'v Mesh \<Rightarrow> 'v Mesh" where
  "Box_side G mat w h d side geo =
     (let matrixRot = Box_matrixRot G side;
          matrixMove = translate G (mat_ident G) (f_lit G 0, f_lit G 0, f_lit G 1);
          config = Box_configs w h d ! nat side
      in Plane_add G geo (mat_mul G (mat_mul G mat matrixRot) matrixMove) (fst config) (snd config))"

definition Box_add :: "('f, 'm, 'v) glm \<Rightarrow> 'v Mesh \<Rightarrow> 'm \<Rightarrow> int \<Rightarrow> int \<Rightarrow> int \<Rightarrow> 'v Mesh" where
  "Box_add G geo mat w h d = fold (Box_side G mat w h d) [0, 1, 2, 3, 4, 5] geo"

subsection \<open>Sphere::add\<close>

text \<open>C++ integer division truncates towards zero.\<close>

definition c_div :: "int \<Rightarrow> int \<Rightarrow> int" where
  "c_div a b = (if (a < 0) = (b < 0) then \<bar>a\<bar> div \<bar>b\<bar> else - (\<bar>a\<bar> div \<bar>b\<bar>))"

definition Sphere_local :: "('f, 'm, 'v) glm \<Rightarrow> 'f \<Rightarrow> 'f \<Rightarrow> int \<Rightarrow> int \<Rightarrow> 'f Vertex" where
  "Sphere_local G xyshift zshift xy z =
     (let curxy = f_mul G xyshift (f_of_int G xy);
          curz = f_mul G zshift (f_of_int G z);
          anglexy = f_mul G (f_mul G curxy (f_pi G)) (f_lit G 2);
          anglez = f_mul G (f_sub G (f_lit G 1) curz) (f_pi G);
          pos = (f_mul G (f_cos G anglexy) (f_sin G anglez),
                 f_mul G (f_sin G anglexy) (f_sin G anglez),
                 f_cos G anglez);
          nrm = pos;
          uv = (curxy, curz)
      in Vertex_ctor G pos nrm uv)"

definition Sphere_vertex :: "('f, 'm, 'v) glm \<Rightarrow> 'm \<Rightarrow> 'f \<Rightarrow> 'f \<Rightarrow> int \<Rightarrow> int \<Rightarrow> 'v" where
  "Sphere_vertex G mat xyshift zshift xy z =
     (let vert = Sphere_local G xyshift zshift xy z;
          vert = vert\<lparr>position := mat_vec G mat (position vert)\<rparr>;
          vert = vert\<lparr>normal := mat_vec G mat (normal vert)\<rparr>
      in to_TVertex G vert)"

text \<open>
  The body of the triangle loop for the quad in ring \<open>z\<close> whose first corner is the running
  counter \<open>vertex\<close>.  The first triangle has two corners in ring \<open>z + 1\<close> (the "upper"
  triangle, as in \<open>Plane::add\<close>), the second has two corners in ring \<open>z\<close> (the "lower" one).
\<close>

definition Sphere_upper :: "int \<Rightarrow> u32 \<Rightarrow> int \<Rightarrow> uvec3" where
  "Sphere_upper width vertOffset vertex =
     (idx (vertex + width + 1) vertOffset, idx (vertex + width) vertOffset, idx vertex vertOffset)"

definition Sphere_lower :: "int \<Rightarrow> u32 \<Rightarrow> int \<Rightarrow> uvec3" where
  "Sphere_lower width vertOffset vertex =
     (idx vertex vertOffset, idx (vertex + 1) vertOffset, idx (vertex + width + 1) vertOffset)"

definition Sphere_quad :: "int \<Rightarrow> int \<Rightarrow> u32 \<Rightarrow> int \<Rightarrow> int \<Rightarrow> uvec3 list" where
  "Sphere_quad zdim width vertOffset z vertex =
     (if z \<noteq> zdim - 1 then [Sphere_upper width vertOffset vertex] else [])
     @ (if z \<noteq> 0 then [Sphere_lower width vertOffset vertex] else [])"

text \<open>The inner loop \<open>for (xy = 0; xy < xydim; xy++, vertex++)\<close>; the state is the counter
  \<open>vertex\<close> and the triangle vector.\<close>

definition Sphere_row :: "int \<Rightarrow> int \<Rightarrow> int \<Rightarrow> u32 \<Rightarrow> int \<Rightarrow> int \<times> uvec3 list \<Rightarrow> int \<times> uvec3 list" where
  "Sphere_row xydim zdim width vertOffset z =
     fold (\<lambda>xy (vertex, tris). (vertex + 1, tris @ Sphere_quad zdim width vertOffset z vertex))
          [0..xydim - 1]"

text \<open>The outer loop \<open>for (z = 0; z < zdim; z++) { ...; vertex++; }\<close>, from \<open>vertex = 0\<close>.\<close>

definition Sphere_triangles :: "int \<Rightarrow> int \<Rightarrow> int \<Rightarrow> u32 \<Rightarrow> uvec3 list \<Rightarrow> uvec3 list" where
  "Sphere_triangles xydim zdim width vertOffset tris =
     snd (fold (\<lambda>z st. case Sphere_row xydim zdim width vertOffset z st of
                          (vertex, tris') \<Rightarrow> (vertex + 1, tris'))
               [0..zdim - 1] (0, tris))"

definition Sphere_outline :: "int \<Rightarrow> int \<Rightarrow> int \<Rightarrow> u32 \<Rightarrow> uvec2 list" where
  "Sphere_outline xydim zdim width vertOffset =
     (let middlez = c_div zdim 2
      in map (\<lambda>xy. (idx (middlez * width + xy) vertOffset,
                     idx (middlez * width + xy + 1) vertOffset)) [0..xydim - 1]
         @ concat (map (\<lambda>i. let x = c_div (xydim * i) 4
                             in map (\<lambda>z. (idx (x + width * z) vertOffset,
                                           idx (x + width * (z + 1)) vertOffset)) [0..zdim - 1])
                       [0..3]))"

definition Sphere_add :: "('f, 'm, 'v) glm \<Rightarrow> 'v Mesh \<Rightarrow> 'm \<Rightarrow> int \<Rightarrow> int \<Rightarrow> 'v Mesh" where
  "Sphere_add G geo mat w h =
     (let xydim = w;
          zdim = h;
          vertOffset = size_u32 (m_vertices geo);
          xyshift = f_div G (f_lit G 1) (f_of_int G xydim);
          zshift = f_div G (f_lit G 1) (f_of_int G zdim);
          width = xydim + 1
      in geo\<lparr>m_vertices := m_vertices geo
                  @ concat (map (\<lambda>z. map (\<lambda>xy. Sphere_vertex G mat xyshift zshift xy z) [0..xydim])
                                [0..zdim]),
              m_indicesTriangles :=
                  Sphere_triangles xydim zdim width vertOffset (m_indicesTriangles geo),
              m_indicesOutline := m_indicesOutline geo
                  @ Sphere_outline xydim zdim width vertOffset\<rparr>)"

subsection \<open>Torus::add\<close>

text \<open>
  The floats \<open>wf\<close> and \<open>hf\<close> of the source are \<open>w_f\<close> and \<open>h_f\<close> here.
  \<open>Torus::add\<close> counts with \<open>unsigned int\<close>: the loop variables, \<open>columns\<close> and the index
  expressions are 32-bit unsigned values.  An \<open>int\<close> loop value \<open>i\<close> below stands for the
  unsigned value \<open>uns i\<close>.
\<close>

definition uns :: "int \<Rightarrow> u32" where
  "uns i = word_of_int i"

text \<open>
  \<open>unsigned int latitude = y * (0.25 * h)\<close> is computed in double precision and truncated.
  For \<open>0 \<le> h < 2^31\<close> and \<open>0 \<le> y < 4\<close> the factors and the product are multiples of
  \<open>1/4\<close> below \<open>2^33\<close>, which a double holds exactly, so the result is
  \<open>\<lfloor>y * h / 4\<rfloor>\<close>.
\<close>

definition quarter :: "int \<Rightarrow> int \<Rightarrow> u32" where
  "quarter y h = uns ((y * h) div 4)"

definition Torus_vertex :: "('f, 'm, 'v) glm \<Rightarrow> 'f \<Rightarrow> 'f \<Rightarrow> 'f \<Rightarrow> 'f \<Rightarrow> int \<Rightarrow> int \<Rightarrow> 'v" where
  "Torus_vertex G w_f h_f phi_step theta_step latitude longitude =
     (let innerRadius = f_lit G (8/10);
          outerRadius = f_lit G (2/10);
          theta = f_mul G (f_of_int G latitude) theta_step;
          sinTheta = f_sin G theta;
          cosTheta = f_cos G theta;
          radius = f_add G innerRadius (f_mul G outerRadius cosTheta);
          phi = f_mul G (f_of_int G longitude) phi_step;
          sinPhi = f_sin G phi;
          cosPhi = f_cos G phi;
          pos = (f_mul G radius cosPhi, f_mul G outerRadius sinTheta,
                 f_mul G radius (f_neg G sinPhi));
          nrm = (f_mul G cosPhi cosTheta, sinTheta, f_mul G (f_neg G sinPhi) cosTheta);
          uv = (f_div G (f_of_int G longitude) w_f, f_div G (f_of_int G latitude) h_f)
      in to_TVertex G (Vertex_ctor G pos nrm uv))"

text \<open>The two triangles pushed for \<open>(latitude, longitude)\<close>: \<open>triangle1\<close>, then \<open>triangle2\<close>.\<close>

definition Torus_cell :: "u32 \<Rightarrow> int \<Rightarrow> int \<Rightarrow> uvec3 list" where
  "Torus_cell columns latitude longitude =
     [(uns latitude * columns + uns longitude, uns latitude * columns + uns longitude + 1,
       (uns latitude + 1) * columns + uns longitude),
      ((uns latitude + 1) * columns + uns longitude, uns latitude * columns + uns longitude + 1,
       (uns latitude + 1) * columns + uns longitude + 1)]"

definition Torus_outline :: "int \<Rightarrow> int \<Rightarrow> u32 \<Rightarrow> uvec2 list" where
  "Torus_outline w h columns =
     concat (map (\<lambda>longitude.
                    map (\<lambda>y. let latitude = quarter y h
                             in (latitude * columns + uns longitude,
                                 latitude * columns + uns longitude + 1)) [0..3])
                 [0..w - 1])
     @ concat (map (\<lambda>x.
                    map (\<lambda>latitude. let longitude = quarter x w
                                    in (uns latitude * columns + longitude,
                                        (uns latitude + 1) * columns + longitude)) [0..h - 1])
                   [0..3])"

text \<open>
  \<open>Torus::add(geo, mat, w, h)\<close>.  For a negative count the cast \<open>(unsigned int)w\<close> is at least
  \<open>2^31\<close>: the loop \<open>latitude <= (unsigned int)w\<close> never ends for \<open>w = -1\<close>, and converting
  the negative double \<open>y * (0.25 * h)\<close> to unsigned is undefined.  The model returns \<open>None\<close>
  for these inputs and the mesh after the call otherwise.  The parameter \<open>mat\<close> is taken as
  in the source, which never reads it, and no index is offset by the vertex count of \<open>geo\<close>.
\<close>

definition Torus_add :: "('f, 'm, 'v) glm \<Rightarrow> 'v Mesh \<Rightarrow> 'm \<Rightarrow> int \<Rightarrow> int \<Rightarrow> 'v Mesh option" where
  "Torus_add G geo mat w h =
     (if w < 0 \<or> h < 0 then None
      else
        let w_f = f_of_int G w;
            h_f = f_of_int G h;
            phi_step = f_div G (f_mul G (f_lit G 2) (f_pi G)) w_f;
            theta_step = f_div G (f_mul G (f_lit G 2) (f_pi G)) h_f;
            columns = uns (w + 1)
        in Some (geo\<lparr>m_vertices := m_vertices geo
                  @ concat (map (\<lambda>latitude.
                                   map (\<lambda>longitude. Torus_vertex G w_f h_f phi_step theta_step
                                                      latitude longitude) [0..h])
                                [0..w]),
              m_indicesTriangles := m_indicesTriangles geo
                  @ concat (map (\<lambda>latitude. concat (map (\<lambda>longitude.
                                                   Torus_cell columns latitude longitude)
                                                   [0..h - 1]))
                                [0..w - 1]),
              m_indicesOutline := m_indicesOutline geo @ Torus_outline w h columns\<rparr>))"

subsection \<open>Torus::add, loop by loop\<close>

text \<open>
  The loops of \<open>Torus::add\<close> as they are written.  \<open>loop_le i n body\<close> is
  \<open>for (unsigned int k = i; k <= n; k++) body(k)\<close> and \<open>loop_lt i n body\<close> is the same loop with
  the test \<open>k < n\<close>; the counter is a 32-bit unsigned value, \<open>k++\<close> wraps around, and the body
  changes the state or fails.  A loop that does not end has the value \<open>None\<close>.
\<close>

partial_function (option) loop_le :: "u32 \<Rightarrow> u32 \<Rightarrow> (u32 \<Rightarrow> 's \<Rightarrow> 's option) \<Rightarrow> 's \<Rightarrow> 's option" where
  "loop_le i n body s =
     (if i \<le> n then Option.bind (body i s) (loop_le (i + 1) n body) else Some s)"

partial_function (option) loop_lt :: "u32 \<Rightarrow> u32 \<Rightarrow> (u32 \<Rightarrow> 's \<Rightarrow> 's option) \<Rightarrow> 's \<Rightarrow> 's option" where
  "loop_lt i n body s =
     (if i < n then Option.bind (body i s) (loop_lt (i + 1) n body) else Some s)"

text \<open>
  \<open>unsigned int latitude = y * (0.25 * h)\<close> with \<open>y\<close> an \<open>unsigned int\<close> and \<open>h\<close> an \<open>int\<close>:
  the product is formed in double precision and converted to \<open>unsigned int\<close>, which truncates
  towards zero and is undefined when the truncated value is not a 32-bit unsigned value, that
  is when the product is \<open>\<le> -1\<close> or \<open>\<ge> 2^32\<close>; the undefined conversion is \<open>None\<close>.  The
  source calls it with \<open>y < 4\<close> only, where the double product is exact.
\<close>

definition quarter_checked :: "u32 \<Rightarrow> int \<Rightarrow> u32 option" where
  "quarter_checked y h =
     (if uint y * h \<le> - 4 \<or> 2 ^ 34 \<le> uint y * h then None
      else Some (uns (c_div (uint y * h) 4)))"

text \<open>
  \<open>Torus::add(geo, mat, w, h)\<close>: the vertex loops, the triangle loops and the two pairs of
  outline loops, one after the other on the same mesh.  \<open>(float)latitude\<close> is the float of
  the counter's value, \<open>uint latitude\<close>; the index expressions are unsigned 32-bit arithmetic.
\<close>

definition Torus_add_loops :: "('f, 'm, 'v) glm \<Rightarrow> 'v Mesh \<Rightarrow> 'm \<Rightarrow> int \<Rightarrow> int \<Rightarrow> 'v Mesh option" where
  "Torus_add_loops G geo mat w h =
     (let w_f = f_of_int G w;
          h_f = f_of_int G h;
          phi_step = f_div G (f_mul G (f_lit G 2) (f_pi G)) w_f;
          theta_step = f_div G (f_mul G (f_lit G 2) (f_pi G)) h_f;
          columns = uns (w + 1)
      in Option.bind
           (loop_le 0 (uns w) (\<lambda>latitude.
              loop_le 0 (uns h) (\<lambda>longitude geo.
                Some (geo\<lparr>m_vertices := m_vertices geo
                   @ [Torus_vertex G w_f h_f phi_step theta_step
                        (uint latitude) (uint longitude)]\<rparr>))) geo)
        (\<lambda>geo. Option.bind
           (loop_lt 0 (uns w) (\<lambda>latitude.
              loop_lt 0 (uns h) (\<lambda>longitude geo.
                Some (geo\<lparr>m_indicesTriangles := m_indicesTriangles geo
                   @ [(latitude * columns + longitude, latitude * columns + longitude + 1,
                       (latitude + 1) * columns + longitude),
                      ((latitude + 1) * columns + longitude, latitude * columns + longitude + 1,
                       (latitude + 1) * columns + longitude + 1)]\<rparr>))) geo)
        (\<lambda>geo. Option.bind
           (loop_lt 0 (uns w) (\<lambda>longitude.
              loop_lt 0 4 (\<lambda>y geo.
                case quarter_checked y h of
                  None \<Rightarrow> None
                | Some latitude \<Rightarrow>
                    Some (geo\<lparr>m_indicesOutline := m_indicesOutline geo
                       @ [(latitude * columns + longitude,
                           latitude * columns + longitude + 1)]\<rparr>))) geo)
        (\<lambda>geo.
           loop_lt 0 4 (\<lambda>x.
              loop_lt 0 (uns h) (\<lambda>latitude geo.
                case quarter_checked x w of
                  None \<Rightarrow> None
                | Some longitude \<Rightarrow>
                    Some (geo\<lparr>m_indicesOutline := m_indicesOutline geo
                       @ [(latitude * columns + longitude,
                           (latitude + 1) * columns + longitude)]\<rparr>))) geo))))"

subsection \<open>RandomMengerSponge::add\<close>

text \<open>
  The process-wide source behind \<open>rand()\<close> is the sequence of values it will return and
  the number of calls made so far.
\<close>

record rand_state =
  rand_seq :: "nat \<Rightarrow> int"
  rand_calls :: nat

definition rand :: "rand_state \<Rightarrow> int \<times> rand_state" where
  "rand st = (rand_seq st (rand_calls st), st\<lparr>rand_calls := rand_calls st + 1\<rparr>)"

record 'f Cube =
  m_topLeftFront :: "'f vec3"
  m_size :: "'f"

text \<open>The cube \<open>{topLeftFront, size}\<close> pushed at grid position \<open>(x, y, z)\<close>; the local
  \<open>size\<close> of the source is \<open>csize\<close> here.\<close>

definition Cube_sub :: "('f, 'm, 'v) glm \<Rightarrow> 'f Cube \<Rightarrow> 'f \<Rightarrow> int \<times> int \<times> int \<Rightarrow> 'f Cube" where
  "Cube_sub G c csize cell =
     (case cell of (x, y, z) \<Rightarrow> case m_topLeftFront c of (x0, y0, z0) \<Rightarrow>
        \<lparr>m_topLeftFront = (f_add G x0 (f_mul G (f_of_int G x) csize),
                           f_add G y0 (f_mul G (f_of_int G y) csize),
                           f_add G z0 (f_mul G (f_of_int G z) csize)),
         m_size = csize\<rparr>)"

text \<open>The grid positions at which the loops of \<open>Cube::split\<close> reach \<open>push_back\<close>, in order;
  each \<open>continue\<close> skips the rest of its loop body.\<close>

definition split_cells :: "(int \<times> int \<times> int) list" where
  "split_cells =
     concat (map (\<lambda>x.
       concat (map (\<lambda>y.
         if x = 1 \<and> y = 1 then []
         else concat (map (\<lambda>z.
                if x = 1 \<and> z = 1 then []
                else if y = 1 \<and> z = 1 then []
                else [(x, y, z)]) [0, 1, 2])) [0, 1, 2])) [0, 1, 2])"

definition Cube_split :: "('f, 'm, 'v) glm \<Rightarrow> 'f Cube \<Rightarrow> 'f Cube list \<Rightarrow> 'f Cube list" where
  "Cube_split G c cubes =
     (let csize = f_div G (m_size c) (f_lit G 3)
      in cubes @ map (Cube_sub G c csize) split_cells)"

text \<open>\<open>Cube::splitProb\<close>: one call of \<open>rand()\<close> for each of the 27 grid positions.\<close>

definition Cube_splitProb ::
  "('f, 'm, 'v) glm \<Rightarrow> 'f Cube \<Rightarrow> 'f \<Rightarrow> rand_state \<times> 'f Cube list \<Rightarrow> rand_state \<times> 'f Cube list" where
  "Cube_splitProb G c prob =
     (let csize = f_div G (m_size c) (f_lit G 3)
      in fold (\<lambda>x. fold (\<lambda>y. fold (\<lambda>z (rng, cubes).
                 case rand rng of (r, rng') \<Rightarrow>
                   let sample = f_div G (f_of_int G r) (f_of_int G (RAND_MAX G))
                   in if f_less G prob sample then (rng', cubes)
                      else (rng', cubes @ [Cube_sub G c csize (x, y, z)]))
               [0, 1, 2]) [0, 1, 2]) [0, 1, 2])"

text \<open>
  One iteration of the level loop.  The state is the random source and the vectors behind
  the pointers \<open>previous\<close> and \<open>next\<close>; the iteration fills \<open>*next\<close>, swaps the pointers and
  clears the vector now called \<open>next\<close>.
\<close>

definition Sponge_level ::
  "('f, 'm, 'v) glm \<Rightarrow> 'f \<Rightarrow> rand_state \<times> 'f Cube list \<times> 'f Cube list
     \<Rightarrow> rand_state \<times> 'f Cube list \<times> 'f Cube list" where
  "Sponge_level G probability st =
     (case st of (rng, previous, nxt) \<Rightarrow>
        case fold (\<lambda>c (rng, nxt).
                     if f_less G probability (f_lit G 0) then (rng, Cube_split G c nxt)
                     else Cube_splitProb G c probability (rng, nxt))
                  previous (rng, nxt)
        of (rng', nxt') \<Rightarrow> (rng', nxt', []))"

text \<open>The working set after \<open>level\<close> iterations, from the initial cube.\<close>

definition Sponge_cubes ::
  "('f, 'm, 'v) glm \<Rightarrow> int \<Rightarrow> 'f \<Rightarrow> rand_state \<Rightarrow> rand_state \<times> 'f Cube list \<times> 'f Cube list" where
  "Sponge_cubes G level probability rng =
     (let cube = \<lparr>m_topLeftFront = (f_lit G (-1/4), f_lit G (-1/4), f_lit G (-1/4)),
                  m_size = f_lit G (1/2)\<rparr>
      in fold (\<lambda>i. Sponge_level G probability) [0..level - 1] (rng, [cube], []))"

text \<open>The box instanced for one cube of the final working set.\<close>

definition Sponge_box :: "('f, 'm, 'v) glm \<Rightarrow> 'f Cube \<Rightarrow> 'v Mesh \<Rightarrow> 'v Mesh" where
  "Sponge_box G c geo =
     (let matrixMove = translate G (mat_ident G) (m_topLeftFront c);
          matrixScale = scale G (mat_ident G) (m_size c, m_size c, m_size c)
      in Box_add G geo (mat_mul G matrixMove matrixScale) 1 1 1)"

text \<open>\<open>RandomMengerSponge::add(geo, mat, w, h, d, level, probability)\<close>; the source reads
  neither \<open>mat\<close> nor \<open>w\<close>, \<open>h\<close>, \<open>d\<close>.  The result is the mesh and the random source after
  the call.\<close>

definition RandomMengerSponge_add ::
  "('f, 'm, 'v) glm \<Rightarrow> 'v Mesh \<Rightarrow> rand_state \<Rightarrow> 'm \<Rightarrow> int \<Rightarrow> int \<Rightarrow> int \<Rightarrow> int \<Rightarrow> 'f
     \<Rightarrow> 'v Mesh \<times> rand_state" where
  "RandomMengerSponge_add G geo rng mat w h d level probability =
     (case Sponge_cubes G level probability rng of
        (rng', previous, nxt) \<Rightarrow> (fold (Sponge_box G) previous geo, rng'))"

subsection \<open>Mesh::append\<close>

text \<open>
  \<open>a.append(b)\<close> takes its argument by reference while it grows the receiver, and every
  loop reads \<open>geo.size()\<close> again in each iteration.  Whether \<open>b\<close> is the receiver itself
  matters, so the meshes live in a store of objects and \<open>append\<close> takes two addresses.
  A call that does not return has the value \<open>None\<close>: its loop goes on for as long as
  \<open>push_back\<close> succeeds, and an execution leaves it only when the allocation fails and
  \<open>std::bad_alloc\<close> or \<open>std::length_error\<close> is thrown.
\<close>

type_synonym addr = nat
type_synonym 'v store = "addr \<Rightarrow> 'v Mesh"

definition add_uvec3 :: "uvec3 \<Rightarrow> u32 \<Rightarrow> uvec3" where
  "add_uvec3 t offset = (case t of (x, y, z) \<Rightarrow> (x + offset, y + offset, z + offset))"

definition add_uvec2 :: "uvec2 \<Rightarrow> u32 \<Rightarrow> uvec2" where
  "add_uvec2 l offset = (case l of (x, y) \<Rightarrow> (x + offset, y + offset))"

partial_function (option) append_vertices :: "addr \<Rightarrow> addr \<Rightarrow> nat \<Rightarrow> 'v store \<Rightarrow> 'v store option" where
  "append_vertices this geo i s =
     (if i < length (m_vertices (s geo))
      then append_vertices this geo (i + 1)
             (s(this := (s this)\<lparr>m_vertices := m_vertices (s this) @ [m_vertices (s geo) ! i]\<rparr>))
      else Some s)"

partial_function (option) append_triangles :: "addr \<Rightarrow> addr \<Rightarrow> u32 \<Rightarrow> nat \<Rightarrow> 'v store \<Rightarrow> 'v store option" where
  "append_triangles this geo offset i s =
     (if i < length (m_indicesTriangles (s geo))
      then append_triangles this geo offset (i + 1)
             (s(this := (s this)\<lparr>m_indicesTriangles := m_indicesTriangles (s this)
                  @ [add_uvec3 (m_indicesTriangles (s geo) ! i) offset]\<rparr>))
      else Some s)"

partial_function (option) append_outline :: "addr \<Rightarrow> addr \<Rightarrow> u32 \<Rightarrow> nat \<Rightarrow> 'v store \<Rightarrow> 'v store option" where
  "append_outline this geo offset i s =
     (if i < length (m_indicesOutline (s geo))
      then append_outline this geo offset (i + 1)
             (s(this := (s this)\<lparr>m_indicesOutline := m_indicesOutline (s this)
                  @ [add_uvec2 (m_indicesOutline (s geo) ! i) offset]\<rparr>))
      else Some s)"

definition append :: "addr \<Rightarrow> addr \<Rightarrow> 'v store \<Rightarrow> 'v store option" where
  "append this geo s =
     (let offset = size_u32 (m_vertices (s this))
      in case append_vertices this geo 0 s of
           None \<Rightarrow> None
         | Some s1 \<Rightarrow>
             (case append_triangles this geo offset 0 s1 of
                None \<Rightarrow> None
              | Some s2 \<Rightarrow> append_outline this geo offset 0 s2))"

subsection \<open>The invariant of the mesh\<close>

text \<open>
  Every index of a mesh names one of its vertices.  \<open>tri_within lo hi\<close> and
  \<open>line_within lo hi\<close> say that each component, read as an unsigned number, lies in
  \<open>[lo, hi)\<close>.
\<close>

definition tri_within :: "nat \<Rightarrow> nat \<Rightarrow> uvec3 \<Rightarrow> bool" where
  "tri_within lo hi t =
     (case t of (a, b, c) \<Rightarrow> lo \<le> unat a \<and> unat a < hi \<and> lo \<le> unat b \<and> unat b < hi
                            \<and> lo \<le> unat c \<and> unat c < hi)"

definition line_within :: "nat \<Rightarrow> nat \<Rightarrow> uvec2 \<Rightarrow> bool" where
  "line_within lo hi l =
     (case l of (a, b) \<Rightarrow> lo \<le> unat a \<and> unat a < hi \<and> lo \<le> unat b \<and> unat b < hi)"

definition indices_in_range :: "'v Mesh \<Rightarrow> bool" where
  "indices_in_range m =
     (list_all (tri_within 0 (length (m_vertices m))) (m_indicesTriangles m)
      \<and> list_all (line_within 0 (length (m_vertices m))) (m_indicesOutline m))"

text \<open>
  A call that turns \<open>geo\<close> into \<open>geo'\<close> appends only, and every index it appends names
  a vertex that the same call appended: it lies in \<open>[n, n + k)\<close> for the \<open>n\<close> vertices of
  \<open>geo\<close> and the \<open>k\<close> vertices appended.
\<close>

definition appends_own_indices :: "'v Mesh \<Rightarrow> 'v Mesh \<Rightarrow> bool" where
  "appends_own_indices geo geo' =
     (take (length (m_vertices geo)) (m_vertices geo') = m_vertices geo
      \<and> take (length (m_indicesTriangles geo)) (m_indicesTriangles geo') = m_indicesTriangles geo
      \<and> take (length (m_indicesOutline geo)) (m_indicesOutline geo') = m_indicesOutline geo
      \<and> list_all (tri_within (length (m_vertices geo)) (length (m_vertices geo')))
           (drop (length (m_indicesTriangles geo)) (m_indicesTriangles geo'))
      \<and> list_all (line_within (length (m_vertices geo)) (length (m_vertices geo')))
           (drop (length (m_indicesOutline geo)) (m_indicesOutline geo')))"

subsection \<open>An instance of the numeric operations\<close>

text \<open>
  Exact real arithmetic with column-major \<open>4 \<times> 4\<close> matrices, following the formulas of glm.
  It serves as the concrete choice of the operations where a theorem is applied to
  concrete inputs.
\<close>

type_synonym rmat = "real vec4 \<times> real vec4 \<times> real vec4 \<times> real vec4"

definition vadd :: "real vec4 \<Rightarrow> real vec4 \<Rightarrow> real vec4" where
  "vadd a b = (case a of (a0, a1, a2, a3) \<Rightarrow> case b of (b0, b1, b2, b3) \<Rightarrow>
                 (a0 + b0, a1 + b1, a2 + b2, a3 + b3))"

definition smul :: "real vec4 \<Rightarrow> real \<Rightarrow> real vec4" where
  "smul a k = (case a of (a0, a1, a2, a3) \<Rightarrow> (a0 * k, a1 * k, a2 * k, a3 * k))"

definition rmat_vec :: "rmat \<Rightarrow> real vec4 \<Rightarrow> real vec4" where
  "rmat_vec m v = (case m of (c0, c1, c2, c3) \<Rightarrow> case v of (x, y, z, w) \<Rightarrow>
                     vadd (vadd (smul c0 x) (smul c1 y)) (vadd (smul c2 z) (smul c3 w)))"

definition rmat_mul :: "rmat \<Rightarrow> rmat \<Rightarrow> rmat" where
  "rmat_mul a b = (case b of (b0, b1, b2, b3) \<Rightarrow>
                     (rmat_vec a b0, rmat_vec a b1, rmat_vec a b2, rmat_vec a b3))"

definition rmat_ident :: rmat where
  "rmat_ident = ((1, 0, 0, 0), (0, 1, 0, 0), (0, 0, 1, 0), (0, 0, 0, 1))"

definition rmat_translate :: "rmat \<Rightarrow> real vec3 \<Rightarrow> rmat" where
  "rmat_translate m v = (case m of (c0, c1, c2, c3) \<Rightarrow> case v of (x, y, z) \<Rightarrow>
                           (c0, c1, c2, vadd (vadd (smul c0 x) (smul c1 y)) (vadd (smul c2 z) c3)))"

definition rmat_scale :: "rmat \<Rightarrow> real vec3 \<Rightarrow> rmat" where
  "rmat_scale m v = (case m of (c0, c1, c2, c3) \<Rightarrow> case v of (x, y, z) \<Rightarrow>
                       (smul c0 x, smul c1 y, smul c2 z, c3))"

definition rmat_rotate :: "rmat \<Rightarrow> real \<Rightarrow> real vec3 \<Rightarrow> rmat" where
  "rmat_rotate m a v =
     (case v of (vx, vy, vz) \<Rightarrow>
        let c = cos a; s = sin a;
            n = sqrt (vx * vx + vy * vy + vz * vz);
            x = vx / n; y = vy / n; z = vz / n;
            tx = (1 - c) * x; ty = (1 - c) * y; tz = (1 - c) * z
        in rmat_mul m ((c + tx * x, tx * y + s * z, tx * z - s * y, 0),
                       (ty * x - s * z, c + ty * y, ty * z + s * x, 0),
                       (tz * x + s * y, tz * y - s * x, c + tz * z, 0),
                       (0, 0, 0, 1)))"

definition real_glm :: "(real, rmat, real Vertex) glm" where
  "real_glm =
     \<lparr>f_lit = of_rat, f_pi = pi, f_of_int = of_int,
      f_add = (+), f_sub = (-), f_mul = (*), f_div = (/), f_neg = uminus, f_less = (<),
      f_sin = sin, f_cos = cos,
      mat_ident = rmat_ident, mat_mul = rmat_mul, mat_vec = rmat_vec,
      rotate = rmat_rotate, translate = rmat_translate, scale = rmat_scale,
      RAND_MAX = 32767, to_TVertex = (\<lambda>v. v)\<rparr>"

subsection \<open>An instance that records division by zero\<close>

text \<open>
  In C++ a float division by zero does not trap: it gives an infinity or a NaN, which then
  spreads through the arithmetic into the vertices.  In this instance a float is \<open>Some r\<close>
  or \<open>None\<close>, and \<open>None\<close> marks a value that a division by zero has gone into:
  \<open>f_div\<close> gives \<open>None\<close> when the divisor is zero, every operation gives \<open>None\<close> when an
  argument is \<open>None\<close>, and a comparison with \<open>None\<close> is false, as a comparison with a NaN is.
  A matrix is \<open>Some M\<close> or \<open>None\<close> in the same way; \<open>glm::rotate\<close> divides by the length of
  its axis.
\<close>

type_synonym cfloat = "real option"

definition lift1 :: "(real \<Rightarrow> real) \<Rightarrow> cfloat \<Rightarrow> cfloat" where
  "lift1 f a = (case a of None \<Rightarrow> None | Some x \<Rightarrow> Some (f x))"

definition lift2 :: "(real \<Rightarrow> real \<Rightarrow> real) \<Rightarrow> cfloat \<Rightarrow> cfloat \<Rightarrow> cfloat" where
  "lift2 f a b = (case a of None \<Rightarrow> None
                  | Some x \<Rightarrow> (case b of None \<Rightarrow> None | Some y \<Rightarrow> Some (f x y)))"

definition checked_div :: "cfloat \<Rightarrow> cfloat \<Rightarrow> cfloat" where
  "checked_div a b = (case a of None \<Rightarrow> None
                      | Some x \<Rightarrow> (case b of None \<Rightarrow> None
                                   | Some y \<Rightarrow> if y = 0 then None else Some (x / y)))"

definition checked_less :: "cfloat \<Rightarrow> cfloat \<Rightarrow> bool" where
  "checked_less a b = (case a of None \<Rightarrow> False
                       | Some x \<Rightarrow> (case b of None \<Rightarrow> False | Some y \<Rightarrow> x < y))"

definition vec3_value :: "cfloat vec3 \<Rightarrow> real vec3 option" where
  "vec3_value v = (case v of (Some x, Some y, Some z) \<Rightarrow> Some (x, y, z) | _ \<Rightarrow> None)"

definition vec4_value :: "cfloat vec4 \<Rightarrow> real vec4 option" where
  "vec4_value v = (case v of (Some x, Some y, Some z, Some w) \<Rightarrow> Some (x, y, z, w) | _ \<Rightarrow> None)"

definition vec4_checked :: "real vec4 option \<Rightarrow> cfloat vec4" where
  "vec4_checked v = (case v of None \<Rightarrow> (None, None, None, None)
                     | Some (x, y, z, w) \<Rightarrow> (Some x, Some y, Some z, Some w))"

definition checked_mat_vec :: "rmat option \<Rightarrow> cfloat vec4 \<Rightarrow> cfloat vec4" where
  "checked_mat_vec m v =
     vec4_checked (case m of None \<Rightarrow> None
                   | Some M \<Rightarrow> (case vec4_value v of None \<Rightarrow> None
                                | Some r \<Rightarrow> Some (rmat_vec M r)))"

definition checked_mat_mul :: "rmat option \<Rightarrow> rmat option \<Rightarrow> rmat option" where
  "checked_mat_mul a b = (case a of None \<Rightarrow> None
                          | Some A \<Rightarrow> (case b of None \<Rightarrow> None | Some B \<Rightarrow> Some (rmat_mul A B)))"

definition checked_rotate :: "rmat option \<Rightarrow> cfloat \<Rightarrow> cfloat vec3 \<Rightarrow> rmat option" where
  "checked_rotate m a v =
     (case m of None \<Rightarrow> None
      | Some M \<Rightarrow> (case a of None \<Rightarrow> None
         | Some angle \<Rightarrow> (case vec3_value v of None \<Rightarrow> None
            | Some (x, y, z) \<Rightarrow> if x * x + y * y + z * z = 0 then None
                               else Some (rmat_rotate M angle (x, y, z)))))"

definition checked_translate :: "rmat option \<Rightarrow> cfloat vec3 \<Rightarrow> rmat option" where
  "checked_translate m v =
     (case m of None \<Rightarrow> None
      | Some M \<Rightarrow> (case vec3_value v of None \<Rightarrow> None | Some r \<Rightarrow> Some (rmat_translate M r)))"

definition checked_scale :: "rmat option \<Rightarrow> cfloat vec3 \<Rightarrow> rmat option" where
  "checked_scale m v =
     (case m of None \<Rightarrow> None
      | Some M \<Rightarrow> (case vec3_value v of None \<Rightarrow> None | Some r \<Rightarrow> Some (rmat_scale M r)))"

definition checked_glm :: "(cfloat, rmat option, cfloat Vertex) glm" where
  "checked_glm =
     \<lparr>f_lit = (\<lambda>q. Some (of_rat q)), f_pi = Some pi, f_of_int = (\<lambda>i. Some (of_int i)),
      f_add = lift2 (+), f_sub = lift2 (-), f_mul = lift2 (*), f_div = checked_div,
      f_neg = lift1 uminus, f_less = checked_less,
      f_sin = lift1 sin, f_cos = lift1 cos,
      mat_ident = Some rmat_ident, mat_mul = checked_mat_mul, mat_vec = checked_mat_vec,
      rotate = checked_rotate, translate = checked_translate, scale = checked_scale,
      RAND_MAX = 32767, to_TVertex = (\<lambda>v. v)\<rparr>"

text \<open>No component of the vertex has a division by zero behind it.\<close>

definition no_division_by_zero :: "cfloat Vertex \<Rightarrow> bool" where
  "no_division_by_zero v =
     (vec4_value (position v) \<noteq> None \<and> vec4_value (normal v) \<noteq> None
      \<and> vec4_value (texcoord v) \<noteq> None)"

text \<open>The same for the corner and the size of a cube of the sponge.\<close>

definition cube_defined :: "cfloat Cube \<Rightarrow> bool" where
  "cube_defined c = (vec3_value (m_topLeftFront c) \<noteq> None \<and> m_size c \<noteq> None)"

section \<open>Properties\<close>

subsection \<open>flipWinding\<close>

lemma fold_update_prefix:
  "n \<le> length xs \<Longrightarrow>
   fold (\<lambda>i ts. ts[i := f (ts ! i)]) [0..<n] xs = map f (take n xs) @ drop n xs"
proof (induction n)
  case 0
  then show ?case by simp
next
  case (Suc n)
  then have n: "n < length xs" by simp
  have "fold (\<lambda>i ts. ts[i := f (ts ! i)]) [0..<Suc n] xs
        = (map f (take n xs) @ drop n xs)[n := f ((map f (take n xs) @ drop n xs) ! n)]"
    using Suc by simp
  also have "(map f (take n xs) @ drop n xs) ! n = xs ! n"
    using n by (simp add: nth_append)
  also have "(map f (take n xs) @ drop n xs)[n := f (xs ! n)]
        = map f (take n xs) @ (drop n xs)[0 := f (xs ! n)]"
    using n by (simp add: list_update_append)
  also have "(drop n xs)[0 := f (xs ! n)] = f (xs ! n) # drop (Suc n) xs"
    using n by (simp add: Cons_nth_drop_Suc [symmetric])
  also have "map f (take n xs) @ f (xs ! n) # drop (Suc n) xs
        = map f (take (Suc n) xs) @ drop (Suc n) xs"
    using n by (simp add: take_Suc_conv_app_nth)
  finally show ?case .
qed

lemma flipWinding_triangles:
  "m_indicesTriangles (flipWinding m) = map swap_xz (m_indicesTriangles m)"
  by (simp add: flipWinding_def fold_update_prefix)

lemma swap_xz_swap_xz: "swap_xz (swap_xz t) = t"
  by (cases t) (simp add: swap_xz_def)

text \<open>
  C7.  Applying \<open>flipWinding\<close> twice gives back the original mesh, in particular the original
  triangle index sequence; one application swaps the first and third index of every
  triangle and leaves the vertices (and the outline indices) as they are.
\<close>

theorem flipWinding_involution:
  "flipWinding (flipWinding m) = m
   \<and> m_indicesTriangles (flipWinding (flipWinding m)) = m_indicesTriangles m
   \<and> m_indicesTriangles (flipWinding m) = map (\<lambda>(x, y, z). (z, y, x)) (m_indicesTriangles m)
   \<and> m_vertices (flipWinding m) = m_vertices m
   \<and> m_indicesOutline (flipWinding m) = m_indicesOutline m"
proof -
  have sw: "swap_xz = (\<lambda>(x, y, z). (z, y, x))"
    by (rule ext) (simp add: swap_xz_def)
  have t2: "m_indicesTriangles (flipWinding (flipWinding m)) = m_indicesTriangles m"
    by (simp add: flipWinding_triangles swap_xz_swap_xz comp_def)
  have v: "m_vertices (flipWinding m) = m_vertices m"
    and outl: "m_indicesOutline (flipWinding m) = m_indicesOutline m" for m :: "'a Mesh"
    by (simp_all add: flipWinding_def)
  have "flipWinding (flipWinding m) = m"
    by (rule Mesh.equality) (simp_all add: t2 v outl)
  then show ?thesis
    using t2 v outl flipWinding_triangles [of m] sw by simp
qed

subsection \<open>Counting what the loops push\<close>

lemma length_concat_const:
  "(\<And>x. x \<in> set xs \<Longrightarrow> length (f x) = c) \<Longrightarrow> length (concat (map f xs)) = length xs * c"
  by (induction xs) simp_all

lemma upto_snoc_nat: "[0..int (Suc n) - 1] = [0..int n - 1] @ [int n]"
  using upto_rec2 [of 0 "int n"] by simp

subsection \<open>Plane::add\<close>

lemma Plane_add_vertices_length:
  "length (m_vertices (Plane_add G geo mat w h))
   = length (m_vertices geo) + nat (h + 1) * nat (w + 1)"
  by (simp add: Plane_add_def Let_def length_concat_const)

lemma Plane_add_triangles_length:
  "length (m_indicesTriangles (Plane_add G geo mat w h))
   = length (m_indicesTriangles geo) + 2 * (nat h * nat w)"
  by (simp add: Plane_add_def Let_def Plane_cell_def
      length_concat_const [where c = "2 * nat w"] length_concat_const [where c = 2])

lemma Plane_add_outline_length:
  "length (m_indicesOutline (Plane_add G geo mat w h))
   = length (m_indicesOutline geo) + 2 * nat h + 2 * nat w"
  by (simp add: Plane_add_def Let_def Plane_outline_def)

lemma Plane_add_prefix:
  "take (length (m_vertices geo)) (m_vertices (Plane_add G geo mat w h)) = m_vertices geo"
  "take (length (m_indicesTriangles geo)) (m_indicesTriangles (Plane_add G geo mat w h))
   = m_indicesTriangles geo"
  "take (length (m_indicesOutline geo)) (m_indicesOutline (Plane_add G geo mat w h))
   = m_indicesOutline geo"
  by (simp_all add: Plane_add_def Let_def)

text \<open>
  C6.  For segment counts \<open>w \<ge> 1\<close> and \<open>h \<ge> 1\<close> and any transform, \<open>Plane::add\<close> leaves
  what the mesh holds in place and appends exactly \<open>(w + 1) * (h + 1)\<close> vertices and exactly
  \<open>2 * w * h\<close> triangles, two for each grid cell.
\<close>

theorem Plane_add_counts:
  assumes "1 \<le> w" and "1 \<le> h"
  shows "length (m_vertices (Plane_add G geo mat w h))
           = length (m_vertices geo) + nat ((w + 1) * (h + 1))
       \<and> length (m_indicesTriangles (Plane_add G geo mat w h))
           = length (m_indicesTriangles geo) + nat (2 * w * h)
       \<and> take (length (m_vertices geo)) (m_vertices (Plane_add G geo mat w h)) = m_vertices geo
       \<and> take (length (m_indicesTriangles geo)) (m_indicesTriangles (Plane_add G geo mat w h))
           = m_indicesTriangles geo
       \<and> drop (length (m_indicesTriangles geo)) (m_indicesTriangles (Plane_add G geo mat w h))
           = concat (map (\<lambda>y. concat (map (\<lambda>x. Plane_cell (w + 1) (size_u32 (m_vertices geo)) x y)
                                            [0..w - 1])) [0..h - 1])"
proof -
  have "nat (h + 1) * nat (w + 1) = nat ((w + 1) * (h + 1))"
    using assms by (simp add: nat_mult_distrib mult.commute)
  moreover have "2 * (nat h * nat w) = nat (2 * w * h)"
    using assms by (simp add: nat_mult_distrib mult.commute)
  moreover have "drop (length (m_indicesTriangles geo)) (m_indicesTriangles (Plane_add G geo mat w h))
           = concat (map (\<lambda>y. concat (map (\<lambda>x. Plane_cell (w + 1) (size_u32 (m_vertices geo)) x y)
                                            [0..w - 1])) [0..h - 1])"
    by (simp add: Plane_add_def Let_def)
  ultimately show ?thesis
    by (simp add: Plane_add_vertices_length Plane_add_triangles_length Plane_add_prefix)
qed

theorem Plane_add_counts_witness:
  "(1::int) \<le> 2 \<and> (1::int) \<le> 3
   \<and> length (m_vertices (Plane_add real_glm empty_Mesh (mat_ident real_glm) 2 3)) = 12
   \<and> length (m_indicesTriangles (Plane_add real_glm empty_Mesh (mat_ident real_glm) 2 3)) = 12"
proof -
  have w: "(1::int) \<le> 2" and h: "(1::int) \<le> 3"
    by simp_all
  note counts = Plane_add_counts [OF w h, of real_glm empty_Mesh "mat_ident real_glm"]
  from counts [THEN conjunct1] counts [THEN conjunct2, THEN conjunct1] w h
  show ?thesis by (simp add: empty_Mesh_def)
qed

subsection \<open>Sphere::add\<close>

lemma fold_upto_counter:
  "fold (\<lambda>x (vertex, acc). (vertex + 1, acc @ g x vertex)) [0..int n - 1] (v, acc)
   = (v + int n, acc @ concat (map (\<lambda>x. g x (v + x)) [0..int n - 1]))"
proof (induction n)
  case 0
  then show ?case by simp
next
  case (Suc n)
  show ?case
    unfolding upto_snoc_nat by (simp add: Suc)
qed

lemma Sphere_row_eq:
  assumes "0 \<le> xydim"
  shows "Sphere_row xydim zdim width vertOffset z (v, tris)
         = (v + xydim, tris @ concat (map (\<lambda>xy. Sphere_quad zdim width vertOffset z (v + xy))
                                        [0..xydim - 1]))"
proof -
  obtain n where n: "xydim = int n"
    using assms nonneg_int_cases by blast
  show ?thesis
    unfolding Sphere_row_def n
    by (rule fold_upto_counter [where g = "\<lambda>xy vertex. Sphere_quad zdim width vertOffset z vertex"])
qed

lemma Sphere_rows_eq:
  assumes "0 \<le> xydim"
  shows "fold (\<lambda>z st. case Sphere_row xydim zdim width vertOffset z st of
                          (vertex, tris') \<Rightarrow> (vertex + 1, tris'))
               [0..int m - 1] (0, tris)
         = (int m * (xydim + 1),
            tris @ concat (map (\<lambda>z. concat (map (\<lambda>xy. Sphere_quad zdim width vertOffset z
                                                       (z * (xydim + 1) + xy)) [0..xydim - 1]))
                               [0..int m - 1]))"
proof (induction m)
  case 0
  then show ?case by simp
next
  case (Suc m)
  show ?case
    unfolding upto_snoc_nat
    by (simp add: Suc Sphere_row_eq [OF assms] algebra_simps)
qed

text \<open>The running counter \<open>vertex\<close> is \<open>z * width + xy\<close> when the quad \<open>(xy, z)\<close> is reached.\<close>

lemma Sphere_triangles_eq:
  assumes "0 \<le> xydim" and "0 \<le> zdim"
  shows "Sphere_triangles xydim zdim width vertOffset tris
         = tris @ concat (map (\<lambda>z. concat (map (\<lambda>xy. Sphere_quad zdim width vertOffset z
                                                       (z * (xydim + 1) + xy)) [0..xydim - 1]))
                               [0..zdim - 1])"
proof -
  obtain m where m: "zdim = int m"
    using assms(2) nonneg_int_cases by blast
  show ?thesis
    unfolding Sphere_triangles_def m by (simp add: Sphere_rows_eq [OF assms(1)])
qed








subsection \<open>Box::add\<close>

lemma Box_add_unfold:
  "Box_add G geo mat w h d
   = Box_side G mat w h d 5 (Box_side G mat w h d 4 (Box_side G mat w h d 3
       (Box_side G mat w h d 2 (Box_side G mat w h d 1 (Box_side G mat w h d 0 geo)))))"
  by (simp add: Box_add_def)

lemma Box_side_111:
  "side \<in> {0, 1, 2, 3, 4, 5} \<Longrightarrow>
   Box_side G mat 1 1 1 side geo
   = Plane_add G geo (mat_mul G (mat_mul G mat (Box_matrixRot G side))
                        (translate G (mat_ident G) (f_lit G 0, f_lit G 0, f_lit G 1))) 1 1"
  by (auto simp: Box_side_def Box_configs_def Let_def)

lemma Box_add_111_vertices_length:
  "length (m_vertices (Box_add G geo mat 1 1 1)) = length (m_vertices geo) + 24"
  by (simp add: Box_add_unfold Box_side_111 Plane_add_vertices_length)

lemma Box_add_111_triangles_length:
  "length (m_indicesTriangles (Box_add G geo mat 1 1 1)) = length (m_indicesTriangles geo) + 12"
  by (simp add: Box_add_unfold Box_side_111 Plane_add_triangles_length)

subsection \<open>RandomMengerSponge::add\<close>

text \<open>
  With \<open>level = 0\<close>, for every target mesh, transform and probability,
  \<open>RandomMengerSponge::add\<close> is one call of \<open>Box::add\<close> with segment counts 1, 1, 1 and the
  matrix \<open>translate(topLeftFront) * scale(size)\<close> of the initial cube: six calls of
  \<open>Plane::add\<close> with one segment each way, 24 vertices and 12 triangles in all, and
  \<open>rand()\<close> is not called.
\<close>

lemma Sponge_level_0_is_one_Box:
  "RandomMengerSponge_add G geo rng mat w h d 0 probability
     = (Box_add G geo
          (mat_mul G (translate G (mat_ident G) (f_lit G (-1/4), f_lit G (-1/4), f_lit G (-1/4)))
                     (scale G (mat_ident G) (f_lit G (1/2), f_lit G (1/2), f_lit G (1/2))))
          1 1 1,
        rng)
   \<and> Box_add G geo M 1 1 1
     = fold (\<lambda>side g. Plane_add G g
                (mat_mul G (mat_mul G M (Box_matrixRot G side))
                   (translate G (mat_ident G) (f_lit G 0, f_lit G 0, f_lit G 1))) 1 1)
            [0, 1, 2, 3, 4, 5] geo
   \<and> length (m_vertices (fst (RandomMengerSponge_add G geo rng mat w h d 0 probability)))
     = length (m_vertices geo) + 24
   \<and> length (m_indicesTriangles (fst (RandomMengerSponge_add G geo rng mat w h d 0 probability)))
     = length (m_indicesTriangles geo) + 12
   \<and> rand_calls (snd (RandomMengerSponge_add G geo rng mat w h d 0 probability)) = rand_calls rng"
proof -
  have one: "RandomMengerSponge_add G geo rng mat w h d 0 probability
     = (Box_add G geo
          (mat_mul G (translate G (mat_ident G) (f_lit G (-1/4), f_lit G (-1/4), f_lit G (-1/4)))
                     (scale G (mat_ident G) (f_lit G (1/2), f_lit G (1/2), f_lit G (1/2))))
          1 1 1,
        rng)"
    by (simp add: RandomMengerSponge_add_def Sponge_cubes_def Sponge_box_def Let_def)
  have six: "Box_add G geo M 1 1 1
     = fold (\<lambda>side g. Plane_add G g
                (mat_mul G (mat_mul G M (Box_matrixRot G side))
                   (translate G (mat_ident G) (f_lit G 0, f_lit G 0, f_lit G 1))) 1 1)
            [0, 1, 2, 3, 4, 5] geo"
    by (simp add: Box_add_unfold Box_side_111)
  show ?thesis
    unfolding one using six
    by (simp add: Box_add_111_vertices_length Box_add_111_triangles_length)
qed

text \<open>
  The box of the initial cube in exact real arithmetic.  The six rotations of \<open>Box::add\<close>,
  the matrix \<open>translate(-1/4, -1/4, -1/4) * scale(1/2)\<close> and its product with the matrix of
  each face are evaluated first; a one-cell plane pushes the images of the corners
  \<open>(\<plusminus>1, \<plusminus>1, 0)\<close> of its local square.
\<close>

lemma sin_cos_3_pi_half: "sin (pi * 3 / 2) = - 1" "cos (pi * 3 / 2) = 0"
proof -
  have "pi * 3 / 2 = 3 / 2 * pi" by simp
  then show "sin (pi * 3 / 2) = - 1" "cos (pi * 3 / 2) = 0"
    by (simp_all only: sin_3over2_pi cos_3over2_pi)
qed

lemma Box_matrixRot_real:
  "Box_matrixRot real_glm 0 = ((1, 0, 0, 0), (0, 1, 0, 0), (0, 0, 1, 0), (0, 0, 0, 1))"
  "Box_matrixRot real_glm 1 = ((- 1, 0, 0, 0), (0, 1, 0, 0), (0, 0, - 1, 0), (0, 0, 0, 1))"
  "Box_matrixRot real_glm 2 = ((0, 0, - 1, 0), (0, 1, 0, 0), (1, 0, 0, 0), (0, 0, 0, 1))"
  "Box_matrixRot real_glm 3 = ((0, 0, 1, 0), (0, 1, 0, 0), (- 1, 0, 0, 0), (0, 0, 0, 1))"
  "Box_matrixRot real_glm 4 = ((1, 0, 0, 0), (0, 0, 1, 0), (0, - 1, 0, 0), (0, 0, 0, 1))"
  "Box_matrixRot real_glm 5 = ((1, 0, 0, 0), (0, 0, - 1, 0), (0, 1, 0, 0), (0, 0, 0, 1))"
  by (simp_all add: Box_matrixRot_def real_glm_def rmat_ident_def rmat_rotate_def rmat_mul_def
      rmat_vec_def vadd_def smul_def Let_def of_rat_divide sin_cos_3_pi_half)

lemma sponge_matrix:
  "mat_mul real_glm
     (translate real_glm (mat_ident real_glm)
        (f_lit real_glm (- 1 / 4), f_lit real_glm (- 1 / 4), f_lit real_glm (- 1 / 4)))
     (scale real_glm (mat_ident real_glm)
        (f_lit real_glm (1/2), f_lit real_glm (1/2), f_lit real_glm (1/2)))
   = ((1/2, 0, 0, 0), (0, 1/2, 0, 0), (0, 0, 1/2, 0), (- (1/4), - (1/4), - (1/4), 1))"
  by (simp add: real_glm_def rmat_ident_def rmat_scale_def rmat_translate_def rmat_mul_def
      rmat_vec_def vadd_def smul_def of_rat_divide of_rat_minus)

lemma face_matrix:
  "mat_mul real_glm
     (mat_mul real_glm
       ((1/2, 0, 0, 0), (0, 1/2, 0, 0), (0, 0, 1/2, 0), (- (1/4), - (1/4), - (1/4), 1))
       (Box_matrixRot real_glm 0))
     (translate real_glm (mat_ident real_glm) (f_lit real_glm 0, f_lit real_glm 0, f_lit real_glm 1))
   = ((1/2, 0, 0, 0), (0, 1/2, 0, 0), (0, 0, 1/2, 0), (- (1/4), - (1/4), 1/4, 1))"
  "mat_mul real_glm
     (mat_mul real_glm
       ((1/2, 0, 0, 0), (0, 1/2, 0, 0), (0, 0, 1/2, 0), (- (1/4), - (1/4), - (1/4), 1))
       (Box_matrixRot real_glm 1))
     (translate real_glm (mat_ident real_glm) (f_lit real_glm 0, f_lit real_glm 0, f_lit real_glm 1))
   = ((- (1/2), 0, 0, 0), (0, 1/2, 0, 0), (0, 0, - (1/2), 0), (- (1/4), - (1/4), - (3/4), 1))"
  "mat_mul real_glm
     (mat_mul real_glm
       ((1/2, 0, 0, 0), (0, 1/2, 0, 0), (0, 0, 1/2, 0), (- (1/4), - (1/4), - (1/4), 1))
       (Box_matrixRot real_glm 2))
     (translate real_glm (mat_ident real_glm) (f_lit real_glm 0, f_lit real_glm 0, f_lit real_glm 1))
   = ((0, 0, - (1/2), 0), (0, 1/2, 0, 0), (1/2, 0, 0, 0), (1/4, - (1/4), - (1/4), 1))"
  "mat_mul real_glm
     (mat_mul real_glm
       ((1/2, 0, 0, 0), (0, 1/2, 0, 0), (0, 0, 1/2, 0), (- (1/4), - (1/4), - (1/4), 1))
       (Box_matrixRot real_glm 3))
     (translate real_glm (mat_ident real_glm) (f_lit real_glm 0, f_lit real_glm 0, f_lit real_glm 1))
   = ((0, 0, 1/2, 0), (0, 1/2, 0, 0), (- (1/2), 0, 0, 0), (- (3/4), - (1/4), - (1/4), 1))"
  "mat_mul real_glm
     (mat_mul real_glm
       ((1/2, 0, 0, 0), (0, 1/2, 0, 0), (0, 0, 1/2, 0), (- (1/4), - (1/4), - (1/4), 1))
       (Box_matrixRot real_glm 4))
     (translate real_glm (mat_ident real_glm) (f_lit real_glm 0, f_lit real_glm 0, f_lit real_glm 1))
   = ((1/2, 0, 0, 0), (0, 0, 1/2, 0), (0, - (1/2), 0, 0), (- (1/4), - (3/4), - (1/4), 1))"
  "mat_mul real_glm
     (mat_mul real_glm
       ((1/2, 0, 0, 0), (0, 1/2, 0, 0), (0, 0, 1/2, 0), (- (1/4), - (1/4), - (1/4), 1))
       (Box_matrixRot real_glm 5))
     (translate real_glm (mat_ident real_glm) (f_lit real_glm 0, f_lit real_glm 0, f_lit real_glm 1))
   = ((1/2, 0, 0, 0), (0, 0, - (1/2), 0), (0, 1/2, 0, 0), (- (1/4), 1/4, - (1/4), 1))"
  unfolding Box_matrixRot_real
  by (simp_all add: real_glm_def rmat_ident_def rmat_translate_def rmat_mul_def
      rmat_vec_def vadd_def smul_def)

lemma Plane_add_11_positions:
  "map position (m_vertices (Plane_add real_glm g F 1 1))
   = map position (m_vertices g)
     @ [rmat_vec F (- 1, - 1, 0, 1), rmat_vec F (1, - 1, 0, 1),
        rmat_vec F (- 1, 1, 0, 1), rmat_vec F (1, 1, 0, 1)]"
  by (simp add: Plane_add_def Plane_vertex_def Plane_local_def Vertex_ctor_def Let_def
      real_glm_def upto_rec1 of_rat_divide)

lemma Sponge_level_0_positions:
  "map position (m_vertices (Box_add real_glm empty_Mesh
       ((1/2, 0, 0, 0), (0, 1/2, 0, 0), (0, 0, 1/2, 0), (- (1/4), - (1/4), - (1/4), 1)) 1 1 1))
   = [(- (3/4), - (3/4), 1/4, 1), (1/4, - (3/4), 1/4, 1),
      (- (3/4), 1/4, 1/4, 1), (1/4, 1/4, 1/4, 1),
      (1/4, - (3/4), - (3/4), 1), (- (3/4), - (3/4), - (3/4), 1),
      (1/4, 1/4, - (3/4), 1), (- (3/4), 1/4, - (3/4), 1),
      (1/4, - (3/4), 1/4, 1), (1/4, - (3/4), - (3/4), 1),
      (1/4, 1/4, 1/4, 1), (1/4, 1/4, - (3/4), 1),
      (- (3/4), - (3/4), - (3/4), 1), (- (3/4), - (3/4), 1/4, 1),
      (- (3/4), 1/4, - (3/4), 1), (- (3/4), 1/4, 1/4, 1),
      (- (3/4), - (3/4), - (3/4), 1), (1/4, - (3/4), - (3/4), 1),
      (- (3/4), - (3/4), 1/4, 1), (1/4, - (3/4), 1/4, 1),
      (- (3/4), 1/4, 1/4, 1), (1/4, 1/4, 1/4, 1),
      (- (3/4), 1/4, - (3/4), 1), (1/4, 1/4, - (3/4), 1)]"
  unfolding Box_add_unfold
  by (simp add: Box_side_111 face_matrix Plane_add_11_positions)
     (simp add: empty_Mesh_def rmat_vec_def vadd_def smul_def)

text \<open>
  C8 fails on the code.  With \<open>level = 0\<close> the call does append one box of 1, 1, 1
  segments, 24 vertices and 12 triangles, without calling \<open>rand()\<close> (lemma
  \<open>Sponge_level_0_is_one_Box\<close>), but the box is not at the extent of the initial cube.  The
  cube is \<open>{topLeftFront = (-1/4, -1/4, -1/4), size = 1/2}\<close>, and \<open>Cube::split\<close> places the
  sub-cubes of a cube in \<open>[topLeftFront, topLeftFront + size]\<close> on each axis, here
  \<open>[-1/4, 1/4]\<close>.  The box is the box \<open>[-1, 1]^3\<close> of \<open>Box::add\<close> under
  \<open>translate(topLeftFront) * scale(size)\<close>, which is centred at the corner \<open>topLeftFront\<close>
  and has the edge \<open>2 * size\<close>: called on the empty mesh with the identity matrix and a
  negative probability, the 24 positions pushed are the corners of \<open>[-3/4, 1/4]^3\<close>.
\<close>

theorem Sponge_level_0_box_extent:
  "Sponge_cubes real_glm 0 (- 1) \<lparr>rand_seq = (\<lambda>n. 0), rand_calls = 0\<rparr>
     = (\<lparr>rand_seq = (\<lambda>n. 0), rand_calls = 0\<rparr>,
        [\<lparr>m_topLeftFront = (- (1/4), - (1/4), - (1/4)), m_size = 1/2\<rparr>], [])
   \<and> map position (m_vertices (fst (RandomMengerSponge_add real_glm empty_Mesh
          \<lparr>rand_seq = (\<lambda>n. 0), rand_calls = 0\<rparr> (mat_ident real_glm) 1 1 1 0 (- 1))))
     = [(- (3/4), - (3/4), 1/4, 1), (1/4, - (3/4), 1/4, 1),
        (- (3/4), 1/4, 1/4, 1), (1/4, 1/4, 1/4, 1),
        (1/4, - (3/4), - (3/4), 1), (- (3/4), - (3/4), - (3/4), 1),
        (1/4, 1/4, - (3/4), 1), (- (3/4), 1/4, - (3/4), 1),
        (1/4, - (3/4), 1/4, 1), (1/4, - (3/4), - (3/4), 1),
        (1/4, 1/4, 1/4, 1), (1/4, 1/4, - (3/4), 1),
        (- (3/4), - (3/4), - (3/4), 1), (- (3/4), - (3/4), 1/4, 1),
        (- (3/4), 1/4, - (3/4), 1), (- (3/4), 1/4, 1/4, 1),
        (- (3/4), - (3/4), - (3/4), 1), (1/4, - (3/4), - (3/4), 1),
        (- (3/4), - (3/4), 1/4, 1), (1/4, - (3/4), 1/4, 1),
        (- (3/4), 1/4, 1/4, 1), (1/4, 1/4, 1/4, 1),
        (- (3/4), 1/4, - (3/4), 1), (1/4, 1/4, - (3/4), 1)]
   \<and> length (m_indicesTriangles (fst (RandomMengerSponge_add real_glm empty_Mesh
          \<lparr>rand_seq = (\<lambda>n. 0), rand_calls = 0\<rparr> (mat_ident real_glm) 1 1 1 0 (- 1)))) = 12
   \<and> rand_calls (snd (RandomMengerSponge_add real_glm empty_Mesh
          \<lparr>rand_seq = (\<lambda>n. 0), rand_calls = 0\<rparr> (mat_ident real_glm) 1 1 1 0 (- 1))) = 0"
proof -
  let ?rng = "\<lparr>rand_seq = (\<lambda>n. 0), rand_calls = 0\<rparr>"
  let ?S = "((1/2, 0, 0, 0), (0, 1/2, 0, 0), (0, 0, 1/2, 0), (- (1/4), - (1/4), - (1/4), 1)) :: rmat"
  have cubes: "Sponge_cubes real_glm 0 (- 1) ?rng
     = (?rng, [\<lparr>m_topLeftFront = (- (1/4), - (1/4), - (1/4)), m_size = 1/2\<rparr>], [])"
    by (simp add: Sponge_cubes_def Let_def real_glm_def of_rat_divide of_rat_minus)
  have one: "RandomMengerSponge_add real_glm empty_Mesh ?rng (mat_ident real_glm) 1 1 1 0 (- 1)
     = (Box_add real_glm empty_Mesh ?S 1 1 1, ?rng)"
    using Sponge_level_0_is_one_Box [of real_glm empty_Mesh ?rng "mat_ident real_glm" 1 1 1 "- 1",
        THEN conjunct1]
    by (simp only: sponge_matrix)
  have tris: "length (m_indicesTriangles (Box_add real_glm empty_Mesh ?S 1 1 1)) = 12"
    by (simp add: Box_add_111_triangles_length empty_Mesh_def)
  show ?thesis
    unfolding one using cubes Sponge_level_0_positions tris
    by simp
qed

text \<open>
  C5.  The deterministic rule: of the 27 positions of the \<open>3 \<times> 3 \<times> 3\<close> grid, \<open>Cube::split\<close>
  reaches \<open>push_back\<close> at exactly those at which the number of coordinates equal to 1 is
  neither 2 (the six face centres) nor 3 (the centre), that is at 20 positions.  What it
  pushes there is the sub-cube of that position: its size is a third of the size of the
  cube, and its corner is the corner of the cube moved by the position times that third
  along each axis.  So with a negative probability the working set after one level holds
  exactly the 20 sub-cubes of the initial cube at the kept positions, and \<open>rand()\<close> was not
  called.
\<close>

theorem Cube_split_keeps_20:
  "split_cells
     = filter (\<lambda>(x, y, z). length (filter (\<lambda>c. c = 1) [x, y, z]) \<noteq> 2
                           \<and> length (filter (\<lambda>c. c = 1) [x, y, z]) \<noteq> 3)
         (List.product [0, 1, 2] (List.product [0, 1, 2] [0, 1, 2]))
   \<and> length split_cells = 20
   \<and> length (Cube_split G c cubes) = length cubes + 20
   \<and> Cube_split G c cubes
     = cubes @ map (\<lambda>(x, y, z). case m_topLeftFront c of (x0, y0, z0) \<Rightarrow>
           \<lparr>m_topLeftFront =
              (f_add G x0 (f_mul G (f_of_int G x) (f_div G (m_size c) (f_lit G 3))),
               f_add G y0 (f_mul G (f_of_int G y) (f_div G (m_size c) (f_lit G 3))),
               f_add G z0 (f_mul G (f_of_int G z) (f_div G (m_size c) (f_lit G 3)))),
            m_size = f_div G (m_size c) (f_lit G 3)\<rparr>) split_cells
   \<and> (f_less G probability (f_lit G 0) \<longrightarrow>
        (case Sponge_cubes G 1 probability rng of
           (rng', previous, nxt) \<Rightarrow> length previous = 20 \<and> nxt = [] \<and> rng' = rng))
   \<and> (f_less G probability (f_lit G 0) \<longrightarrow>
        Sponge_cubes G 1 probability rng
        = (rng,
           map (\<lambda>(x, y, z).
                  \<lparr>m_topLeftFront =
                     (f_add G (f_lit G (-1/4))
                        (f_mul G (f_of_int G x) (f_div G (f_lit G (1/2)) (f_lit G 3))),
                      f_add G (f_lit G (-1/4))
                        (f_mul G (f_of_int G y) (f_div G (f_lit G (1/2)) (f_lit G 3))),
                      f_add G (f_lit G (-1/4))
                        (f_mul G (f_of_int G z) (f_div G (f_lit G (1/2)) (f_lit G 3)))),
                   m_size = f_div G (f_lit G (1/2)) (f_lit G 3)\<rparr>) split_cells,
           []))"
proof -
  have cells: "split_cells
     = filter (\<lambda>(x, y, z). length (filter (\<lambda>c. c = 1) [x, y, z]) \<noteq> 2
                           \<and> length (filter (\<lambda>c. c = 1) [x, y, z]) \<noteq> 3)
         (List.product [0, 1, 2] (List.product [0, 1, 2] [0, 1, 2]))"
    by (simp add: split_cells_def)
  have len: "length split_cells = 20"
    by (simp add: split_cells_def)
  have sub: "Cube_sub G c csize
     = (\<lambda>(x, y, z). case m_topLeftFront c of (x0, y0, z0) \<Rightarrow>
           \<lparr>m_topLeftFront = (f_add G x0 (f_mul G (f_of_int G x) csize),
                              f_add G y0 (f_mul G (f_of_int G y) csize),
                              f_add G z0 (f_mul G (f_of_int G z) csize)),
            m_size = csize\<rparr>)" for c :: "'a Cube" and csize
    by (rule ext) (simp add: Cube_sub_def split: prod.splits)
  have split: "Cube_split G c cubes
     = cubes @ map (\<lambda>(x, y, z). case m_topLeftFront c of (x0, y0, z0) \<Rightarrow>
           \<lparr>m_topLeftFront =
              (f_add G x0 (f_mul G (f_of_int G x) (f_div G (m_size c) (f_lit G 3))),
               f_add G y0 (f_mul G (f_of_int G y) (f_div G (m_size c) (f_lit G 3))),
               f_add G z0 (f_mul G (f_of_int G z) (f_div G (m_size c) (f_lit G 3)))),
            m_size = f_div G (m_size c) (f_lit G 3)\<rparr>) split_cells"
    for c :: "'a Cube" and cubes
    by (simp only: Cube_split_def Let_def sub)
  have split_len: "length (Cube_split G c cubes) = length cubes + 20"
    by (simp add: Cube_split_def Let_def len)
  have level1: "Sponge_cubes G 1 probability rng
        = (rng,
           map (\<lambda>(x, y, z).
                  \<lparr>m_topLeftFront =
                     (f_add G (f_lit G (-1/4))
                        (f_mul G (f_of_int G x) (f_div G (f_lit G (1/2)) (f_lit G 3))),
                      f_add G (f_lit G (-1/4))
                        (f_mul G (f_of_int G y) (f_div G (f_lit G (1/2)) (f_lit G 3))),
                      f_add G (f_lit G (-1/4))
                        (f_mul G (f_of_int G z) (f_div G (f_lit G (1/2)) (f_lit G 3)))),
                   m_size = f_div G (f_lit G (1/2)) (f_lit G 3)\<rparr>) split_cells,
           [])"
    if "f_less G probability (f_lit G 0)"
    using that by (simp add: Sponge_cubes_def Sponge_level_def Let_def split)
  have level1_len: "case Sponge_cubes G 1 probability rng of
           (rng', previous, nxt) \<Rightarrow> length previous = 20 \<and> nxt = [] \<and> rng' = rng"
    if "f_less G probability (f_lit G 0)"
    by (simp add: level1 [OF that] len)
  show ?thesis
    using cells len split_len split [of c cubes] level1 level1_len
    by (intro conjI impI)
qed

theorem Cube_split_keeps_20_witness:
  "f_less real_glm (-1) (f_lit real_glm 0)
   \<and> (case Sponge_cubes real_glm 1 (-1) \<lparr>rand_seq = (\<lambda>n. 0), rand_calls = 0\<rparr> of
        (rng', previous, nxt) \<Rightarrow> length previous = 20 \<and> nxt = []
           \<and> rng' = \<lparr>rand_seq = (\<lambda>n. 0), rand_calls = 0\<rparr>)
   \<and> map m_size (fst (snd (Sponge_cubes real_glm 1 (-1) \<lparr>rand_seq = (\<lambda>n. 0), rand_calls = 0\<rparr>)))
     = replicate 20 (1/6)
   \<and> map m_topLeftFront
       (take 3 (fst (snd (Sponge_cubes real_glm 1 (-1) \<lparr>rand_seq = (\<lambda>n. 0), rand_calls = 0\<rparr>))))
     = [(- (1/4), - (1/4), - (1/4)), (- (1/4), - (1/4), - (1/12)), (- (1/4), - (1/4), 1/12)]"
proof -
  have neg: "f_less real_glm (-1) (f_lit real_glm 0)"
    by (simp add: real_glm_def)
  note all = Cube_split_keeps_20 [of real_glm "\<lparr>m_topLeftFront = (0, 0, 0), m_size = 1\<rparr>" "[]"
      "-1" "\<lparr>rand_seq = (\<lambda>n. 0), rand_calls = 0\<rparr>"]
  note len = all [THEN conjunct2, THEN conjunct2, THEN conjunct2, THEN conjunct2,
      THEN conjunct1, THEN mp, OF neg]
  note cubes = all [THEN conjunct2, THEN conjunct2, THEN conjunct2, THEN conjunct2,
      THEN conjunct2, THEN mp, OF neg]
  have sizes: "map m_size (fst (snd (Sponge_cubes real_glm 1 (-1)
                  \<lparr>rand_seq = (\<lambda>n. 0), rand_calls = 0\<rparr>))) = replicate 20 (1/6)"
    unfolding cubes
    by (simp add: split_cells_def real_glm_def of_rat_divide numeral_eq_Suc)
  have corners: "map m_topLeftFront (take 3 (fst (snd (Sponge_cubes real_glm 1 (-1)
                  \<lparr>rand_seq = (\<lambda>n. 0), rand_calls = 0\<rparr>))))
     = [(- (1/4), - (1/4), - (1/4)), (- (1/4), - (1/4), - (1/12)), (- (1/4), - (1/4), 1/12)]"
    unfolding cubes
    by (simp add: split_cells_def real_glm_def of_rat_divide of_rat_minus)
  from neg len sizes corners show ?thesis
    by (intro conjI)
qed

subsection \<open>Mesh::append\<close>

text \<open>When the argument is another object than the receiver, each loop copies the rest of
  the argument's vector.\<close>

lemma append_vertices_distinct:
  assumes "this \<noteq> geo" and "i \<le> length (m_vertices (s geo))"
  shows "append_vertices this geo i s
         = Some (s(this := (s this)\<lparr>m_vertices :=
                    m_vertices (s this) @ drop i (m_vertices (s geo))\<rparr>))"
  using assms
proof (induction "length (m_vertices (s geo)) - i" arbitrary: i s)
  case 0
  then show ?case
    by (subst append_vertices.simps) simp
next
  case (Suc n)
  let ?s = "s(this := (s this)\<lparr>m_vertices := m_vertices (s this) @ [m_vertices (s geo) ! i]\<rparr>)"
  from Suc have lt: "i < length (m_vertices (s geo))" by simp
  have "append_vertices this geo (i + 1) ?s
        = Some (?s(this := (?s this)\<lparr>m_vertices :=
                     m_vertices (?s this) @ drop (i + 1) (m_vertices (?s geo))\<rparr>))"
    using Suc.hyps(2) Suc.prems lt by (intro Suc.hyps(1)) simp_all
  then show ?case
    using lt Suc.prems(1)
    by (subst append_vertices.simps) (simp add: Cons_nth_drop_Suc)
qed

lemma append_triangles_distinct:
  assumes "this \<noteq> geo" and "i \<le> length (m_indicesTriangles (s geo))"
  shows "append_triangles this geo offset i s
         = Some (s(this := (s this)\<lparr>m_indicesTriangles := m_indicesTriangles (s this)
                    @ map (\<lambda>t. add_uvec3 t offset) (drop i (m_indicesTriangles (s geo)))\<rparr>))"
  using assms
proof (induction "length (m_indicesTriangles (s geo)) - i" arbitrary: i s)
  case 0
  then show ?case
    by (subst append_triangles.simps) simp
next
  case (Suc n)
  let ?s = "s(this := (s this)\<lparr>m_indicesTriangles := m_indicesTriangles (s this)
                  @ [add_uvec3 (m_indicesTriangles (s geo) ! i) offset]\<rparr>)"
  from Suc have lt: "i < length (m_indicesTriangles (s geo))" by simp
  have "append_triangles this geo offset (i + 1) ?s
        = Some (?s(this := (?s this)\<lparr>m_indicesTriangles := m_indicesTriangles (?s this)
                    @ map (\<lambda>t. add_uvec3 t offset) (drop (i + 1) (m_indicesTriangles (?s geo)))\<rparr>))"
    using Suc.hyps(2) Suc.prems lt by (intro Suc.hyps(1)) simp_all
  then show ?case
    using lt Suc.prems(1)
    by (subst append_triangles.simps) (simp add: Cons_nth_drop_Suc [symmetric])
qed

lemma append_outline_distinct:
  assumes "this \<noteq> geo" and "i \<le> length (m_indicesOutline (s geo))"
  shows "append_outline this geo offset i s
         = Some (s(this := (s this)\<lparr>m_indicesOutline := m_indicesOutline (s this)
                    @ map (\<lambda>l. add_uvec2 l offset) (drop i (m_indicesOutline (s geo)))\<rparr>))"
  using assms
proof (induction "length (m_indicesOutline (s geo)) - i" arbitrary: i s)
  case 0
  then show ?case
    by (subst append_outline.simps) simp
next
  case (Suc n)
  let ?s = "s(this := (s this)\<lparr>m_indicesOutline := m_indicesOutline (s this)
                  @ [add_uvec2 (m_indicesOutline (s geo) ! i) offset]\<rparr>)"
  from Suc have lt: "i < length (m_indicesOutline (s geo))" by simp
  have "append_outline this geo offset (i + 1) ?s
        = Some (?s(this := (?s this)\<lparr>m_indicesOutline := m_indicesOutline (?s this)
                    @ map (\<lambda>l. add_uvec2 l offset) (drop (i + 1) (m_indicesOutline (?s geo)))\<rparr>))"
    using Suc.hyps(2) Suc.prems lt by (intro Suc.hyps(1)) simp_all
  then show ?case
    using lt Suc.prems(1)
    by (subst append_outline.simps) (simp add: Cons_nth_drop_Suc [symmetric])
qed

lemma append_distinct:
  assumes "this \<noteq> geo"
  shows "append this geo s
         = Some (s(this := (s this)
              \<lparr>m_vertices := m_vertices (s this) @ m_vertices (s geo),
               m_indicesTriangles := m_indicesTriangles (s this)
                 @ map (\<lambda>t. add_uvec3 t (size_u32 (m_vertices (s this))))
                       (m_indicesTriangles (s geo)),
               m_indicesOutline := m_indicesOutline (s this)
                 @ map (\<lambda>l. add_uvec2 l (size_u32 (m_vertices (s this))))
                       (m_indicesOutline (s geo))\<rparr>))"
  using assms
  by (simp add: append_def Let_def append_vertices_distinct append_triangles_distinct
      append_outline_distinct)


text \<open>Adding the offset in 32-bit arithmetic is adding it in the natural numbers as long as
  the sum stays below \<open>2^32\<close>.\<close>

lemma unat_add_offset:
  assumes "unat (x :: u32) + n < 2 ^ 32"
  shows "unat (x + word_of_nat n) = unat x + n"
proof -
  have "n < 2 ^ 32" using assms by simp
  then have "unat (word_of_nat n :: u32) = n"
    by (simp add: unat_of_nat)
  with assms show ?thesis
    by (simp add: unat_add_lem [THEN iffD1])
qed

text \<open>
  C3.  Let \<open>meshA\<close> (at address \<open>a\<close>) be an element-wise copy of \<open>meshB\<close> (another object,
  at address \<open>b\<close>).  Then \<open>meshA.append(meshB)\<close> returns; afterwards \<open>meshA\<close> has
  \<open>2 * |meshB.vertices|\<close> vertices, those of \<open>meshB\<close> verbatim after the original ones, and
  the appended triangle and outline indices are those of \<open>meshB\<close>, each component plus the
  vertex count of \<open>meshA\<close> before the call (which is \<open>|meshB.vertices|\<close>), the sum taken in
  \<open>uint32_t\<close>; \<open>meshB\<close> is unchanged.
\<close>

theorem append_copy:
  assumes "a \<noteq> b" and "s a = s b"
  shows "\<exists>s'. append a b s = Some s'
           \<and> length (m_vertices (s' a)) = 2 * length (m_vertices (s b))
           \<and> m_vertices (s' a) = m_vertices (s a) @ m_vertices (s b)
           \<and> m_indicesTriangles (s' a)
               = m_indicesTriangles (s a)
                 @ map (\<lambda>(x, y, z). (x + word_of_nat (length (m_vertices (s b))),
                                     y + word_of_nat (length (m_vertices (s b))),
                                     z + word_of_nat (length (m_vertices (s b)))))
                       (m_indicesTriangles (s b))
           \<and> m_indicesOutline (s' a)
               = m_indicesOutline (s a)
                 @ map (\<lambda>(x, y). (x + word_of_nat (length (m_vertices (s b))),
                                  y + word_of_nat (length (m_vertices (s b)))))
                       (m_indicesOutline (s b))
           \<and> s' b = s b"
proof -
  have t: "(\<lambda>t. add_uvec3 t k) = (\<lambda>(x, y, z). (x + k, y + k, z + k))" for k
    by (rule ext) (simp add: add_uvec3_def)
  have l: "(\<lambda>l. add_uvec2 l k) = (\<lambda>(x, y). (x + k, y + k))" for k
    by (rule ext) (simp add: add_uvec2_def)
  show ?thesis
    using assms by (simp add: append_distinct size_u32_def t l)
qed

theorem append_copy_witness:
  "(0::nat) \<noteq> 1
   \<and> (\<exists>s'. append 0 1 (\<lambda>a. Plane_add real_glm empty_Mesh (mat_ident real_glm) 1 1) = Some s'
          \<and> length (m_vertices (s' 0)) = 8
          \<and> m_indicesTriangles (s' 0)
              = [(2, 0, 3), (3, 0, 1), (6, 4, 7), (7, 4, 5)])"
proof -
  have ne: "(0::nat) \<noteq> 1" by simp
  have tris: "m_indicesTriangles (Plane_add real_glm empty_Mesh (mat_ident real_glm) 1 1)
              = [(2, 0, 3), (3, 0, 1)]"
    by (simp add: Plane_add_def Let_def Plane_cell_def idx_def size_u32_def empty_Mesh_def)
  from append_copy [OF ne, of "\<lambda>a. Plane_add real_glm empty_Mesh (mat_ident real_glm) 1 1"]
  obtain s' where "append 0 1 (\<lambda>a. Plane_add real_glm empty_Mesh (mat_ident real_glm) 1 1) = Some s'"
    and "length (m_vertices (s' 0)) = 8"
    and "m_indicesTriangles (s' 0) = [(2, 0, 3), (3, 0, 1), (6, 4, 7), (7, 4, 5)]"
    by (auto simp: Plane_add_vertices_length empty_Mesh_def tris [unfolded empty_Mesh_def])
  with ne show ?thesis
    by blast
qed

text \<open>When the argument is the receiver itself, a loop that starts below the size of its
  vector does not return: each iteration makes the vector one longer.\<close>

lemma append_vertices_returns:
  assumes "append_vertices this geo i s = Some s'"
  shows "this = geo \<longrightarrow> length (m_vertices (s geo)) \<le> i"
  using assms
proof (rule append_vertices.raw_induct
    [where P = "\<lambda>this geo i s y. this = geo \<longrightarrow> length (m_vertices (s geo)) \<le> i", rotated])
  fix f :: "addr \<Rightarrow> addr \<Rightarrow> nat \<Rightarrow> 'a store \<Rightarrow> 'a store option" and this geo i s y
  assume IH: "\<And>this geo i s y. f this geo i s = Some y
                \<Longrightarrow> this = geo \<longrightarrow> length (m_vertices (s geo)) \<le> i"
    and eq: "(if i < length (m_vertices (s geo))
              then f this geo (i + 1)
                 (s(this := (s this)\<lparr>m_vertices := m_vertices (s this) @ [m_vertices (s geo) ! i]\<rparr>))
              else Some s) = Some y"
  show "this = geo \<longrightarrow> length (m_vertices (s geo)) \<le> i"
  proof (cases "i < length (m_vertices (s geo))")
    case True
    with eq IH show ?thesis by fastforce
  next
    case False
    then show ?thesis by simp
  qed
qed

lemma append_triangles_returns:
  assumes "append_triangles this geo offset i s = Some s'"
  shows "this = geo \<longrightarrow> length (m_indicesTriangles (s geo)) \<le> i"
  using assms
proof (rule append_triangles.raw_induct
    [where P = "\<lambda>this geo offset i s y. this = geo \<longrightarrow> length (m_indicesTriangles (s geo)) \<le> i",
      rotated])
  fix f :: "addr \<Rightarrow> addr \<Rightarrow> u32 \<Rightarrow> nat \<Rightarrow> 'a store \<Rightarrow> 'a store option" and this geo offset i s y
  assume IH: "\<And>this geo offset i s y. f this geo offset i s = Some y
                \<Longrightarrow> this = geo \<longrightarrow> length (m_indicesTriangles (s geo)) \<le> i"
    and eq: "(if i < length (m_indicesTriangles (s geo))
              then f this geo offset (i + 1)
                 (s(this := (s this)\<lparr>m_indicesTriangles := m_indicesTriangles (s this)
                      @ [add_uvec3 (m_indicesTriangles (s geo) ! i) offset]\<rparr>))
              else Some s) = Some y"
  show "this = geo \<longrightarrow> length (m_indicesTriangles (s geo)) \<le> i"
  proof (cases "i < length (m_indicesTriangles (s geo))")
    case True
    with eq IH show ?thesis by fastforce
  next
    case False
    then show ?thesis by simp
  qed
qed

lemma append_outline_returns:
  assumes "append_outline this geo offset i s = Some s'"
  shows "this = geo \<longrightarrow> length (m_indicesOutline (s geo)) \<le> i"
  using assms
proof (rule append_outline.raw_induct
    [where P = "\<lambda>this geo offset i s y. this = geo \<longrightarrow> length (m_indicesOutline (s geo)) \<le> i",
      rotated])
  fix f :: "addr \<Rightarrow> addr \<Rightarrow> u32 \<Rightarrow> nat \<Rightarrow> 'a store \<Rightarrow> 'a store option" and this geo offset i s y
  assume IH: "\<And>this geo offset i s y. f this geo offset i s = Some y
                \<Longrightarrow> this = geo \<longrightarrow> length (m_indicesOutline (s geo)) \<le> i"
    and eq: "(if i < length (m_indicesOutline (s geo))
              then f this geo offset (i + 1)
                 (s(this := (s this)\<lparr>m_indicesOutline := m_indicesOutline (s this)
                      @ [add_uvec2 (m_indicesOutline (s geo) ! i) offset]\<rparr>))
              else Some s) = Some y"
  show "this = geo \<longrightarrow> length (m_indicesOutline (s geo)) \<le> i"
  proof (cases "i < length (m_indicesOutline (s geo))")
    case True
    with eq IH show ?thesis by fastforce
  next
    case False
    then show ?thesis by simp
  qed
qed

text \<open>\<open>a.append(a)\<close> returns only for a mesh whose three vectors are all empty.\<close>

lemma append_self:
  "append this this s
   = (if m_vertices (s this) = [] \<and> m_indicesTriangles (s this) = []
         \<and> m_indicesOutline (s this) = []
      then Some s else None)"
proof (cases "m_vertices (s this) = []")
  case False
  then have "append_vertices this this 0 s = None"
    using append_vertices_returns [of this this 0 s]
    by (cases "append_vertices this this 0 s") auto
  with False show ?thesis
    by (simp add: append_def)
next
  case v: True
  then have vs: "append_vertices this this 0 s = Some s"
    by (subst append_vertices.simps) simp
  show ?thesis
  proof (cases "m_indicesTriangles (s this) = []")
    case False
    then have "append_triangles this this offset 0 s = None" for offset
      using append_triangles_returns [of this this offset 0 s]
      by (cases "append_triangles this this offset 0 s") auto
    with False vs show ?thesis
      by (simp add: append_def)
  next
    case t: True
    then have ts: "append_triangles this this offset 0 s = Some s" for offset
      by (subst append_triangles.simps) simp
    show ?thesis
    proof (cases "m_indicesOutline (s this) = []")
      case False
      then have "append_outline this this offset 0 s = None" for offset
        using append_outline_returns [of this this offset 0 s]
        by (cases "append_outline this this offset 0 s") auto
      with False vs ts show ?thesis
        by (simp add: append_def)
    next
      case True
      then have "append_outline this this offset 0 s = Some s" for offset
        by (subst append_outline.simps) simp
      with True v t vs ts show ?thesis
        by (simp add: append_def)
    qed
  qed
qed

subsection \<open>Index ranges\<close>

lemma idx_of_nat:
  assumes "0 \<le> i"
  shows "idx i (size_u32 vs) = word_of_nat (nat i + length vs)"
proof -
  have "(word_of_int i :: u32) = word_of_nat (nat i)"
    using assms by (rule word_of_int_nat)
  then show ?thesis
    by (simp only: idx_def size_u32_def of_nat_add)
qed

lemma unat_idx_le: "0 \<le> i \<Longrightarrow> unat (idx i (size_u32 vs)) \<le> nat i + length vs"
  by (simp only: idx_of_nat unat_of_nat) simp

lemma unat_idx_eq:
  "0 \<le> i \<Longrightarrow> nat i + length vs < 2 ^ 32 \<Longrightarrow> unat (idx i (size_u32 vs)) = nat i + length vs"
  by (simp only: idx_of_nat unat_of_nat) simp

text \<open>A grid position \<open>(x, y)\<close> of a grid with rows of \<open>w + 1\<close> vertices and \<open>h + 1\<close> rows.\<close>

lemma grid_position:
  fixes x y w h :: int
  assumes "0 \<le> x" "x \<le> w" "0 \<le> y" "y \<le> h"
  shows "0 \<le> x + y * (w + 1)" and "nat (x + y * (w + 1)) < nat (h + 1) * nat (w + 1)"
proof -
  have w: "0 \<le> w + 1" using assms by linarith
  have "y * (w + 1) \<le> h * (w + 1)"
    using assms(4) w by (rule mult_right_mono)
  moreover have "(h + 1) * (w + 1) = h * (w + 1) + (w + 1)"
    by (simp only: distrib_right mult_1)
  ultimately have lt: "x + y * (w + 1) < (h + 1) * (w + 1)"
    using assms(2) by linarith
  have "0 \<le> y * (w + 1)"
    using assms(3) w by (rule mult_nonneg_nonneg)
  then show nonneg: "0 \<le> x + y * (w + 1)"
    using assms(1) by linarith
  have "0 \<le> h + 1" using assms by linarith
  then have "nat ((h + 1) * (w + 1)) = nat (h + 1) * nat (w + 1)"
    by (rule nat_mult_distrib)
  moreover have "nat (x + y * (w + 1)) < nat ((h + 1) * (w + 1))"
    using lt nonneg by (simp only: nat_less_eq_zless)
  ultimately show "nat (x + y * (w + 1)) < nat (h + 1) * nat (w + 1)"
    by (simp only:)
qed

lemma grid_idx_below:
  assumes "i = x + y * (w + 1)" "0 \<le> x" "x \<le> w" "0 \<le> y" "y \<le> h"
  shows "unat (idx i (size_u32 vs)) < length vs + nat (h + 1) * nat (w + 1)"
proof -
  have "0 \<le> i" and "nat i < nat (h + 1) * nat (w + 1)"
    using grid_position [of x w y h] assms by simp_all
  then show ?thesis
    using unat_idx_le [of i vs] by linarith
qed

lemma grid_idx_within:
  assumes "i = x + y * (w + 1)" "0 \<le> x" "x \<le> w" "0 \<le> y" "y \<le> h"
    and "length vs + nat (h + 1) * nat (w + 1) \<le> 2 ^ 32"
  shows "length vs \<le> unat (idx i (size_u32 vs))
       \<and> unat (idx i (size_u32 vs)) < length vs + nat (h + 1) * nat (w + 1)"
proof -
  have i: "0 \<le> i" and "nat i < nat (h + 1) * nat (w + 1)"
    using grid_position [of x w y h] assms by simp_all
  moreover from this assms(6) have "nat i + length vs < 2 ^ 32"
    by linarith
  ultimately show ?thesis
    using unat_idx_eq [of i vs] by linarith
qed


lemma list_all_concat_map:
  "(\<And>x. x \<in> set xs \<Longrightarrow> list_all P (f x)) \<Longrightarrow> list_all P (concat (map f xs))"
  by (induction xs) simp_all

lemma list_all_map_I:
  "(\<And>x. x \<in> set xs \<Longrightarrow> P (f x)) \<Longrightarrow> list_all P (map f xs)"
  by (induction xs) simp_all

text \<open>Every index that \<open>Plane::add\<close> pushes is \<open>idx i vertOffset\<close> for the number \<open>i\<close> of a
  grid position.\<close>

lemma Plane_cell_all:
  assumes Q: "\<And>i x y. i = x + y * (w + 1) \<Longrightarrow> 0 \<le> x \<Longrightarrow> x \<le> w \<Longrightarrow> 0 \<le> y \<Longrightarrow> y \<le> h
                \<Longrightarrow> Q (idx i off)"
    and "0 \<le> x" "x < w" "0 \<le> y" "y < h"
  shows "list_all (\<lambda>(a, b, c). Q a \<and> Q b \<and> Q c) (Plane_cell (w + 1) off x y)"
proof -
  have "Q (idx (x + (y + 1) * (w + 1)) off)"
    using assms(2-) by (intro Q [OF refl]) linarith+
  moreover have "Q (idx (x + y * (w + 1)) off)"
    using assms(2-) by (intro Q [OF refl]) linarith+
  moreover have "Q (idx ((x + 1) + (y + 1) * (w + 1)) off)"
    using assms(2-) by (intro Q [OF refl]) linarith+
  moreover have "Q (idx ((x + 1) + y * (w + 1)) off)"
    using assms(2-) by (intro Q [OF refl]) linarith+
  ultimately show ?thesis
    by (simp add: Plane_cell_def)
qed

lemma Plane_triangles_all:
  assumes Q: "\<And>i x y. i = x + y * (w + 1) \<Longrightarrow> 0 \<le> x \<Longrightarrow> x \<le> w \<Longrightarrow> 0 \<le> y \<Longrightarrow> y \<le> h
                \<Longrightarrow> Q (idx i off)"
  shows "list_all (\<lambda>(a, b, c). Q a \<and> Q b \<and> Q c)
           (concat (map (\<lambda>y. concat (map (\<lambda>x. Plane_cell (w + 1) off x y) [0..w - 1]))
                        [0..h - 1]))"
proof (intro list_all_concat_map)
  fix x y
  assume "y \<in> set [0..h - 1]" and "x \<in> set [0..w - 1]"
  then show "list_all (\<lambda>(a, b, c). Q a \<and> Q b \<and> Q c) (Plane_cell (w + 1) off x y)"
    by (intro Plane_cell_all [of w h Q off x y, OF Q]) simp_all
qed

lemma Plane_outline_all:
  assumes Q: "\<And>i x y. i = x + y * (w + 1) \<Longrightarrow> 0 \<le> x \<Longrightarrow> x \<le> w \<Longrightarrow> 0 \<le> y \<Longrightarrow> y \<le> h
                \<Longrightarrow> Q (idx i off)"
    and wh: "0 \<le> w" "0 \<le> h"
  shows "list_all (\<lambda>(a, b). Q a \<and> Q b) (Plane_outline w h (w + 1) off)"
proof -
  have left: "Q (idx (y * (w + 1)) off) \<and> Q (idx ((y + 1) * (w + 1)) off)"
    if "y \<in> set [0..h - 1]" for y
  proof
    show "Q (idx (y * (w + 1)) off)"
      using that wh by (intro Q [of _ 0 y]) simp_all
    show "Q (idx ((y + 1) * (w + 1)) off)"
      using that wh by (intro Q [of _ 0 "y + 1"]) simp_all
  qed
  have right: "Q (idx (y * (w + 1) + w) off) \<and> Q (idx ((y + 1) * (w + 1) + w) off)"
    if "y \<in> set [0..h - 1]" for y
  proof
    show "Q (idx (y * (w + 1) + w) off)"
      using that wh by (intro Q [of _ w y]) simp_all
    show "Q (idx ((y + 1) * (w + 1) + w) off)"
      using that wh by (intro Q [of _ w "y + 1"]) simp_all
  qed
  have bottom: "Q (idx x off) \<and> Q (idx (x + 1) off)" if "x \<in> set [0..w - 1]" for x
  proof
    show "Q (idx x off)"
      using that wh by (intro Q [of _ x 0]) simp_all
    show "Q (idx (x + 1) off)"
      using that wh by (intro Q [of _ "x + 1" 0]) simp_all
  qed
  have top: "Q (idx (x + h * (w + 1)) off) \<and> Q (idx ((x + 1) + h * (w + 1)) off)"
    if "x \<in> set [0..w - 1]" for x
  proof
    show "Q (idx (x + h * (w + 1)) off)"
      using that wh by (intro Q [of _ x h]) simp_all
    show "Q (idx ((x + 1) + h * (w + 1)) off)"
      using that wh by (intro Q [of _ "x + 1" h]) simp_all
  qed
  show ?thesis
    unfolding Plane_outline_def list_all_append
    using left right bottom top by (intro conjI list_all_map_I) simp_all
qed


lemma tri_within_eq:
  "tri_within lo hi = (\<lambda>(a, b, c). (lo \<le> unat a \<and> unat a < hi) \<and> (lo \<le> unat b \<and> unat b < hi)
                                   \<and> (lo \<le> unat c \<and> unat c < hi))"
  by (rule ext) (simp add: tri_within_def split: prod.splits)

lemma line_within_eq:
  "line_within lo hi = (\<lambda>(a, b). (lo \<le> unat a \<and> unat a < hi) \<and> (lo \<le> unat b \<and> unat b < hi))"
  by (rule ext) (simp add: line_within_def split: prod.splits)

lemma tri_within_mono: "tri_within lo hi t \<Longrightarrow> hi \<le> hi' \<Longrightarrow> tri_within lo hi' t"
  by (auto simp: tri_within_def split: prod.splits)

lemma line_within_mono: "line_within lo hi l \<Longrightarrow> hi \<le> hi' \<Longrightarrow> line_within lo hi' l"
  by (auto simp: line_within_def split: prod.splits)

lemma indices_in_range_grow:
  assumes "indices_in_range geo" and "length (m_vertices geo) \<le> N"
  shows "list_all (tri_within 0 N) (m_indicesTriangles geo)"
    and "list_all (line_within 0 N) (m_indicesOutline geo)"
  using assms
  by (auto simp: indices_in_range_def list_all_iff intro: tri_within_mono line_within_mono)

text \<open>What \<open>Plane::add\<close> appends names only vertices that the same call appends (as long as
  the vertex count stays within 32 bits), and the call keeps the invariant of the mesh.\<close>

lemma Plane_add_appended_indices:
  assumes "0 \<le> w" and "0 \<le> h"
    and "length (m_vertices geo) + nat (h + 1) * nat (w + 1) \<le> 2 ^ 32"
  shows "list_all (tri_within (length (m_vertices geo))
                     (length (m_vertices (Plane_add G geo mat w h))))
           (drop (length (m_indicesTriangles geo)) (m_indicesTriangles (Plane_add G geo mat w h)))"
    and "list_all (line_within (length (m_vertices geo))
                     (length (m_vertices (Plane_add G geo mat w h))))
           (drop (length (m_indicesOutline geo)) (m_indicesOutline (Plane_add G geo mat w h)))"
proof -
  let ?n = "length (m_vertices geo)"
  let ?N = "?n + nat (h + 1) * nat (w + 1)"
  let ?Q = "\<lambda>a. ?n \<le> unat a \<and> unat a < ?N"
  have Q: "?Q (idx i (size_u32 (m_vertices geo)))"
    if "i = x + y * (w + 1)" "0 \<le> x" "x \<le> w" "0 \<le> y" "y \<le> h" for i x y
    using grid_idx_within [OF that assms(3)] .
  have "list_all (tri_within ?n ?N)
          (concat (map (\<lambda>y. concat (map (\<lambda>x. Plane_cell (w + 1) (size_u32 (m_vertices geo)) x y)
                                          [0..w - 1])) [0..h - 1]))"
    unfolding tri_within_eq by (rule Plane_triangles_all [where Q = ?Q, OF Q])
  then show "list_all (tri_within ?n (length (m_vertices (Plane_add G geo mat w h))))
           (drop (length (m_indicesTriangles geo)) (m_indicesTriangles (Plane_add G geo mat w h)))"
    by (simp add: Plane_add_vertices_length) (simp add: Plane_add_def Let_def)
  have "list_all (line_within ?n ?N) (Plane_outline w h (w + 1) (size_u32 (m_vertices geo)))"
    unfolding line_within_eq by (rule Plane_outline_all [where Q = ?Q, OF Q assms(1,2)])
  then show "list_all (line_within ?n (length (m_vertices (Plane_add G geo mat w h))))
           (drop (length (m_indicesOutline geo)) (m_indicesOutline (Plane_add G geo mat w h)))"
    by (simp add: Plane_add_vertices_length) (simp add: Plane_add_def Let_def)
qed

lemma Plane_add_indices_in_range:
  assumes "0 \<le> w" and "0 \<le> h" and "indices_in_range geo"
  shows "indices_in_range (Plane_add G geo mat w h)"
proof -
  let ?n = "length (m_vertices geo)"
  let ?N = "?n + nat (h + 1) * nat (w + 1)"
  let ?Q = "\<lambda>a. 0 \<le> unat a \<and> unat a < ?N"
  have Q: "?Q (idx i (size_u32 (m_vertices geo)))"
    if "i = x + y * (w + 1)" "0 \<le> x" "x \<le> w" "0 \<le> y" "y \<le> h" for i x y
    using grid_idx_below [OF that] by simp
  have new_t: "list_all (tri_within 0 ?N)
          (concat (map (\<lambda>y. concat (map (\<lambda>x. Plane_cell (w + 1) (size_u32 (m_vertices geo)) x y)
                                          [0..w - 1])) [0..h - 1]))"
    unfolding tri_within_eq by (rule Plane_triangles_all [where Q = ?Q, OF Q])
  have new_l: "list_all (line_within 0 ?N) (Plane_outline w h (w + 1) (size_u32 (m_vertices geo)))"
    unfolding line_within_eq by (rule Plane_outline_all [where Q = ?Q, OF Q assms(1,2)])
  have old: "list_all (tri_within 0 ?N) (m_indicesTriangles geo)"
    "list_all (line_within 0 ?N) (m_indicesOutline geo)"
    using indices_in_range_grow [OF assms(3), of ?N] by simp_all
  have "m_indicesTriangles (Plane_add G geo mat w h)
        = m_indicesTriangles geo
          @ concat (map (\<lambda>y. concat (map (\<lambda>x. Plane_cell (w + 1) (size_u32 (m_vertices geo)) x y)
                                          [0..w - 1])) [0..h - 1])"
    and "m_indicesOutline (Plane_add G geo mat w h)
        = m_indicesOutline geo @ Plane_outline w h (w + 1) (size_u32 (m_vertices geo))"
    by (simp_all add: Plane_add_def Let_def)
  with old new_t new_l show ?thesis
    by (simp add: indices_in_range_def Plane_add_vertices_length)
qed


text \<open>The same for \<open>Sphere::add\<close>.\<close>

lemma Sphere_quad_all:
  assumes Q: "\<And>i x y. i = x + y * (w + 1) \<Longrightarrow> 0 \<le> x \<Longrightarrow> x \<le> w \<Longrightarrow> 0 \<le> y \<Longrightarrow> y \<le> h
                \<Longrightarrow> Q (idx i off)"
    and "0 \<le> xy" "xy < w" "0 \<le> z" "z < h"
  shows "list_all (\<lambda>(a, b, c). Q a \<and> Q b \<and> Q c)
           (Sphere_quad h (w + 1) off z (z * (w + 1) + xy))"
proof -
  have "z * (w + 1) + xy + (w + 1) + 1 = (xy + 1) + (z + 1) * (w + 1)"
    by (simp add: algebra_simps)
  then have 1: "Q (idx (z * (w + 1) + xy + (w + 1) + 1) off)"
    using assms(2-) by (intro Q [of _ "xy + 1" "z + 1"]) linarith+
  have "z * (w + 1) + xy + (w + 1) = xy + (z + 1) * (w + 1)"
    by (simp add: algebra_simps)
  then have 2: "Q (idx (z * (w + 1) + xy + (w + 1)) off)"
    using assms(2-) by (intro Q [of _ xy "z + 1"]) linarith+
  have "z * (w + 1) + xy = xy + z * (w + 1)"
    by simp
  then have 3: "Q (idx (z * (w + 1) + xy) off)"
    using assms(2-) by (intro Q [of _ xy z]) linarith+
  have "z * (w + 1) + xy + 1 = (xy + 1) + z * (w + 1)"
    by simp
  then have 4: "Q (idx (z * (w + 1) + xy + 1) off)"
    using assms(2-) by (intro Q [of _ "xy + 1" z]) linarith+
  have one: "list_all P (if c then [t] else []) = (c \<longrightarrow> P t)" for P c and t :: uvec3
    by simp
  from 1 2 3 4 show ?thesis
    by (simp only: Sphere_quad_def Sphere_upper_def Sphere_lower_def list_all_append one
        prod.case simp_thms)
qed

lemma Sphere_triangles_all:
  assumes Q: "\<And>i x y. i = x + y * (w + 1) \<Longrightarrow> 0 \<le> x \<Longrightarrow> x \<le> w \<Longrightarrow> 0 \<le> y \<Longrightarrow> y \<le> h
                \<Longrightarrow> Q (idx i off)"
  shows "list_all (\<lambda>(a, b, c). Q a \<and> Q b \<and> Q c)
           (concat (map (\<lambda>z. concat (map (\<lambda>xy. Sphere_quad h (w + 1) off z (z * (w + 1) + xy))
                                          [0..w - 1])) [0..h - 1]))"
proof (intro list_all_concat_map)
  fix xy z
  assume "z \<in> set [0..h - 1]" and "xy \<in> set [0..w - 1]"
  then show "list_all (\<lambda>(a, b, c). Q a \<and> Q b \<and> Q c)
               (Sphere_quad h (w + 1) off z (z * (w + 1) + xy))"
    by (intro Sphere_quad_all [of w h Q off xy z, OF Q]) simp_all
qed

lemma c_div_nonneg: "0 \<le> a \<Longrightarrow> 0 < b \<Longrightarrow> c_div a b = a div b"
  by (simp add: c_div_def)

lemma Sphere_outline_all:
  assumes Q: "\<And>i x y. i = x + y * (w + 1) \<Longrightarrow> 0 \<le> x \<Longrightarrow> x \<le> w \<Longrightarrow> 0 \<le> y \<Longrightarrow> y \<le> h
                \<Longrightarrow> Q (idx i off)"
    and wh: "0 \<le> w" "0 \<le> h"
  shows "list_all (\<lambda>(a, b). Q a \<and> Q b) (Sphere_outline w h (w + 1) off)"
proof -
  have mid: "c_div h 2 = h div 2" "0 \<le> h div 2" "h div 2 \<le> h"
    using wh by (simp_all add: c_div_nonneg)
  have ring: "Q (idx (h div 2 * (w + 1) + xy) off) \<and> Q (idx (h div 2 * (w + 1) + xy + 1) off)"
    if "xy \<in> set [0..w - 1]" for xy
  proof
    show "Q (idx (h div 2 * (w + 1) + xy) off)"
      using that mid by (intro Q [of _ xy "h div 2"]) simp_all
    show "Q (idx (h div 2 * (w + 1) + xy + 1) off)"
      using that mid by (intro Q [of _ "xy + 1" "h div 2"]) simp_all
  qed
  have meridian: "Q (idx (c_div (w * i) 4 + (w + 1) * z) off)
                \<and> Q (idx (c_div (w * i) 4 + (w + 1) * (z + 1)) off)"
    if "i \<in> set [0..3]" "z \<in> set [0..h - 1]" for i z
  proof -
    have i: "0 \<le> i" "i \<le> 3" using that by simp_all
    then have "0 \<le> w * i" using wh by simp
    then have q: "c_div (w * i) 4 = w * i div 4"
      by (simp add: c_div_nonneg)
    have "w * i \<le> w * 3"
      using i wh by (intro mult_left_mono) simp_all
    then have x: "0 \<le> w * i div 4" "w * i div 4 \<le> w"
      using \<open>0 \<le> w * i\<close> by simp_all
    show ?thesis
      unfolding q
    proof
      show "Q (idx (w * i div 4 + (w + 1) * z) off)"
        using that x by (intro Q [of _ "w * i div 4" z]) simp_all
      show "Q (idx (w * i div 4 + (w + 1) * (z + 1)) off)"
        using that x by (intro Q [of _ "w * i div 4" "z + 1"]) simp_all
    qed
  qed
  show ?thesis
    unfolding Sphere_outline_def Let_def list_all_append mid(1)
    using ring meridian
    by (intro conjI list_all_map_I list_all_concat_map) simp_all
qed


lemma Sphere_add_vertices_length:
  "length (m_vertices (Sphere_add G geo mat w h))
   = length (m_vertices geo) + nat (h + 1) * nat (w + 1)"
  by (simp add: Sphere_add_def Let_def length_concat_const)

lemma Sphere_add_indices:
  assumes "0 \<le> w" and "0 \<le> h"
  shows "m_indicesTriangles (Sphere_add G geo mat w h)
         = m_indicesTriangles geo
           @ concat (map (\<lambda>z. concat (map (\<lambda>xy. Sphere_quad h (w + 1) (size_u32 (m_vertices geo)) z
                                                   (z * (w + 1) + xy)) [0..w - 1])) [0..h - 1])"
    and "m_indicesOutline (Sphere_add G geo mat w h)
         = m_indicesOutline geo @ Sphere_outline w h (w + 1) (size_u32 (m_vertices geo))"
  using assms by (simp_all add: Sphere_add_def Let_def Sphere_triangles_eq)

lemma Sphere_add_appended_indices:
  assumes "0 \<le> w" and "0 \<le> h"
    and "length (m_vertices geo) + nat (h + 1) * nat (w + 1) \<le> 2 ^ 32"
  shows "list_all (tri_within (length (m_vertices geo))
                     (length (m_vertices (Sphere_add G geo mat w h))))
           (drop (length (m_indicesTriangles geo)) (m_indicesTriangles (Sphere_add G geo mat w h)))"
    and "list_all (line_within (length (m_vertices geo))
                     (length (m_vertices (Sphere_add G geo mat w h))))
           (drop (length (m_indicesOutline geo)) (m_indicesOutline (Sphere_add G geo mat w h)))"
proof -
  let ?n = "length (m_vertices geo)"
  let ?N = "?n + nat (h + 1) * nat (w + 1)"
  let ?Q = "\<lambda>a. ?n \<le> unat a \<and> unat a < ?N"
  have Q: "?Q (idx i (size_u32 (m_vertices geo)))"
    if "i = x + y * (w + 1)" "0 \<le> x" "x \<le> w" "0 \<le> y" "y \<le> h" for i x y
    using grid_idx_within [OF that assms(3)] .
  have "list_all (tri_within ?n ?N)
          (concat (map (\<lambda>z. concat (map (\<lambda>xy. Sphere_quad h (w + 1) (size_u32 (m_vertices geo)) z
                                                   (z * (w + 1) + xy)) [0..w - 1])) [0..h - 1]))"
    unfolding tri_within_eq by (rule Sphere_triangles_all [where Q = ?Q, OF Q])
  then show "list_all (tri_within ?n (length (m_vertices (Sphere_add G geo mat w h))))
           (drop (length (m_indicesTriangles geo)) (m_indicesTriangles (Sphere_add G geo mat w h)))"
    by (simp add: Sphere_add_vertices_length Sphere_add_indices [OF assms(1,2)])
  have "list_all (line_within ?n ?N) (Sphere_outline w h (w + 1) (size_u32 (m_vertices geo)))"
    unfolding line_within_eq by (rule Sphere_outline_all [where Q = ?Q, OF Q assms(1,2)])
  then show "list_all (line_within ?n (length (m_vertices (Sphere_add G geo mat w h))))
           (drop (length (m_indicesOutline geo)) (m_indicesOutline (Sphere_add G geo mat w h)))"
    by (simp add: Sphere_add_vertices_length Sphere_add_indices [OF assms(1,2)])
qed

lemma Sphere_add_indices_in_range:
  assumes "0 \<le> w" and "0 \<le> h" and "indices_in_range geo"
  shows "indices_in_range (Sphere_add G geo mat w h)"
proof -
  let ?n = "length (m_vertices geo)"
  let ?N = "?n + nat (h + 1) * nat (w + 1)"
  let ?Q = "\<lambda>a. 0 \<le> unat a \<and> unat a < ?N"
  have Q: "?Q (idx i (size_u32 (m_vertices geo)))"
    if "i = x + y * (w + 1)" "0 \<le> x" "x \<le> w" "0 \<le> y" "y \<le> h" for i x y
    using grid_idx_below [OF that] by simp
  have new_t: "list_all (tri_within 0 ?N)
          (concat (map (\<lambda>z. concat (map (\<lambda>xy. Sphere_quad h (w + 1) (size_u32 (m_vertices geo)) z
                                                   (z * (w + 1) + xy)) [0..w - 1])) [0..h - 1]))"
    unfolding tri_within_eq by (rule Sphere_triangles_all [where Q = ?Q, OF Q])
  have new_l: "list_all (line_within 0 ?N) (Sphere_outline w h (w + 1) (size_u32 (m_vertices geo)))"
    unfolding line_within_eq by (rule Sphere_outline_all [where Q = ?Q, OF Q assms(1,2)])
  have old: "list_all (tri_within 0 ?N) (m_indicesTriangles geo)"
    "list_all (line_within 0 ?N) (m_indicesOutline geo)"
    using indices_in_range_grow [OF assms(3), of ?N] by simp_all
  from old new_t new_l show ?thesis
    by (simp add: indices_in_range_def Sphere_add_vertices_length Sphere_add_indices [OF assms(1,2)])
qed

text \<open>\<open>Box::add\<close> and \<open>RandomMengerSponge::add\<close> are sequences of \<open>Plane::add\<close>;
  \<open>flipWinding\<close> permutes the corners of each triangle; \<open>append\<close> of another mesh adds the
  old vertex count to indices below the other mesh's vertex count.\<close>

lemma Box_add_indices_in_range:
  assumes "0 \<le> w" and "0 \<le> h" and "0 \<le> d" and "indices_in_range geo"
  shows "indices_in_range (Box_add G geo mat w h d)"
proof -
  have side: "indices_in_range (Box_side G mat w h d side g)"
    if "indices_in_range g" "side \<in> {0, 1, 2, 3, 4, 5}" for side g
    using that assms(1-3)
    by (auto simp: Box_side_def Box_configs_def Let_def intro!: Plane_add_indices_in_range)
  show ?thesis
    unfolding Box_add_unfold using assms(4) by (intro side) simp_all
qed

lemma Sponge_boxes_indices_in_range:
  "indices_in_range geo \<Longrightarrow> indices_in_range (fold (Sponge_box G) cubes geo)"
proof (induction cubes arbitrary: geo)
  case Nil
  then show ?case by simp
next
  case (Cons c cubes)
  have "indices_in_range (Sponge_box G c geo)"
    unfolding Sponge_box_def Let_def using Cons.prems by (intro Box_add_indices_in_range) simp_all
  then show ?case
    by (simp add: Cons.IH)
qed

lemma RandomMengerSponge_add_indices_in_range:
  "indices_in_range geo \<Longrightarrow>
   indices_in_range (fst (RandomMengerSponge_add G geo rng mat w h d level probability))"
  by (simp add: RandomMengerSponge_add_def Sponge_boxes_indices_in_range split: prod.splits)

lemma flipWinding_indices_in_range:
  "indices_in_range m \<Longrightarrow> indices_in_range (flipWinding m)"
proof -
  have "tri_within lo hi (swap_xz t) = tri_within lo hi t" for lo hi t
    by (cases t) (auto simp: tri_within_def swap_xz_def)
  moreover have "m_vertices (flipWinding m) = m_vertices m"
    "m_indicesOutline (flipWinding m) = m_indicesOutline m"
    by (simp_all add: flipWinding_def)
  ultimately show "indices_in_range m \<Longrightarrow> indices_in_range (flipWinding m)"
    by (simp add: indices_in_range_def flipWinding_triangles list_all_iff)
qed

lemma unat_add_offset_le: "unat (x + word_of_nat n :: u32) \<le> unat x + n"
proof -
  have "unat (x + word_of_nat n :: u32) \<le> unat x + unat (word_of_nat n :: u32)"
    by (simp only: unat_word_ariths(1) mod_less_eq_dividend)
  moreover have "unat (word_of_nat n :: u32) \<le> n"
    by (simp only: unat_of_nat mod_less_eq_dividend)
  ultimately show ?thesis
    by linarith
qed

lemma append_indices_in_range:
  assumes "this \<noteq> geo" and "indices_in_range (s this)" and "indices_in_range (s geo)"
  shows "\<exists>s'. append this geo s = Some s' \<and> indices_in_range (s' this) \<and> s' geo = s geo"
proof -
  let ?n = "length (m_vertices (s this))"
  let ?k = "length (m_vertices (s geo))"
  have t: "tri_within 0 (?n + ?k) (add_uvec3 t (size_u32 (m_vertices (s this))))"
    if "tri_within 0 ?k t" for t
  proof (cases t)
    case (fields a b c)
    with that show ?thesis
      using unat_add_offset_le [of a ?n] unat_add_offset_le [of b ?n] unat_add_offset_le [of c ?n]
      by (simp add: tri_within_def add_uvec3_def size_u32_def)
  qed
  have l: "line_within 0 (?n + ?k) (add_uvec2 l (size_u32 (m_vertices (s this))))"
    if "line_within 0 ?k l" for l
  proof (cases l)
    case (Pair a b)
    with that show ?thesis
      using unat_add_offset_le [of a ?n] unat_add_offset_le [of b ?n]
      by (simp add: line_within_def add_uvec2_def size_u32_def)
  qed
  have old: "list_all (tri_within 0 (?n + ?k)) (m_indicesTriangles (s this))"
    "list_all (line_within 0 (?n + ?k)) (m_indicesOutline (s this))"
    using indices_in_range_grow [OF assms(2), of "?n + ?k"] by simp_all
  have new: "list_all (tri_within 0 (?n + ?k))
               (map (\<lambda>t. add_uvec3 t (size_u32 (m_vertices (s this)))) (m_indicesTriangles (s geo)))"
    "list_all (line_within 0 (?n + ?k))
               (map (\<lambda>l. add_uvec2 l (size_u32 (m_vertices (s this)))) (m_indicesOutline (s geo)))"
    using assms(3) t l by (auto simp: indices_in_range_def list_all_iff)
  from old new show ?thesis
    using assms(1) by (simp add: append_distinct indices_in_range_def)
qed

subsection \<open>Indices that name the vertices of the same call\<close>

lemma appends_own_indices_refl: "appends_own_indices geo geo"
  by (simp add: appends_own_indices_def)

lemma take_eq_length_le: "take n xs = ys \<Longrightarrow> length ys = n \<Longrightarrow> n \<le> length xs"
  by (metis length_take min.cobounded1 min_def order_refl)

lemma take_take_prefix:
  assumes "take k1 zs = ys" "length ys = k1" "take k0 ys = xs" "length xs = k0"
  shows "take k0 zs = xs" and "drop k0 zs = drop k0 ys @ drop k1 zs"
proof -
  have k: "k0 \<le> k1" using assms(2-4) take_eq_length_le by blast
  have zs: "zs = ys @ drop k1 zs"
    using assms(1) by (metis append_take_drop_id)
  have "take k0 zs = take k0 ys"
    by (subst zs) (simp add: assms(2) k)
  then show "take k0 zs = xs" using assms(3) by simp
  show "drop k0 zs = drop k0 ys @ drop k1 zs"
    by (subst zs) (simp add: assms(2) k)
qed

lemma tri_within_widen:
  "tri_within lo hi t \<Longrightarrow> lo' \<le> lo \<Longrightarrow> hi \<le> hi' \<Longrightarrow> tri_within lo' hi' t"
  by (auto simp: tri_within_def split: prod.splits)

lemma line_within_widen:
  "line_within lo hi l \<Longrightarrow> lo' \<le> lo \<Longrightarrow> hi \<le> hi' \<Longrightarrow> line_within lo' hi' l"
  by (auto simp: line_within_def split: prod.splits)

lemma appends_own_indices_trans:
  assumes "appends_own_indices g0 g1" and "appends_own_indices g1 g2"
  shows "appends_own_indices g0 g2"
proof -
  let ?n0 = "length (m_vertices g0)" and ?n1 = "length (m_vertices g1)"
  let ?n2 = "length (m_vertices g2)"
  have n: "?n0 \<le> ?n1" "?n1 \<le> ?n2"
    using assms by (auto simp: appends_own_indices_def intro: take_eq_length_le)
  note v = take_take_prefix [of ?n1 "m_vertices g2" "m_vertices g1" ?n0 "m_vertices g0"]
  note t = take_take_prefix [of "length (m_indicesTriangles g1)" "m_indicesTriangles g2"
      "m_indicesTriangles g1" "length (m_indicesTriangles g0)" "m_indicesTriangles g0"]
  note l = take_take_prefix [of "length (m_indicesOutline g1)" "m_indicesOutline g2"
      "m_indicesOutline g1" "length (m_indicesOutline g0)" "m_indicesOutline g0"]
  have "list_all (tri_within ?n0 ?n2) (drop (length (m_indicesTriangles g0)) (m_indicesTriangles g1))"
    "list_all (tri_within ?n0 ?n2) (drop (length (m_indicesTriangles g1)) (m_indicesTriangles g2))"
    "list_all (line_within ?n0 ?n2) (drop (length (m_indicesOutline g0)) (m_indicesOutline g1))"
    "list_all (line_within ?n0 ?n2) (drop (length (m_indicesOutline g1)) (m_indicesOutline g2))"
    using assms n
    by (auto simp: appends_own_indices_def list_all_iff
        intro: tri_within_widen line_within_widen)
  then show ?thesis
    using assms v t l by (simp add: appends_own_indices_def)
qed

lemma Plane_add_appends_own_indices:
  assumes "0 \<le> w" and "0 \<le> h" and "length (m_vertices (Plane_add G geo mat w h)) \<le> 2 ^ 32"
  shows "appends_own_indices geo (Plane_add G geo mat w h)"
  using Plane_add_appended_indices [OF assms(1,2), of geo G mat] assms(3)
  by (simp add: appends_own_indices_def Plane_add_prefix Plane_add_vertices_length)

lemma Sphere_add_appends_own_indices:
  assumes "0 \<le> w" and "0 \<le> h" and "length (m_vertices (Sphere_add G geo mat w h)) \<le> 2 ^ 32"
  shows "appends_own_indices geo (Sphere_add G geo mat w h)"
  using Sphere_add_appended_indices [OF assms(1,2), of geo G mat] assms(3)
  by (simp add: appends_own_indices_def Sphere_add_vertices_length Sphere_add_indices [OF assms(1,2)])
    (simp add: Sphere_add_def Let_def)

lemma Box_sides_grow:
  "length (m_vertices g) \<le> length (m_vertices (fold (Box_side G mat w h d) sides g))"
proof (induction sides arbitrary: g)
  case Nil
  then show ?case by simp
next
  case (Cons side sides)
  have "length (m_vertices g) \<le> length (m_vertices (Box_side G mat w h d side g))"
    by (simp add: Box_side_def Let_def Plane_add_vertices_length)
  also note Cons.IH [of "Box_side G mat w h d side g"]
  finally show ?case by simp
qed

lemma Box_sides_append_own_indices:
  assumes "0 \<le> w" and "0 \<le> h" and "0 \<le> d"
  shows "set sides \<subseteq> {0, 1, 2, 3, 4, 5} \<Longrightarrow>
         length (m_vertices (fold (Box_side G mat w h d) sides g)) \<le> 2 ^ 32 \<Longrightarrow>
         appends_own_indices g (fold (Box_side G mat w h d) sides g)"
proof (induction sides arbitrary: g)
  case Nil
  then show ?case by (simp add: appends_own_indices_refl)
next
  case (Cons side sides)
  let ?g = "Box_side G mat w h d side g"
  have "length (m_vertices ?g) \<le> 2 ^ 32"
    using Box_sides_grow [of ?g G mat w h d sides] Cons.prems(2) by simp
  moreover have "side \<in> {0, 1, 2, 3, 4, 5}"
    using Cons.prems(1) by simp
  ultimately have "appends_own_indices g ?g"
    using assms
    by (auto simp: Box_side_def Box_configs_def Let_def intro!: Plane_add_appends_own_indices)
  moreover have "appends_own_indices ?g (fold (Box_side G mat w h d) sides ?g)"
    using Cons.prems by (intro Cons.IH) simp_all
  ultimately show ?case
    using appends_own_indices_trans by fastforce
qed

lemma Box_add_appends_own_indices:
  assumes "0 \<le> w" and "0 \<le> h" and "0 \<le> d"
    and "length (m_vertices (Box_add G geo mat w h d)) \<le> 2 ^ 32"
  shows "appends_own_indices geo (Box_add G geo mat w h d)"
  using Box_sides_append_own_indices [OF assms(1-3), of "[0, 1, 2, 3, 4, 5]" G mat geo] assms(4)
  by (simp add: Box_add_def)

subsection \<open>Torus::add\<close>

lemma Torus_add_vertices_length:
  "Torus_add G geo mat w h = Some m \<Longrightarrow>
   length (m_vertices m) = length (m_vertices geo) + nat (w + 1) * nat (h + 1)"
  by (auto simp: Torus_add_def Let_def length_concat_const split: if_splits)

lemma Torus_add_triangles:
  "Torus_add G geo mat w h = Some m \<Longrightarrow>
   m_indicesTriangles m
   = m_indicesTriangles geo
     @ concat (map (\<lambda>latitude. concat (map (\<lambda>longitude.
                      Torus_cell (uns (w + 1)) latitude longitude) [0..h - 1])) [0..w - 1])"
  by (auto simp: Torus_add_def Let_def split: if_splits)

text \<open>
  C9.  \<open>Torus::add\<close> does not depend on its matrix: for every mesh, all segment counts and
  any two matrices the results are equal.  \<open>Plane::add\<close> and \<open>Sphere::add\<close> append, for each
  grid position, the vertex whose position and normal are the products of the matrix with
  the position and normal of the vertex built in local coordinates.
\<close>

theorem Torus_add_ignores_transform:
  "Torus_add G geo m1 w h = Torus_add G geo m2 w h
   \<and> m_vertices (Plane_add G geo mat w h)
     = m_vertices geo
       @ map (\<lambda>v. to_TVertex G (v\<lparr>position := mat_vec G mat (position v),
                                    normal := mat_vec G mat (normal v)\<rparr>))
           (concat (map (\<lambda>y. map (\<lambda>x. Plane_local G (f_div G (f_lit G 1) (f_of_int G w))
                                         (f_div G (f_lit G 1) (f_of_int G h)) x y) [0..w])
                        [0..h]))
   \<and> m_vertices (Sphere_add G geo mat w h)
     = m_vertices geo
       @ map (\<lambda>v. to_TVertex G (v\<lparr>position := mat_vec G mat (position v),
                                    normal := mat_vec G mat (normal v)\<rparr>))
           (concat (map (\<lambda>z. map (\<lambda>xy. Sphere_local G (f_div G (f_lit G 1) (f_of_int G w))
                                          (f_div G (f_lit G 1) (f_of_int G h)) xy z) [0..w])
                        [0..h]))"
proof -
  have "Torus_add G geo m1 w h = Torus_add G geo m2 w h"
    by (simp add: Torus_add_def)
  moreover have "m_vertices (Plane_add G geo mat w h)
     = m_vertices geo
       @ map (\<lambda>v. to_TVertex G (v\<lparr>position := mat_vec G mat (position v),
                                    normal := mat_vec G mat (normal v)\<rparr>))
           (concat (map (\<lambda>y. map (\<lambda>x. Plane_local G (f_div G (f_lit G 1) (f_of_int G w))
                                         (f_div G (f_lit G 1) (f_of_int G h)) x y) [0..w])
                        [0..h]))"
    by (simp add: Plane_add_def Plane_vertex_def Let_def map_concat comp_def)
  moreover have "m_vertices (Sphere_add G geo mat w h)
     = m_vertices geo
       @ map (\<lambda>v. to_TVertex G (v\<lparr>position := mat_vec G mat (position v),
                                    normal := mat_vec G mat (normal v)\<rparr>))
           (concat (map (\<lambda>z. map (\<lambda>xy. Sphere_local G (f_div G (f_lit G 1) (f_of_int G w))
                                          (f_div G (f_lit G 1) (f_of_int G h)) xy z) [0..w])
                        [0..h]))"
    by (simp add: Sphere_add_def Sphere_vertex_def Let_def map_concat comp_def)
  ultimately show ?thesis
    by (intro conjI)
qed

text \<open>The matrix does matter to \<open>Plane::add\<close>: scaling by 2 moves the first vertex of the
  one-cell plane from \<open>(-1, -1, 0)\<close> to \<open>(-2, -2, 0)\<close>.\<close>

lemma Plane_add_uses_transform:
  "map position (m_vertices (Plane_add real_glm empty_Mesh rmat_ident 1 1))
     = [(-1, -1, 0, 1), (1, -1, 0, 1), (-1, 1, 0, 1), (1, 1, 0, 1)]
   \<and> map position (m_vertices (Plane_add real_glm empty_Mesh
                                  (rmat_scale rmat_ident (2, 2, 2)) 1 1))
     = [(-2, -2, 0, 1), (2, -2, 0, 1), (-2, 2, 0, 1), (2, 2, 0, 1)]"
  by (simp add: Plane_add_def Plane_vertex_def Plane_local_def Vertex_ctor_def Let_def
      real_glm_def empty_Mesh_def rmat_ident_def rmat_scale_def rmat_vec_def vadd_def smul_def
      upto_rec1 of_rat_divide)

subsection \<open>When \<open>Torus::add\<close> keeps the invariant\<close>

lemma uns_of_nat: "0 \<le> i \<Longrightarrow> uns i = word_of_nat (nat i)"
  unfolding uns_def by (rule word_of_int_nat)

lemma unat_uns_le: "0 \<le> i \<Longrightarrow> unat (uns i) \<le> nat i"
  by (simp only: uns_of_nat unat_of_nat mod_less_eq_dividend)

lemma unat_uns_eq: "0 \<le> i \<Longrightarrow> nat i < 2 ^ 32 \<Longrightarrow> unat (uns i) = nat i"
  by (simp only: uns_of_nat unat_of_nat) simp

lemma uns_sum: "uns a * uns b + uns c = uns (a * b + c)" "uns a + 1 = uns (a + 1)"
  by (simp_all add: uns_def)

text \<open>The largest index of a triangle is \<open>w * (w + 1) + h\<close>, the largest index of an
  outline segment is \<open>h * (w + 1) + w\<close>; there are \<open>(w + 1) * (h + 1)\<close> vertices.\<close>

lemma Torus_bounds:
  fixes w h :: int
  assumes "0 \<le> w" and "0 \<le> h"
  shows "h * (w + 1) + w < (w + 1) * (h + 1)"
    and "w \<le> h \<Longrightarrow> w * (w + 1) + h < (w + 1) * (h + 1)"
    and "h < w \<Longrightarrow> (w + 1) * (h + 1) \<le> w * (w + 1) + h"
proof -
  have e: "(w + 1) * (h + 1) = w * h + w + h + 1" "w * (w + 1) + h = w * w + w + h"
    "h * (w + 1) + w = w * h + w + h"
    by (simp_all add: algebra_simps)
  show "h * (w + 1) + w < (w + 1) * (h + 1)"
    unfolding e by linarith
  show "w * (w + 1) + h < (w + 1) * (h + 1)" if "w \<le> h"
  proof -
    have "w * w \<le> w * h"
      using that assms(1) by (rule mult_left_mono)
    then show ?thesis
      unfolding e by linarith
  qed
  show "(w + 1) * (h + 1) \<le> w * (w + 1) + h" if "h < w"
  proof -
    have "h + 1 \<le> w" using that by linarith
    then have "w * (h + 1) \<le> w * w"
      using assms(1) by (rule mult_left_mono)
    moreover have "w * (h + 1) = w * h + w"
      by (simp add: algebra_simps)
    moreover have "1 \<le> w" using that assms(2) by linarith
    ultimately show ?thesis
      unfolding e by linarith
  qed
qed


lemma quarter_bounds:
  assumes "0 \<le> n" and "y \<in> set [0..3]"
  shows "0 \<le> y * n div 4" and "y * n div 4 \<le> n"
proof -
  have y: "0 \<le> y" "y \<le> 3" using assms(2) by simp_all
  then have nonneg: "0 \<le> y * n" using assms(1) by simp
  then show "0 \<le> y * n div 4" by simp
  have le: "y * n \<le> 3 * n"
    using y assms(1) by (intro mult_right_mono) simp_all
  have "z div 4 \<le> n" if "z \<le> 3 * n" "0 \<le> n" for z :: int
    using that by presburger
  from this [OF le assms(1)] show "y * n div 4 \<le> n" .
qed

lemma Torus_cell_all:
  assumes Q: "\<And>i. 0 \<le> i \<Longrightarrow> i \<le> w * (w + 1) + h \<Longrightarrow> Q (uns i)"
    and "0 \<le> latitude" "latitude < w" "0 \<le> longitude" "longitude < h"
  shows "list_all (\<lambda>(a, b, c). Q a \<and> Q b \<and> Q c) (Torus_cell (uns (w + 1)) latitude longitude)"
proof -
  have w: "0 \<le> w + 1" using assms(2,3) by linarith
  have lo: "0 \<le> latitude * (w + 1)"
    using assms(2) w by (rule mult_nonneg_nonneg)
  have "(latitude + 1) * (w + 1) \<le> w * (w + 1)"
    using assms(3) w by (intro mult_right_mono) linarith+
  moreover have step: "(latitude + 1) * (w + 1) = latitude * (w + 1) + (w + 1)"
    by (simp add: algebra_simps)
  ultimately have hi: "latitude * (w + 1) + (w + 1) \<le> w * (w + 1)"
    by simp
  have 1: "Q (uns (latitude * (w + 1) + longitude))"
    using lo hi assms(2-) by (intro Q) linarith+
  have 2: "Q (uns (latitude * (w + 1) + longitude + 1))"
    using lo hi assms(2-) by (intro Q) linarith+
  have 3: "Q (uns ((latitude + 1) * (w + 1) + longitude))"
    using lo hi assms(2-) unfolding step by (intro Q) linarith+
  have 4: "Q (uns ((latitude + 1) * (w + 1) + longitude + 1))"
    using lo hi assms(2-) unfolding step by (intro Q) linarith+
  have "list_all P [s, t] = (P s \<and> P t)" for P and s t :: uvec3
    by simp
  with 1 2 3 4 show ?thesis
    by (simp only: Torus_cell_def uns_sum prod.case simp_thms)
qed

lemma Torus_outline_all:
  assumes Q: "\<And>i. 0 \<le> i \<Longrightarrow> i \<le> h * (w + 1) + w \<Longrightarrow> Q (uns i)"
    and wh: "0 \<le> w" "0 \<le> h"
  shows "list_all (\<lambda>(a, b). Q a \<and> Q b) (Torus_outline w h (uns (w + 1)))"
proof -
  have w: "0 \<le> w + 1" using wh by linarith
  have outer: "Q (quarter y h * uns (w + 1) + uns longitude)
             \<and> Q (quarter y h * uns (w + 1) + uns longitude + 1)"
    if "longitude \<in> set [0..w - 1]" "y \<in> set [0..3]" for longitude y
  proof -
    have lon: "0 \<le> longitude" "longitude < w" using that(1) by simp_all
    note q = quarter_bounds [OF wh(2) that(2)]
    have lo: "0 \<le> y * h div 4 * (w + 1)"
      using q(1) w by (rule mult_nonneg_nonneg)
    have hi: "y * h div 4 * (w + 1) \<le> h * (w + 1)"
      using q(2) w by (rule mult_right_mono)
    have 1: "Q (uns (y * h div 4 * (w + 1) + longitude))"
      using lo hi lon by (intro Q) linarith+
    have 2: "Q (uns (y * h div 4 * (w + 1) + longitude + 1))"
      using lo hi lon by (intro Q) linarith+
    from 1 2 show ?thesis by (simp only: quarter_def uns_sum simp_thms)
  qed
  have inner: "Q (uns latitude * uns (w + 1) + quarter x w)
             \<and> Q ((uns latitude + 1) * uns (w + 1) + quarter x w)"
    if "x \<in> set [0..3]" "latitude \<in> set [0..h - 1]" for x latitude
  proof -
    have lat: "0 \<le> latitude" "latitude < h" using that(2) by simp_all
    note q = quarter_bounds [OF wh(1) that(1)]
    have lo: "0 \<le> latitude * (w + 1)"
      using lat(1) w by (rule mult_nonneg_nonneg)
    have "(latitude + 1) * (w + 1) \<le> h * (w + 1)"
      using lat(2) w by (intro mult_right_mono) linarith+
    moreover have step: "(latitude + 1) * (w + 1) = latitude * (w + 1) + (w + 1)"
      by (simp add: algebra_simps)
    ultimately have hi: "latitude * (w + 1) + (w + 1) \<le> h * (w + 1)"
      by simp
    have 1: "Q (uns (latitude * (w + 1) + x * w div 4))"
      using lo hi q wh by (intro Q) linarith+
    have 2: "Q (uns ((latitude + 1) * (w + 1) + x * w div 4))"
      using lo hi q wh unfolding step by (intro Q) linarith+
    from 1 2 show ?thesis by (simp only: quarter_def uns_sum simp_thms)
  qed
  show ?thesis
    unfolding Torus_outline_def Let_def list_all_append
    using outer inner
    by (intro conjI list_all_map_I list_all_concat_map) simp_all
qed


text \<open>\<open>Torus::add\<close> keeps the invariant when \<open>w \<le> h\<close>: its indices are not offset, so they
  name vertices of the mesh, though not those the call appended.\<close>

lemma Torus_add_indices_in_range:
  assumes "0 \<le> w" and "w \<le> h" and "indices_in_range geo"
  shows "\<exists>m. Torus_add G geo mat w h = Some m \<and> indices_in_range m"
proof -
  let ?n = "length (m_vertices geo)"
  let ?N = "?n + nat (w + 1) * nat (h + 1)"
  let ?Q = "\<lambda>a. 0 \<le> unat a \<and> unat a < ?N"
  have h: "0 \<le> h" using assms by linarith
  have K: "nat ((w + 1) * (h + 1)) = nat (w + 1) * nat (h + 1)"
    using assms(1) by (intro nat_mult_distrib) linarith
  have below: "?Q (uns i)" if "0 \<le> i" "i < (w + 1) * (h + 1)" for i
  proof -
    have "nat i < nat ((w + 1) * (h + 1))"
      using that by (simp only: nat_less_eq_zless)
    then show ?thesis
      using unat_uns_le [OF that(1)] unfolding K by linarith
  qed
  have Qt: "?Q (uns i)" if "0 \<le> i" "i \<le> w * (w + 1) + h" for i
    using that Torus_bounds(2) [OF assms(1) h assms(2)] by (intro below) linarith+
  have Ql: "?Q (uns i)" if "0 \<le> i" "i \<le> h * (w + 1) + w" for i
    using that Torus_bounds(1) [OF assms(1) h] by (intro below) linarith+
  have new_t: "list_all (tri_within 0 ?N)
      (concat (map (\<lambda>latitude. concat (map (\<lambda>longitude.
                      Torus_cell (uns (w + 1)) latitude longitude) [0..h - 1])) [0..w - 1]))"
    unfolding tri_within_eq
  proof (intro list_all_concat_map)
    fix latitude longitude
    assume "latitude \<in> set [0..w - 1]" and "longitude \<in> set [0..h - 1]"
    then show "list_all (\<lambda>(a, b, c). ?Q a \<and> ?Q b \<and> ?Q c)
                 (Torus_cell (uns (w + 1)) latitude longitude)"
      by (intro Torus_cell_all [where Q = ?Q and h = h, OF Qt]) simp_all
  qed
  have new_l: "list_all (line_within 0 ?N) (Torus_outline w h (uns (w + 1)))"
    unfolding line_within_eq by (rule Torus_outline_all [where Q = ?Q, OF Ql assms(1) h])
  have old: "list_all (tri_within 0 ?N) (m_indicesTriangles geo)"
    "list_all (line_within 0 ?N) (m_indicesOutline geo)"
    using indices_in_range_grow [OF assms(3), of ?N] by simp_all
  from old new_t new_l show ?thesis
    using assms(1) h
    by (simp add: Torus_add_def Let_def indices_in_range_def length_concat_const)
qed

text \<open>With more major than minor segments it breaks the invariant on the empty mesh (as long
  as the largest index fits 32 bits): the last triangle names the vertex
  \<open>w * (w + 1) + h\<close>, and there are only \<open>(w + 1) * (h + 1)\<close> vertices.\<close>

lemma mem_concat_map: "x \<in> set (f a) \<Longrightarrow> a \<in> set xs \<Longrightarrow> x \<in> set (concat (map f xs))"
  by auto

lemma Torus_add_breaks_invariant:
  assumes "1 \<le> h" and "h < w" and "w * (w + 1) + h < 2 ^ 32"
  shows "\<exists>m. Torus_add G empty_Mesh mat w h = Some m \<and> \<not> indices_in_range m"
proof -
  let ?K = "nat (w + 1) * nat (h + 1)"
  let ?cells = "concat (map (\<lambda>latitude. concat (map (\<lambda>longitude.
                      Torus_cell (uns (w + 1)) latitude longitude) [0..h - 1])) [0..w - 1])"
  let ?t = "((uns (w - 1) + 1) * uns (w + 1) + uns (h - 1), uns (w - 1) * uns (w + 1) + uns (h - 1) + 1,
             (uns (w - 1) + 1) * uns (w + 1) + uns (h - 1) + 1)"
  have w: "0 \<le> w" "0 \<le> h" using assms by linarith+
  have m: "Torus_add G empty_Mesh mat w h
           = Some (empty_Mesh\<lparr>m_vertices :=
                 concat (map (\<lambda>latitude. map (\<lambda>longitude.
                    Torus_vertex G (f_of_int G w) (f_of_int G h)
                      (f_div G (f_mul G (f_lit G 2) (f_pi G)) (f_of_int G w))
                      (f_div G (f_mul G (f_lit G 2) (f_pi G)) (f_of_int G h))
                      latitude longitude) [0..h]) [0..w]),
               m_indicesTriangles := ?cells,
               m_indicesOutline := Torus_outline w h (uns (w + 1))\<rparr>)"
    (is "_ = Some ?m")
    using w by (simp add: Torus_add_def Let_def empty_Mesh_def)
  have len: "length (m_vertices ?m) = ?K"
    by (simp add: length_concat_const)
  have "?t \<in> set (Torus_cell (uns (w + 1)) (w - 1) (h - 1))"
    by (simp only: Torus_cell_def list.set insert_iff simp_thms)
  moreover have "h - 1 \<in> set [0..h - 1]"
    using assms by simp
  ultimately have "?t \<in> set (concat (map (\<lambda>longitude. Torus_cell (uns (w + 1)) (w - 1) longitude)
                                        [0..h - 1]))"
    by (rule mem_concat_map)
  moreover have "w - 1 \<in> set [0..w - 1]"
    using assms by simp
  ultimately have mem: "?t \<in> set ?cells"
    by (rule mem_concat_map)
  have "(w - 1 + 1) * (w + 1) + (h - 1) + 1 = w * (w + 1) + h"
    by simp
  then have e: "(uns (w - 1) + 1) * uns (w + 1) + uns (h - 1) + 1 = uns (w * (w + 1) + h)"
    by (simp only: uns_sum)
  have nonneg: "0 \<le> w * (w + 1) + h"
  proof -
    have "0 \<le> w * (w + 1)"
      using w(1) by (intro mult_nonneg_nonneg) linarith+
    then show ?thesis using w(2) by linarith
  qed
  have "nat (w * (w + 1) + h) < nat (2 ^ 32)"
    using assms(3) nonneg by (simp only: nat_less_eq_zless)
  moreover have "nat (2 ^ 32) = (2 ^ 32 :: nat)"
    by simp
  ultimately have "nat (w * (w + 1) + h) < 2 ^ 32"
    by (simp only:)
  with nonneg have u: "unat (uns (w * (w + 1) + h)) = nat (w * (w + 1) + h)"
    by (rule unat_uns_eq)
  have "nat ((w + 1) * (h + 1)) = ?K"
    using w by (intro nat_mult_distrib) linarith
  moreover have "nat ((w + 1) * (h + 1)) \<le> nat (w * (w + 1) + h)"
    using Torus_bounds(3) [OF w assms(2)] by (rule nat_mono)
  ultimately have "?K \<le> unat ((uns (w - 1) + 1) * uns (w + 1) + uns (h - 1) + 1)"
    by (simp only: e u)
  then have "\<not> unat ((uns (w - 1) + 1) * uns (w + 1) + uns (h - 1) + 1) < ?K"
    by linarith
  then have "\<not> tri_within 0 ?K ?t"
    by (simp only: tri_within_def prod.case simp_thms)
  with mem have "\<not> list_all (tri_within 0 ?K) ?cells"
    unfolding list_all_iff by blast
  then have "\<not> indices_in_range ?m"
    unfolding indices_in_range_def len by simp
  with m show ?thesis by blast
qed

text \<open>
  C1 fails on the code.  \<open>Plane::add\<close>, \<open>Box::add\<close>, \<open>Sphere::add\<close>,
  \<open>RandomMengerSponge::add\<close>, \<open>flipWinding\<close> and \<open>append\<close> of another mesh keep every
  index below the vertex count (the lemmas \<open>..._indices_in_range\<close> above), and so does
  \<open>Torus::add\<close> when \<open>w \<le> h\<close>.  But \<open>Torus::add\<close> lays its vertices out in rows of
  \<open>h + 1\<close> and indexes them with \<open>columns = w + 1\<close>: on the empty mesh with \<open>w = 2\<close>,
  \<open>h = 1\<close> it pushes 6 vertices and four triangles, two of which name the vertices 6 and 7.
\<close>

theorem Torus_add_index_beyond_vertices:
  "map_option (\<lambda>m. (length (m_vertices m), m_indicesTriangles m))
     (Torus_add real_glm empty_Mesh (mat_ident real_glm) 2 1)
   = Some (6, [(0, 1, 3), (3, 1, 4), (3, 4, 6), (6, 4, 7)])"
  by (simp add: Torus_add_def Let_def Torus_cell_def uns_def empty_Mesh_def length_concat_const
      upto_rec1)

text \<open>
  C2 fails on the code.  \<open>Plane::add\<close>, \<open>Box::add\<close> and \<open>Sphere::add\<close> add the vertex
  count at call time to every index, so that what they append names the vertices of the
  same call (the lemmas \<open>..._appends_own_indices\<close> above).  \<open>Torus::add\<close> adds no
  offset: called with \<open>w = h = 1\<close> on the mesh of the one-cell plane (4 vertices) it appends
  4 vertices, and the two triangles it appends name the vertices 0 to 3, which are the
  plane's.
\<close>

theorem Torus_add_indices_without_offset:
  "map_option (\<lambda>m. (length (m_vertices m), drop 2 (m_indicesTriangles m)))
     (Torus_add real_glm (Plane_add real_glm empty_Mesh (mat_ident real_glm) 1 1)
        (mat_ident real_glm) 1 1)
   = Some (8, [(0, 1, 2), (2, 1, 3)])"
  by (simp add: Torus_add_def Let_def Torus_cell_def uns_def length_concat_const
      Plane_add_vertices_length Plane_add_triangles_length
      Plane_add_def [where geo = empty_Mesh] empty_Mesh_def upto_rec1)

subsection \<open>Totality\<close>

text \<open>
  The claim that \<open>append\<close> never fails does not hold for \<open>a.append(a)\<close>: for the four-vertex
  plane the first copy loop does not return.  Its bound \<open>geo.m_vertices.size()\<close> is the size
  of the vector it pushes to, so the counter never reaches it; the run ends only when
  \<open>push_back\<close> cannot allocate and throws \<open>std::bad_alloc\<close> or \<open>std::length_error\<close>.
  The specification describes \<open>append\<close> for another mesh; the claim does not say so.
\<close>

theorem append_self_never_returns:
  "append 0 0 (\<lambda>a. Plane_add real_glm empty_Mesh (mat_ident real_glm) 1 1) = None"
proof -
  have "length (m_vertices (Plane_add real_glm empty_Mesh (mat_ident real_glm) 1 1)) = 4"
    by (simp add: Plane_add_vertices_length empty_Mesh_def)
  then have "m_vertices (Plane_add real_glm empty_Mesh (mat_ident real_glm) 1 1) \<noteq> []"
    by auto
  then show ?thesis
    by (simp add: append_self)
qed

text \<open>
  The unsigned loops of \<open>Torus::add\<close>.  When the bound is the cast of a count between 0 and
  \<open>2^31\<close>, a loop runs its body for the counter values \<open>0, \<dots>, n\<close> (or \<open>n - 1\<close>) and ends;
  bodies that push to one vector add up to the list comprehension of \<open>Torus_add\<close>.  For
  \<open>w = -1\<close> the bound is \<open>2^32 - 1\<close> and the loop \<open>latitude <= (unsigned int)w\<close> does not end.
\<close>

lemma uns_uint [simp]: "uns (uint x) = x"
  by (simp add: uns_def)

lemma uint_uns: "0 \<le> i \<Longrightarrow> i < 2 ^ 32 \<Longrightarrow> uint (uns i) = i"
  unfolding uns_def by (simp add: uint_word_of_int take_bit_int_eq_self)

lemma uns_le_iff:
  "0 \<le> a \<Longrightarrow> a < 2 ^ 32 \<Longrightarrow> 0 \<le> b \<Longrightarrow> b < 2 ^ 32 \<Longrightarrow> uns a \<le> uns b \<longleftrightarrow> a \<le> b"
  by (simp add: word_le_def uint_uns)

lemma uns_less_iff:
  "0 \<le> a \<Longrightarrow> a < 2 ^ 32 \<Longrightarrow> 0 \<le> b \<Longrightarrow> b < 2 ^ 32 \<Longrightarrow> uns a < uns b \<longleftrightarrow> a < b"
  by (simp add: word_less_def uint_uns)



lemma loop_le_fold:
  assumes body: "\<And>j s. j \<le> uns N \<Longrightarrow> body j s = Some (g j s)"
    and N: "0 \<le> N" "N + 1 < 2 ^ 32"
  shows "0 \<le> i \<Longrightarrow> i \<le> N + 1 \<Longrightarrow>
         loop_le (uns i) (uns N) body s = Some (fold (\<lambda>j. g (uns j)) [i..N] s)"
proof (induction "nat (N + 1 - i)" arbitrary: i s)
  case 0
  then have i: "i = N + 1" by simp
  have "\<not> uns (N + 1) \<le> uns N"
    using 0 N i by (simp add: uns_le_iff)
  then show ?case
    unfolding i by (subst loop_le.simps) simp
next
  case (Suc k)
  then have i: "i \<le> N" by simp
  then have le: "uns i \<le> uns N"
    using Suc.prems N by (simp add: uns_le_iff)
  have "loop_le (uns (i + 1)) (uns N) body (g (uns i) s)
        = Some (fold (\<lambda>j. g (uns j)) [i + 1..N] (g (uns i) s))"
    using Suc.hyps(2) Suc.prems i by (intro Suc.hyps(1)) simp_all
  then show ?case
    using le i by (subst loop_le.simps) (simp add: body uns_sum(2) upto_rec1 [of i N])
qed

lemma loop_lt_fold:
  assumes body: "\<And>j s. j < uns N \<Longrightarrow> body j s = Some (g j s)"
    and N: "N < 2 ^ 32"
  shows "0 \<le> i \<Longrightarrow> i \<le> N \<Longrightarrow>
         loop_lt (uns i) (uns N) body s = Some (fold (\<lambda>j. g (uns j)) [i..N - 1] s)"
proof (induction "nat (N - i)" arbitrary: i s)
  case 0
  then have i: "i = N" by simp
  show ?case
    unfolding i by (subst loop_lt.simps) simp
next
  case (Suc k)
  then have i: "i < N" by simp
  then have lt: "uns i < uns N"
    using Suc.prems N by (simp add: uns_less_iff)
  have "loop_lt (uns (i + 1)) (uns N) body (g (uns i) s)
        = Some (fold (\<lambda>j. g (uns j)) [i + 1..N - 1] (g (uns i) s))"
    using Suc.hyps(2) Suc.prems i by (intro Suc.hyps(1)) simp_all
  then show ?case
    using lt i by (subst loop_lt.simps) (simp add: body uns_sum(2) upto_rec1 [of i "N - 1"])
qed

lemma fold_emit:
  assumes "\<And>s. upd [] s = s" and "\<And>xs ys s. upd ys (upd xs s) = upd (xs @ ys) s"
  shows "fold (\<lambda>j. upd (f j)) xs s = upd (concat (map f xs)) s"
proof (induction xs arbitrary: s)
  case Nil
  show ?case by (simp add: assms(1))
next
  case (Cons x xs)
  show ?case
    by (simp add: Cons assms(2))
qed

lemma fold_uint_uns:
  assumes "N < 2 ^ 32"
  shows "fold (\<lambda>j. upd (f (uint (uns j)))) [0..N] s = fold (\<lambda>j. upd (f j)) [0..N] s"
  using assms by (intro fold_cong) (simp_all add: uint_uns)

lemma uns_0: "uns 0 = 0"
  by (simp add: uns_def)

lemma loop_le_emit:
  assumes upd: "\<And>s. upd [] s = s" "\<And>xs ys s. upd ys (upd xs s) = upd (xs @ ys) s"
    and body: "\<And>j s. j \<le> uns N \<Longrightarrow> body j s = Some (upd (f (uint j)) s)"
    and N: "0 \<le> N" "N + 1 < 2 ^ 32"
  shows "loop_le 0 (uns N) body s = Some (upd (concat (map f [0..N])) s)"
proof -
  have "loop_le (uns 0) (uns N) body s = Some (fold (\<lambda>j. upd (f (uint (uns j)))) [0..N] s)"
    using N by (intro loop_le_fold [where g = "\<lambda>j. upd (f (uint j))"] body) simp_all
  also have "fold (\<lambda>j. upd (f (uint (uns j)))) [0..N] s = fold (\<lambda>j. upd (f j)) [0..N] s"
    using N by (intro fold_uint_uns) simp
  also have "\<dots> = upd (concat (map f [0..N])) s"
    by (rule fold_emit) (rule upd)+
  finally show ?thesis
    by (simp add: uns_0)
qed

lemma loop_lt_emit:
  assumes upd: "\<And>s. upd [] s = s" "\<And>xs ys s. upd ys (upd xs s) = upd (xs @ ys) s"
    and body: "\<And>j s. j < uns N \<Longrightarrow> body j s = Some (upd (f (uint j)) s)"
    and N: "0 \<le> N" "N < 2 ^ 32"
  shows "loop_lt 0 (uns N) body s = Some (upd (concat (map f [0..N - 1])) s)"
proof -
  have "loop_lt (uns 0) (uns N) body s = Some (fold (\<lambda>j. upd (f (uint (uns j)))) [0..N - 1] s)"
    using N by (intro loop_lt_fold [where g = "\<lambda>j. upd (f (uint j))"] body) simp_all
  also have "fold (\<lambda>j. upd (f (uint (uns j)))) [0..N - 1] s = fold (\<lambda>j. upd (f j)) [0..N - 1] s"
    using N by (intro fold_uint_uns) simp
  also have "\<dots> = upd (concat (map f [0..N - 1])) s"
    by (rule fold_emit) (rule upd)+
  finally show ?thesis
    by (simp add: uns_0)
qed

lemma quarter_checked_quarter:
  assumes "0 \<le> h" and "h < 2 ^ 31" and "y < 4"
  shows "quarter_checked y h = Some (quarter (uint y) h)"
proof -
  have y: "0 \<le> uint y" "uint y < 4"
    using assms(3) by (simp_all add: word_less_def)
  then have "uint y * h \<le> 4 * h"
    using assms(1) by (intro mult_right_mono) simp_all
  then have "uint y * h < 2 ^ 34"
    using assms(2) by simp
  moreover have "0 \<le> uint y * h"
    using y assms(1) by simp
  ultimately show ?thesis
    by (simp add: quarter_checked_def quarter_def c_div_nonneg)
qed


lemma uns_4: "uns 4 = 4"
  by (simp add: uns_def)

lemma Torus_vertex_loops:
  fixes G :: "('f, 'm, 'v) glm" and geo :: "'v Mesh"
  assumes "0 \<le> w" and "w < 2 ^ 31" and "0 \<le> h" and "h < 2 ^ 31"
  shows "loop_le 0 (uns w) (\<lambda>latitude.
           loop_le 0 (uns h) (\<lambda>longitude geo.
             Some (geo\<lparr>m_vertices := m_vertices geo
                @ [Torus_vertex G a b c d (uint latitude) (uint longitude)]\<rparr>))) geo
         = Some (geo\<lparr>m_vertices := m_vertices geo
             @ concat (map (\<lambda>latitude. map (\<lambda>longitude. Torus_vertex G a b c d latitude longitude)
                                        [0..h]) [0..w])\<rparr>)"
proof -
  define upd :: "'v list \<Rightarrow> 'v Mesh \<Rightarrow> 'v Mesh"
    where "upd = (\<lambda>xs s. s\<lparr>m_vertices := m_vertices s @ xs\<rparr>)"
  have upd: "\<And>s. upd [] s = s" "\<And>xs ys s. upd ys (upd xs s) = upd (xs @ ys) s"
    by (simp_all add: upd_def)
  have inner: "loop_le 0 (uns h) (\<lambda>longitude geo.
             Some (geo\<lparr>m_vertices := m_vertices geo
                @ [Torus_vertex G a b c d (uint latitude) (uint longitude)]\<rparr>)) s
        = Some (upd (concat (map (\<lambda>longitude. [Torus_vertex G a b c d (uint latitude) longitude])
                       [0..h])) s)" for latitude s
    using assms
    by (intro loop_le_emit [where upd = upd
          and f = "\<lambda>longitude. [Torus_vertex G a b c d (uint latitude) longitude]"] upd)
       (simp_all add: upd_def)
  have "loop_le 0 (uns w) (\<lambda>latitude.
           loop_le 0 (uns h) (\<lambda>longitude geo.
             Some (geo\<lparr>m_vertices := m_vertices geo
                @ [Torus_vertex G a b c d (uint latitude) (uint longitude)]\<rparr>))) geo
        = Some (upd (concat (map (\<lambda>latitude.
                   concat (map (\<lambda>longitude. [Torus_vertex G a b c d latitude longitude]) [0..h]))
                 [0..w])) geo)"
    using assms
    by (intro loop_le_emit [where upd = upd
          and f = "\<lambda>latitude. concat (map (\<lambda>longitude. [Torus_vertex G a b c d latitude longitude])
                     [0..h])"] upd)
       (simp_all add: inner)
  then show ?thesis
    by (simp add: upd_def)
qed

lemma Torus_triangle_loops:
  fixes geo :: "'v Mesh"
  assumes "0 \<le> w" and "w < 2 ^ 31" and "0 \<le> h" and "h < 2 ^ 31"
  shows "loop_lt 0 (uns w) (\<lambda>latitude.
           loop_lt 0 (uns h) (\<lambda>longitude geo.
             Some (geo\<lparr>m_indicesTriangles := m_indicesTriangles geo
                @ [(latitude * columns + longitude, latitude * columns + longitude + 1,
                    (latitude + 1) * columns + longitude),
                   ((latitude + 1) * columns + longitude, latitude * columns + longitude + 1,
                    (latitude + 1) * columns + longitude + 1)]\<rparr>))) geo
         = Some (geo\<lparr>m_indicesTriangles := m_indicesTriangles geo
             @ concat (map (\<lambda>latitude. concat (map (\<lambda>longitude.
                          Torus_cell columns latitude longitude) [0..h - 1])) [0..w - 1])\<rparr>)"
proof -
  define upd :: "uvec3 list \<Rightarrow> 'v Mesh \<Rightarrow> 'v Mesh"
    where "upd = (\<lambda>xs s. s\<lparr>m_indicesTriangles := m_indicesTriangles s @ xs\<rparr>)"
  have upd: "\<And>s. upd [] s = s" "\<And>xs ys s. upd ys (upd xs s) = upd (xs @ ys) s"
    by (simp_all add: upd_def)
  have inner: "loop_lt 0 (uns h) (\<lambda>longitude geo.
             Some (geo\<lparr>m_indicesTriangles := m_indicesTriangles geo
                @ [(latitude * columns + longitude, latitude * columns + longitude + 1,
                    (latitude + 1) * columns + longitude),
                   ((latitude + 1) * columns + longitude, latitude * columns + longitude + 1,
                    (latitude + 1) * columns + longitude + 1)]\<rparr>)) s
        = Some (upd (concat (map (\<lambda>longitude. Torus_cell columns (uint latitude) longitude)
                       [0..h - 1])) s)" for latitude s
    using assms
    by (intro loop_lt_emit [where upd = upd
          and f = "\<lambda>longitude. Torus_cell columns (uint latitude) longitude"] upd)
       (simp_all add: upd_def Torus_cell_def)
  have "loop_lt 0 (uns w) (\<lambda>latitude.
           loop_lt 0 (uns h) (\<lambda>longitude geo.
             Some (geo\<lparr>m_indicesTriangles := m_indicesTriangles geo
                @ [(latitude * columns + longitude, latitude * columns + longitude + 1,
                    (latitude + 1) * columns + longitude),
                   ((latitude + 1) * columns + longitude, latitude * columns + longitude + 1,
                    (latitude + 1) * columns + longitude + 1)]\<rparr>))) geo
        = Some (upd (concat (map (\<lambda>latitude. concat (map (\<lambda>longitude.
                          Torus_cell columns latitude longitude) [0..h - 1])) [0..w - 1])) geo)"
    using assms
    by (intro loop_lt_emit [where upd = upd
          and f = "\<lambda>latitude. concat (map (\<lambda>longitude.
                          Torus_cell columns latitude longitude) [0..h - 1])"] upd)
       (simp_all add: inner)
  then show ?thesis
    by (simp add: upd_def)
qed

lemma Torus_outline_loops_1:
  fixes geo :: "'v Mesh"
  assumes "0 \<le> w" and "w < 2 ^ 31" and "0 \<le> h" and "h < 2 ^ 31"
  shows "loop_lt 0 (uns w) (\<lambda>longitude.
           loop_lt 0 4 (\<lambda>y geo.
             case quarter_checked y h of
               None \<Rightarrow> None
             | Some latitude \<Rightarrow>
                 Some (geo\<lparr>m_indicesOutline := m_indicesOutline geo
                    @ [(latitude * columns + longitude,
                        latitude * columns + longitude + 1)]\<rparr>))) geo
         = Some (geo\<lparr>m_indicesOutline := m_indicesOutline geo
             @ concat (map (\<lambda>longitude.
                    map (\<lambda>y. let latitude = quarter y h
                             in (latitude * columns + uns longitude,
                                 latitude * columns + uns longitude + 1)) [0..3])
                 [0..w - 1])\<rparr>)"
proof -
  define upd :: "uvec2 list \<Rightarrow> 'v Mesh \<Rightarrow> 'v Mesh"
    where "upd = (\<lambda>xs s. s\<lparr>m_indicesOutline := m_indicesOutline s @ xs\<rparr>)"
  have upd: "\<And>s. upd [] s = s" "\<And>xs ys s. upd ys (upd xs s) = upd (xs @ ys) s"
    by (simp_all add: upd_def)
  have "loop_lt 0 (uns 4) (\<lambda>y geo.
             case quarter_checked y h of
               None \<Rightarrow> None
             | Some latitude \<Rightarrow>
                 Some (geo\<lparr>m_indicesOutline := m_indicesOutline geo
                    @ [(latitude * columns + longitude,
                        latitude * columns + longitude + 1)]\<rparr>)) s
        = Some (upd (concat (map (\<lambda>y. [(quarter y h * columns + longitude,
                                         quarter y h * columns + longitude + 1)])
                       [0..4 - 1])) s)" for longitude s
    using assms
    by (intro loop_lt_emit [where upd = upd
          and f = "\<lambda>y. [(quarter y h * columns + longitude,
                          quarter y h * columns + longitude + 1)]"] upd)
       (simp_all add: upd_def uns_4 quarter_checked_quarter)
  then have inner: "loop_lt 0 4 (\<lambda>y geo.
             case quarter_checked y h of
               None \<Rightarrow> None
             | Some latitude \<Rightarrow>
                 Some (geo\<lparr>m_indicesOutline := m_indicesOutline geo
                    @ [(latitude * columns + longitude,
                        latitude * columns + longitude + 1)]\<rparr>)) s
        = Some (upd (map (\<lambda>y. (quarter y h * columns + longitude,
                                quarter y h * columns + longitude + 1)) [0..3]) s)"
    for longitude s
    by (simp add: uns_4 concat_map_singleton)
  have "loop_lt 0 (uns w) (\<lambda>longitude.
           loop_lt 0 4 (\<lambda>y geo.
             case quarter_checked y h of
               None \<Rightarrow> None
             | Some latitude \<Rightarrow>
                 Some (geo\<lparr>m_indicesOutline := m_indicesOutline geo
                    @ [(latitude * columns + longitude,
                        latitude * columns + longitude + 1)]\<rparr>))) geo
        = Some (upd (concat (map (\<lambda>longitude.
                    map (\<lambda>y. (quarter y h * columns + uns longitude,
                              quarter y h * columns + uns longitude + 1)) [0..3])
                 [0..w - 1])) geo)"
    using assms
    by (intro loop_lt_emit [where upd = upd
          and f = "\<lambda>longitude. map (\<lambda>y. (quarter y h * columns + uns longitude,
                              quarter y h * columns + uns longitude + 1)) [0..3]"] upd)
       (simp_all add: inner)
  then show ?thesis
    by (simp add: upd_def Let_def)
qed

lemma Torus_outline_loops_2:
  fixes geo :: "'v Mesh"
  assumes "0 \<le> w" and "w < 2 ^ 31" and "0 \<le> h" and "h < 2 ^ 31"
  shows "loop_lt 0 4 (\<lambda>x.
           loop_lt 0 (uns h) (\<lambda>latitude geo.
             case quarter_checked x w of
               None \<Rightarrow> None
             | Some longitude \<Rightarrow>
                 Some (geo\<lparr>m_indicesOutline := m_indicesOutline geo
                    @ [(latitude * columns + longitude,
                        (latitude + 1) * columns + longitude)]\<rparr>))) geo
         = Some (geo\<lparr>m_indicesOutline := m_indicesOutline geo
             @ concat (map (\<lambda>x.
                    map (\<lambda>latitude. let longitude = quarter x w
                                    in (uns latitude * columns + longitude,
                                        (uns latitude + 1) * columns + longitude)) [0..h - 1])
                   [0..3])\<rparr>)"
proof -
  define upd :: "uvec2 list \<Rightarrow> 'v Mesh \<Rightarrow> 'v Mesh"
    where "upd = (\<lambda>xs s. s\<lparr>m_indicesOutline := m_indicesOutline s @ xs\<rparr>)"
  have upd: "\<And>s. upd [] s = s" "\<And>xs ys s. upd ys (upd xs s) = upd (xs @ ys) s"
    by (simp_all add: upd_def)
  have inner: "loop_lt 0 (uns h) (\<lambda>latitude geo.
             case quarter_checked x w of
               None \<Rightarrow> None
             | Some longitude \<Rightarrow>
                 Some (geo\<lparr>m_indicesOutline := m_indicesOutline geo
                    @ [(latitude * columns + longitude,
                        (latitude + 1) * columns + longitude)]\<rparr>)) s
        = Some (upd (concat (map (\<lambda>latitude. [(uns latitude * columns + quarter (uint x) w,
                                   (uns latitude + 1) * columns + quarter (uint x) w)])
                       [0..h - 1])) s)" if "x < 4" for x s
    using assms that
    by (intro loop_lt_emit [where upd = upd
          and f = "\<lambda>latitude. [(uns latitude * columns + quarter (uint x) w,
                                   (uns latitude + 1) * columns + quarter (uint x) w)]"] upd)
       (simp_all add: upd_def quarter_checked_quarter)
  have "loop_lt 0 (uns 4) (\<lambda>x.
           loop_lt 0 (uns h) (\<lambda>latitude geo.
             case quarter_checked x w of
               None \<Rightarrow> None
             | Some longitude \<Rightarrow>
                 Some (geo\<lparr>m_indicesOutline := m_indicesOutline geo
                    @ [(latitude * columns + longitude,
                        (latitude + 1) * columns + longitude)]\<rparr>))) geo
        = Some (upd (concat (map (\<lambda>x.
                    map (\<lambda>latitude. (uns latitude * columns + quarter x w,
                                      (uns latitude + 1) * columns + quarter x w)) [0..h - 1])
                   [0..4 - 1])) geo)"
    by (intro loop_lt_emit [where upd = upd
          and f = "\<lambda>x. map (\<lambda>latitude. (uns latitude * columns + quarter x w,
                                      (uns latitude + 1) * columns + quarter x w)) [0..h - 1]"] upd)
       (simp_all add: inner uns_4 concat_map_singleton)
  then show ?thesis
    by (simp add: upd_def Let_def uns_4)
qed

lemma Torus_add_loops_eq:
  assumes "0 \<le> w" and "w < 2 ^ 31" and "0 \<le> h" and "h < 2 ^ 31"
  shows "Torus_add_loops G geo mat w h = Torus_add G geo mat w h"
  using assms
  by (simp add: Torus_add_loops_def Torus_add_def Let_def Torus_vertex_loops Torus_triangle_loops
      Torus_outline_loops_1 Torus_outline_loops_2 Torus_outline_def)


lemma loop_le_unbounded:
  assumes "loop_le i n body s = Some y"
  shows "n \<noteq> - 1"
  using assms
proof (rule loop_le.raw_induct [where P = "\<lambda>i n body s y. n \<noteq> - 1", rotated])
  fix f :: "u32 \<Rightarrow> u32 \<Rightarrow> (u32 \<Rightarrow> 'a \<Rightarrow> 'a option) \<Rightarrow> 'a \<Rightarrow> 'a option" and i n body s y
  assume IH: "\<And>i n body s y. f i n body s = Some y \<Longrightarrow> n \<noteq> - 1"
    and eq: "(if i \<le> n then Option.bind (body i s) (f (i + 1) n body) else Some s) = Some y"
  show "n \<noteq> - 1"
  proof (cases "i \<le> n")
    case True
    with eq obtain s' where "f (i + 1) n body s' = Some y"
      by (auto simp: bind_eq_Some_conv)
    then show ?thesis by (rule IH)
  next
    case False
    then show ?thesis by auto
  qed
qed

lemma Torus_add_loops_minus_one:
  fixes G :: "('f, 'm, 'v) glm" and geo :: "'v Mesh"
  shows "Torus_add_loops G geo mat (- 1) h = None"
proof -
  have "loop_le 0 (uns (- 1)) body s = None" for body :: "u32 \<Rightarrow> 'v Mesh \<Rightarrow> 'v Mesh option" and s
    using loop_le_unbounded [of 0 "uns (- 1)" body s]
    by (cases "loop_le 0 (uns (- 1)) body s") (auto simp: uns_def)
  then show ?thesis
    by (simp add: Torus_add_loops_def Let_def)
qed

lemma flipWinding_loop_fold:
  "i \<le> length ts \<Longrightarrow>
   flipWinding_loop i ts = Some (fold (\<lambda>i ts. ts[i := swap_xz (ts ! i)]) [i..<length ts] ts)"
proof (induction "length ts - i" arbitrary: i ts)
  case 0
  then show ?case
    by (subst flipWinding_loop.simps) simp
next
  case (Suc n)
  then have lt: "i < length ts" by simp
  have "flipWinding_loop (i + 1) (ts[i := swap_xz (ts ! i)])
        = Some (fold (\<lambda>i ts. ts[i := swap_xz (ts ! i)])
                  [i + 1..<length (ts[i := swap_xz (ts ! i)])] (ts[i := swap_xz (ts ! i)]))"
    using Suc.hyps(2) lt by (intro Suc.hyps(1)) simp_all
  then show ?case
    using lt by (subst flipWinding_loop.simps) (simp add: upt_conv_Cons)
qed

lemma flipWinding_loops_eq: "flipWinding_loops m = Some (flipWinding m)"
  by (simp add: flipWinding_loops_def flipWinding_def flipWinding_loop_fold)

text \<open>
  Division by zero.  With counts \<open>\<ge> 1\<close> every vertex that a generator appends is free of
  divisions by zero; with a count of 0 the vertices of \<open>Plane::add\<close> are not.
\<close>

lemmas checked_simps = checked_glm_def lift1_def lift2_def checked_div_def checked_less_def
  vec3_value_def vec4_value_def vec4_checked_def checked_mat_vec_def checked_mat_mul_def
  checked_rotate_def checked_translate_def checked_scale_def no_division_by_zero_def

lemma Plane_vertex_checked:
  assumes "1 \<le> w" and "1 \<le> h"
  shows "no_division_by_zero
           (Plane_vertex checked_glm (Some M)
              (f_div checked_glm (f_lit checked_glm 1) (f_of_int checked_glm w))
              (f_div checked_glm (f_lit checked_glm 1) (f_of_int checked_glm h)) x y)"
  using assms
  by (simp add: Plane_vertex_def Plane_local_def Vertex_ctor_def Let_def checked_simps
      split: prod.splits)

lemma Plane_add_checked_bites:
  "\<not> list_all no_division_by_zero (m_vertices (Plane_add checked_glm empty_Mesh (Some rmat_ident) 0 1))"
  by (simp add: Plane_add_def Plane_vertex_def Plane_local_def Vertex_ctor_def Let_def checked_simps
      empty_Mesh_def upto_rec1 split: prod.splits)


lemma fold_invariant:
  "(\<And>x s. x \<in> set xs \<Longrightarrow> Q s \<Longrightarrow> Q (f x s)) \<Longrightarrow> Q s \<Longrightarrow> Q (fold f xs s)"
  by (induction xs arbitrary: s) simp_all

lemma Plane_add_checked:
  assumes "1 \<le> w" and "1 \<le> h" and "n \<le> length (m_vertices geo)"
    and "list_all no_division_by_zero (drop n (m_vertices geo))"
  shows "n \<le> length (m_vertices (Plane_add checked_glm geo (Some M) w h))
       \<and> list_all no_division_by_zero
           (drop n (m_vertices (Plane_add checked_glm geo (Some M) w h)))"
proof -
  have "list_all no_division_by_zero
          (concat (map (\<lambda>y. map (\<lambda>x. Plane_vertex checked_glm (Some M)
              (f_div checked_glm (f_lit checked_glm 1) (f_of_int checked_glm w))
              (f_div checked_glm (f_lit checked_glm 1) (f_of_int checked_glm h)) x y) [0..w])
            [0..h]))"
    using Plane_vertex_checked [OF assms(1,2)]
    by (intro list_all_concat_map list_all_map_I)
  then show ?thesis
    using assms(3,4) by (simp add: Plane_add_def Let_def)
qed

lemma Sphere_vertex_checked:
  assumes "1 \<le> w" and "1 \<le> h"
  shows "no_division_by_zero
           (Sphere_vertex checked_glm (Some M)
              (f_div checked_glm (f_lit checked_glm 1) (f_of_int checked_glm w))
              (f_div checked_glm (f_lit checked_glm 1) (f_of_int checked_glm h)) xy z)"
  using assms
  by (simp add: Sphere_vertex_def Sphere_local_def Vertex_ctor_def Let_def checked_simps
      split: prod.splits)

lemma Sphere_add_checked:
  assumes "1 \<le> w" and "1 \<le> h" and "n \<le> length (m_vertices geo)"
    and "list_all no_division_by_zero (drop n (m_vertices geo))"
  shows "n \<le> length (m_vertices (Sphere_add checked_glm geo (Some M) w h))
       \<and> list_all no_division_by_zero
           (drop n (m_vertices (Sphere_add checked_glm geo (Some M) w h)))"
proof -
  have "list_all no_division_by_zero
          (concat (map (\<lambda>z. map (\<lambda>xy. Sphere_vertex checked_glm (Some M)
              (f_div checked_glm (f_lit checked_glm 1) (f_of_int checked_glm w))
              (f_div checked_glm (f_lit checked_glm 1) (f_of_int checked_glm h)) xy z) [0..w])
            [0..h]))"
    using Sphere_vertex_checked [OF assms(1,2)]
    by (intro list_all_concat_map list_all_map_I)
  then show ?thesis
    using assms(3,4) by (simp add: Sphere_add_def Let_def)
qed

lemma Torus_vertex_checked:
  assumes "1 \<le> w" and "1 \<le> h"
  shows "no_division_by_zero
           (Torus_vertex checked_glm (f_of_int checked_glm w) (f_of_int checked_glm h)
              (f_div checked_glm (f_mul checked_glm (f_lit checked_glm 2) (f_pi checked_glm))
                 (f_of_int checked_glm w))
              (f_div checked_glm (f_mul checked_glm (f_lit checked_glm 2) (f_pi checked_glm))
                 (f_of_int checked_glm h))
              latitude longitude)"
  using assms
  by (simp add: Torus_vertex_def Vertex_ctor_def Let_def checked_simps split: prod.splits)

lemma Torus_add_checked:
  assumes "1 \<le> w" and "1 \<le> h" and "n \<le> length (m_vertices geo)"
    and "list_all no_division_by_zero (drop n (m_vertices geo))"
  shows "\<exists>m. Torus_add checked_glm geo mat w h = Some m
             \<and> list_all no_division_by_zero (drop n (m_vertices m))"
proof -
  have "list_all no_division_by_zero
          (concat (map (\<lambda>latitude. map (\<lambda>longitude.
              Torus_vertex checked_glm (f_of_int checked_glm w) (f_of_int checked_glm h)
                (f_div checked_glm (f_mul checked_glm (f_lit checked_glm 2) (f_pi checked_glm))
                   (f_of_int checked_glm w))
                (f_div checked_glm (f_mul checked_glm (f_lit checked_glm 2) (f_pi checked_glm))
                   (f_of_int checked_glm h))
                latitude longitude) [0..h]) [0..w]))"
    using Torus_vertex_checked [OF assms(1,2)]
    by (intro list_all_concat_map list_all_map_I)
  then show ?thesis
    using assms by (simp add: Torus_add_def Let_def)
qed

lemma Box_matrix_checked:
  "side \<in> {0, 1, 2, 3, 4, 5} \<Longrightarrow>
   mat_mul checked_glm (mat_mul checked_glm (Some M) (Box_matrixRot checked_glm side))
          (translate checked_glm (mat_ident checked_glm)
             (f_lit checked_glm 0, f_lit checked_glm 0, f_lit checked_glm 1)) \<noteq> None"
  by (auto simp: Box_matrixRot_def Let_def checked_simps simp del: not_None_eq split_paired_Ex)

lemma Box_side_checked:
  assumes "1 \<le> w" and "1 \<le> h" and "1 \<le> d" and "side \<in> {0, 1, 2, 3, 4, 5}"
    and "n \<le> length (m_vertices geo)"
    and "list_all no_division_by_zero (drop n (m_vertices geo))"
  shows "n \<le> length (m_vertices (Box_side checked_glm (Some M) w h d side geo))
       \<and> list_all no_division_by_zero
           (drop n (m_vertices (Box_side checked_glm (Some M) w h d side geo)))"
proof -
  obtain M' where M': "mat_mul checked_glm (mat_mul checked_glm (Some M) (Box_matrixRot checked_glm side))
          (translate checked_glm (mat_ident checked_glm)
             (f_lit checked_glm 0, f_lit checked_glm 0, f_lit checked_glm 1)) = Some M'"
    using Box_matrix_checked [OF assms(4), of M] by (auto simp only: not_None_eq)
  have "1 \<le> fst (Box_configs w h d ! nat side)" "1 \<le> snd (Box_configs w h d ! nat side)"
    using assms(1-4) by (auto simp: Box_configs_def)
  from Plane_add_checked [OF this assms(5,6), of M'] show ?thesis
    by (simp add: Box_side_def Let_def M')
qed

lemma Box_add_checked:
  assumes "1 \<le> w" and "1 \<le> h" and "1 \<le> d" and "n \<le> length (m_vertices geo)"
    and "list_all no_division_by_zero (drop n (m_vertices geo))"
  shows "n \<le> length (m_vertices (Box_add checked_glm geo (Some M) w h d))
       \<and> list_all no_division_by_zero
           (drop n (m_vertices (Box_add checked_glm geo (Some M) w h d)))"
  unfolding Box_add_def
proof (rule fold_invariant [where Q = "\<lambda>g. n \<le> length (m_vertices g)
       \<and> list_all no_division_by_zero (drop n (m_vertices g))"])
  show "n \<le> length (m_vertices geo) \<and> list_all no_division_by_zero (drop n (m_vertices geo))"
    using assms(4,5) by simp
next
  fix side :: int and g :: "cfloat Vertex Mesh"
  assume "side \<in> set [0, 1, 2, 3, 4, 5]"
    and "n \<le> length (m_vertices g) \<and> list_all no_division_by_zero (drop n (m_vertices g))"
  then show "n \<le> length (m_vertices (Box_side checked_glm (Some M) w h d side g))
       \<and> list_all no_division_by_zero
           (drop n (m_vertices (Box_side checked_glm (Some M) w h d side g)))"
    using assms(1-3) by (intro Box_side_checked) simp_all
qed


lemma Cube_sub_checked:
  assumes "cube_defined c"
  shows "cube_defined (Cube_sub checked_glm c (f_div checked_glm (m_size c) (f_lit checked_glm 3)) cell)"
  using assms
  by (auto simp: cube_defined_def Cube_sub_def checked_simps split: prod.splits option.splits)

lemma Cube_split_checked:
  assumes "cube_defined c" and "list_all cube_defined cubes"
  shows "list_all cube_defined (Cube_split checked_glm c cubes)"
  using assms Cube_sub_checked [OF assms(1)]
  by (simp add: Cube_split_def Let_def list_all_map_I)

lemma Cube_splitProb_checked:
  assumes "cube_defined c" and "list_all cube_defined (snd st)"
  shows "list_all cube_defined (snd (Cube_splitProb checked_glm c prob st))"
  unfolding Cube_splitProb_def Let_def
proof (intro fold_invariant [where Q = "\<lambda>st. list_all cube_defined (snd st)"])
  show "list_all cube_defined (snd st)" by (rule assms(2))
next
  fix x y z :: int and s :: "rand_state \<times> cfloat Cube list"
  assume "list_all cube_defined (snd s)"
  then show "list_all cube_defined
      (snd (case s of (rng, cubes) \<Rightarrow>
         case rand rng of (r, rng') \<Rightarrow>
           if f_less checked_glm prob
                (f_div checked_glm (f_of_int checked_glm r) (f_of_int checked_glm (RAND_MAX checked_glm)))
           then (rng', cubes)
           else (rng', cubes @ [Cube_sub checked_glm c
                                  (f_div checked_glm (m_size c) (f_lit checked_glm 3)) (x, y, z)])))"
    using Cube_sub_checked [OF assms(1), of "(x, y, z)"]
    by (simp add: case_prod_beta)
qed

lemma Sponge_level_checked:
  assumes "list_all cube_defined (fst (snd st))" and "list_all cube_defined (snd (snd st))"
  shows "list_all cube_defined (fst (snd (Sponge_level checked_glm probability st)))
       \<and> list_all cube_defined (snd (snd (Sponge_level checked_glm probability st)))"
proof -
  obtain rng previous nxt where st: "st = (rng, previous, nxt)"
    by (cases st) auto
  have "list_all cube_defined
          (snd (fold (\<lambda>c (rng, nxt).
                        if f_less checked_glm probability (f_lit checked_glm 0)
                        then (rng, Cube_split checked_glm c nxt)
                        else Cube_splitProb checked_glm c probability (rng, nxt))
                  previous (rng, nxt)))"
  proof (rule fold_invariant [where Q = "\<lambda>s. list_all cube_defined (snd s)"])
    show "list_all cube_defined (snd (rng, nxt))"
      using assms(2) st by simp
  next
    fix c and s :: "rand_state \<times> cfloat Cube list"
    assume "c \<in> set previous" and s: "list_all cube_defined (snd s)"
    then have c: "cube_defined c"
      using assms(1) st by (simp add: list_all_iff)
    show "list_all cube_defined
            (snd (case s of (rng, nxt) \<Rightarrow>
                    if f_less checked_glm probability (f_lit checked_glm 0)
                    then (rng, Cube_split checked_glm c nxt)
                    else Cube_splitProb checked_glm c probability (rng, nxt)))"
      using Cube_split_checked [OF c] Cube_splitProb_checked [OF c, of s probability] s
      by (cases s) simp
  qed
  then show ?thesis
    by (simp add: Sponge_level_def st case_prod_beta)
qed

lemma Sponge_cubes_checked:
  "list_all cube_defined (fst (snd (Sponge_cubes checked_glm level probability rng)))"
proof -
  have "list_all cube_defined (fst (snd (Sponge_cubes checked_glm level probability rng)))
      \<and> list_all cube_defined (snd (snd (Sponge_cubes checked_glm level probability rng)))"
    unfolding Sponge_cubes_def Let_def
  proof (rule fold_invariant [where Q = "\<lambda>st. list_all cube_defined (fst (snd st))
                                            \<and> list_all cube_defined (snd (snd st))"])
    show "list_all cube_defined (fst (snd (rng,
            [\<lparr>m_topLeftFront = (f_lit checked_glm (- 1 / 4), f_lit checked_glm (- 1 / 4),
                                 f_lit checked_glm (- 1 / 4)),
              m_size = f_lit checked_glm (1 / 2)\<rparr>], [])))
        \<and> list_all cube_defined (snd (snd (rng,
            [\<lparr>m_topLeftFront = (f_lit checked_glm (- 1 / 4), f_lit checked_glm (- 1 / 4),
                                 f_lit checked_glm (- 1 / 4)),
              m_size = f_lit checked_glm (1 / 2)\<rparr>], [])))"
      by (simp add: cube_defined_def checked_simps)
  next
    fix i :: int and st :: "rand_state \<times> cfloat Cube list \<times> cfloat Cube list"
    assume "list_all cube_defined (fst (snd st)) \<and> list_all cube_defined (snd (snd st))"
    then show "list_all cube_defined (fst (snd (Sponge_level checked_glm probability st)))
       \<and> list_all cube_defined (snd (snd (Sponge_level checked_glm probability st)))"
      by (intro Sponge_level_checked) simp_all
  qed
  then show ?thesis by simp
qed

lemma Sponge_box_checked:
  assumes "cube_defined c" and "n \<le> length (m_vertices geo)"
    and "list_all no_division_by_zero (drop n (m_vertices geo))"
  shows "n \<le> length (m_vertices (Sponge_box checked_glm c geo))
       \<and> list_all no_division_by_zero (drop n (m_vertices (Sponge_box checked_glm c geo)))"
proof -
  have "mat_mul checked_glm (translate checked_glm (mat_ident checked_glm) (m_topLeftFront c))
          (scale checked_glm (mat_ident checked_glm) (m_size c, m_size c, m_size c)) \<noteq> None"
    using assms(1)
    by (auto simp: cube_defined_def checked_simps split: prod.splits option.splits
        simp del: not_None_eq split_paired_Ex)
  then obtain M where "mat_mul checked_glm (translate checked_glm (mat_ident checked_glm) (m_topLeftFront c))
          (scale checked_glm (mat_ident checked_glm) (m_size c, m_size c, m_size c)) = Some M"
    by (auto simp only: not_None_eq)
  then show ?thesis
    using Box_add_checked [of 1 1 1 n geo M] assms(2,3)
    by (simp add: Sponge_box_def Let_def)
qed

lemma RandomMengerSponge_add_checked:
  assumes "n \<le> length (m_vertices geo)"
    and "list_all no_division_by_zero (drop n (m_vertices geo))"
  shows "list_all no_division_by_zero
           (drop n (m_vertices (fst (RandomMengerSponge_add checked_glm geo rng mat w h d level
                                        probability))))"
proof -
  have "n \<le> length (m_vertices (fold (Sponge_box checked_glm) cubes geo))
      \<and> list_all no_division_by_zero (drop n (m_vertices (fold (Sponge_box checked_glm) cubes geo)))"
    if "list_all cube_defined cubes" for cubes
  proof (rule fold_invariant [where Q = "\<lambda>g. n \<le> length (m_vertices g)
       \<and> list_all no_division_by_zero (drop n (m_vertices g))"])
    show "n \<le> length (m_vertices geo) \<and> list_all no_division_by_zero (drop n (m_vertices geo))"
      using assms by simp
  next
    fix c and g :: "cfloat Vertex Mesh"
    assume "c \<in> set cubes"
      and "n \<le> length (m_vertices g) \<and> list_all no_division_by_zero (drop n (m_vertices g))"
    then show "n \<le> length (m_vertices (Sponge_box checked_glm c g))
       \<and> list_all no_division_by_zero (drop n (m_vertices (Sponge_box checked_glm c g)))"
      using that by (intro Sponge_box_checked) (simp_all add: list_all_iff)
  qed
  from this [OF Sponge_cubes_checked [of level probability rng]] show ?thesis
    by (simp add: RandomMengerSponge_add_def case_prod_beta)
qed

lemma sample_checked:
  "f_div checked_glm (f_of_int checked_glm r) (f_of_int checked_glm (RAND_MAX checked_glm)) \<noteq> None"
  by (simp add: checked_simps)

text \<open>
  C10, amended: \<open>a.append(b)\<close> is total when \<open>b\<close> is another object than \<open>a\<close>.  With every
  segment count \<open>\<ge> 1\<close> (a count is an \<open>int\<close>, so it is below \<open>2^31\<close>), for every target mesh,
  every transform, every subdivision level and every probability:
  no vertex appended by \<open>Plane::add\<close>, \<open>Box::add\<close>, \<open>Sphere::add\<close>, \<open>Torus::add\<close> or
  \<open>RandomMengerSponge::add\<close> has a division by zero behind it, and the divisor of
  \<open>rand() / RAND_MAX\<close> is not zero;
  the unsigned loops of \<open>Torus::add\<close> end and none of its conversions is undefined, the result
  being the mesh of \<open>Torus_add\<close>;
  the loop of \<open>flipWinding\<close> ends, the result being the mesh of \<open>flipWinding\<close>;
  and \<open>a.append(b)\<close> returns.
  The remaining loops, those of \<open>Plane::add\<close>, \<open>Box::add\<close>, \<open>Sphere::add\<close> and
  \<open>RandomMengerSponge::add\<close>, count an \<open>int\<close> up to a bound fixed before the loop or run
  over a vector that the loop does not change; they are the list comprehensions and folds
  of the definitions.  No function of the library reports an error.
\<close>

theorem operations_total:
  fixes geo :: "cfloat Vertex Mesh" and M :: rmat
  assumes "1 \<le> w" and "1 \<le> h" and "1 \<le> d" and "w < 2 ^ 31" and "h < 2 ^ 31"
    and "this \<noteq> other"
  shows "list_all no_division_by_zero
           (drop (length (m_vertices geo)) (m_vertices (Plane_add checked_glm geo (Some M) w h)))
       \<and> list_all no_division_by_zero
           (drop (length (m_vertices geo)) (m_vertices (Box_add checked_glm geo (Some M) w h d)))
       \<and> list_all no_division_by_zero
           (drop (length (m_vertices geo)) (m_vertices (Sphere_add checked_glm geo (Some M) w h)))
       \<and> Torus_add_loops checked_glm geo (Some M) w h = Torus_add checked_glm geo (Some M) w h
       \<and> (\<exists>m. Torus_add_loops checked_glm geo (Some M) w h = Some m
              \<and> list_all no_division_by_zero (drop (length (m_vertices geo)) (m_vertices m)))
       \<and> list_all no_division_by_zero
           (drop (length (m_vertices geo))
              (m_vertices (fst (RandomMengerSponge_add checked_glm geo rng (Some M) w h d level
                                  probability))))
       \<and> f_div checked_glm (f_of_int checked_glm r) (f_of_int checked_glm (RAND_MAX checked_glm))
           \<noteq> None
       \<and> flipWinding_loops mesh = Some (flipWinding mesh)
       \<and> (\<exists>s'. append this other s = Some s')"
proof -
  have n: "length (m_vertices geo) \<le> length (m_vertices geo)"
    "list_all no_division_by_zero (drop (length (m_vertices geo)) (m_vertices geo))"
    by simp_all
  have w: "0 \<le> w" and h: "0 \<le> h"
    using assms(1,2) by simp_all
  have loops: "Torus_add_loops checked_glm geo (Some M) w h
               = Torus_add checked_glm geo (Some M) w h"
    by (rule Torus_add_loops_eq [OF w assms(4) h assms(5)])
  have "\<exists>m. Torus_add checked_glm geo (Some M) w h = Some m
           \<and> list_all no_division_by_zero (drop (length (m_vertices geo)) (m_vertices m))"
    by (rule Torus_add_checked [OF assms(1,2) n])
  then have torus: "\<exists>m. Torus_add_loops checked_glm geo (Some M) w h = Some m
           \<and> list_all no_division_by_zero (drop (length (m_vertices geo)) (m_vertices m))"
    by (simp only: loops)
  have appended: "\<exists>s'. append this other s = Some s'"
    using assms(6) by (simp add: append_distinct)
  show ?thesis
    using Plane_add_checked [OF assms(1,2) n, of M, THEN conjunct2]
      Box_add_checked [OF assms(1-3) n, of M, THEN conjunct2]
      Sphere_add_checked [OF assms(1,2) n, of M, THEN conjunct2]
      loops torus
      RandomMengerSponge_add_checked [OF n, of rng "Some M" w h d level probability]
      sample_checked [of r] flipWinding_loops_eq [of mesh] appended
    by (intro conjI)
qed

theorem operations_total_witness:
  "((1::int) \<le> 2 \<and> (1::int) \<le> 3 \<and> (1::int) \<le> 4 \<and> (2::int) < 2 ^ 31 \<and> (3::int) < 2 ^ 31
    \<and> (0::nat) \<noteq> 1)
   \<and> (list_all no_division_by_zero
        (m_vertices (Plane_add checked_glm empty_Mesh (Some rmat_ident) 2 3))
      \<and> list_all no_division_by_zero
        (m_vertices (Box_add checked_glm empty_Mesh (Some rmat_ident) 2 3 4))
      \<and> (\<exists>m. Torus_add_loops checked_glm empty_Mesh (Some rmat_ident) 2 3 = Some m
             \<and> list_all no_division_by_zero (m_vertices m))
      \<and> flipWinding_loops (Plane_add real_glm empty_Mesh (mat_ident real_glm) 1 1)
          = Some (flipWinding (Plane_add real_glm empty_Mesh (mat_ident real_glm) 1 1))
      \<and> (\<exists>s'. append 0 1 (\<lambda>a. Plane_add real_glm empty_Mesh (mat_ident real_glm) 1 1) = Some s'))"
proof -
  have h: "(1::int) \<le> 2" "(1::int) \<le> 3" "(1::int) \<le> 4" "(2::int) < 2 ^ 31" "(3::int) < 2 ^ 31"
    "(0::nat) \<noteq> 1"
    by simp_all
  note t = operations_total [OF h, of empty_Mesh rmat_ident
      "\<lparr>rand_seq = (\<lambda>n. 0), rand_calls = 0\<rparr>" 0 "f_lit checked_glm (- 1)" 0
      "Plane_add real_glm empty_Mesh (mat_ident real_glm) 1 1"
      "\<lambda>a. Plane_add real_glm empty_Mesh (mat_ident real_glm) 1 1"]
  have e: "drop (length (m_vertices (empty_Mesh :: cfloat Vertex Mesh))) xs = xs"
    for xs :: "cfloat Vertex list"
    by (simp add: empty_Mesh_def)
  from t [THEN conjunct1] t [THEN conjunct2, THEN conjunct1]
    t [THEN conjunct2, THEN conjunct2, THEN conjunct2, THEN conjunct2, THEN conjunct1]
    t [THEN conjunct2, THEN conjunct2, THEN conjunct2, THEN conjunct2, THEN conjunct2,
       THEN conjunct2, THEN conjunct2, THEN conjunct1]
    t [THEN conjunct2, THEN conjunct2, THEN conjunct2, THEN conjunct2, THEN conjunct2,
       THEN conjunct2, THEN conjunct2, THEN conjunct2]
    h
  show ?thesis
    unfolding e by (intro conjI)
qed

end
